theory Spec2Isabelle
  imports Complex_Main "HOL-Library.Multiset"
begin

section \<open>Values, documents and the JavaScript operators the handlers use\<close>

text \<open>
  The server keeps no typed schema: a request body is whatever JSON object the client
  sent, and a stored document is a BSON document. Both are ordered lists of named
  values. \<open>VOid\<close> (an ObjectId) and \<open>VDate\<close> exist in BSON only: a JSON body cannot
  contain them. A JavaScript number is modelled by an integer; \<open>undefined\<close> is the
  absence of a value (\<open>None\<close>). A string is the list of the bytes of its UTF-8
  encoding.
\<close>

datatype val =
    VNull
  | VBool bool
  | VNum int
  | VStr string
  | VArr "val list"
  | VObj "(string \<times> val) list"
  | VOid nat
  | VDate nat

type_synonym doc = "(string \<times> val) list"

text \<open>Property read \<open>d.k\<close> and property write \<open>d.k = v\<close> (a new property goes last).\<close>

definition field :: "doc \<Rightarrow> string \<Rightarrow> val option" where
  "field d k = map_of d k"

fun assign :: "string \<Rightarrow> val \<Rightarrow> doc \<Rightarrow> doc" where
  "assign k v [] = [(k, v)]"
| "assign k v ((k', v') # d) = (if k = k' then (k, v) # d else (k', v') # assign k v d)"

text \<open>JavaScript truthiness, and \<open>a || b\<close>.\<close>

fun truthy :: "val option \<Rightarrow> bool" where
  "truthy None = False"
| "truthy (Some VNull) = False"
| "truthy (Some (VBool b)) = b"
| "truthy (Some (VNum n)) = (n \<noteq> 0)"
| "truthy (Some (VStr s)) = (s \<noteq> [])"
| "truthy (Some v) = True"

fun js_or :: "val option \<Rightarrow> val \<Rightarrow> val" where
  "js_or None d = d"
| "js_or (Some v) d = (if truthy (Some v) then v else d)"

text \<open>
  An object literal may hold \<open>undefined\<close> members. \<open>res.send\<close> (JSON) leaves them out;
  the database driver (option \<open>ignoreUndefined\<close> off, its default) stores them as null.
\<close>

fun to_json :: "(string \<times> val option) list \<Rightarrow> doc" where
  "to_json [] = []"
| "to_json ((k, None) # ms) = to_json ms"
| "to_json ((k, Some v) # ms) = (k, v) # to_json ms"

fun to_bson :: "(string \<times> val option) list \<Rightarrow> doc" where
  "to_bson [] = []"
| "to_bson ((k, None) # ms) = (k, VNull) # to_bson ms"
| "to_bson ((k, Some v) # ms) = (k, v) # to_bson ms"

subsection \<open>\<open>new ObjectId(id)\<close>\<close>

text \<open>
  A route parameter is a string. \<open>new ObjectId(s)\<close> accepts 24 hexadecimal digits and
  throws on any other string; \<open>None\<close> is the throw. (Drivers before version 6 also
  take a string of 12 bytes; no statement below depends on such a string.)
\<close>

definition hex_digit :: "char \<Rightarrow> nat option" where
  "hex_digit c =
     (let n = (of_char c :: nat) in
      if 48 \<le> n \<and> n \<le> 57 then Some (n - 48)
      else if 97 \<le> n \<and> n \<le> 102 then Some (n - 87)
      else if 65 \<le> n \<and> n \<le> 70 then Some (n - 55)
      else None)"

fun hex_value :: "nat \<Rightarrow> string \<Rightarrow> nat option" where
  "hex_value acc [] = Some acc"
| "hex_value acc (c # cs) =
     (case hex_digit c of None \<Rightarrow> None | Some h \<Rightarrow> hex_value (16 * acc + h) cs)"

definition ObjectId :: "string \<Rightarrow> nat option" where
  "ObjectId s = (if length s = 24 then hex_value 0 s else None)"

section \<open>The document store\<close>

text \<open>
  The two collections in insertion (natural) order, and the ObjectId generator. The
  generator is modelled by a counter: each \<open>new ObjectId()\<close> and each identifier the
  store assigns is larger than every one issued before.
\<close>

record server =
  lessons :: "doc list"
  contributors :: "doc list"
  next_oid :: nat

text \<open>
  What a handler does with the request: it sends a response (status, JSON body; a body
  \<open>VNull\<close> is \<open>res.send(null)\<close>), or an exception leaves the handler, which has no
  \<open>catch\<close>, and no response is sent by it.
\<close>

datatype outcome = Response nat val | Unhandled

text \<open>
  An equality condition \<open>{k: q}\<close> of a filter: the field equals \<open>q\<close>, or is an array
  with an element \<open>q\<close>; a missing field matches only null.
\<close>

fun matches_eq :: "val option \<Rightarrow> val \<Rightarrow> bool" where
  "matches_eq None q = (q = VNull)"
| "matches_eq (Some (VArr xs)) q = (VArr xs = q \<or> q \<in> set xs)"
| "matches_eq (Some v) q = (v = q)"

text \<open>The filter \<open>{_id: new ObjectId(id)}\<close>; an \<open>_id\<close> is never an array.\<close>

definition by_id :: "nat \<Rightarrow> doc \<Rightarrow> bool" where
  "by_id i d = (field d ''_id'' = Some (VOid i))"

text \<open>\<open>findOne(filter)\<close>: the first matching document, or null.\<close>

fun findOne :: "(doc \<Rightarrow> bool) \<Rightarrow> doc list \<Rightarrow> doc option" where
  "findOne flt [] = None"
| "findOne flt (d # ds) = (if flt d then Some d else findOne flt ds)"

text \<open>
  \<open>insertOne(d)\<close>: a document without \<open>_id\<close> (or with a null one) gets a generated
  identifier; a supplied \<open>_id\<close> is kept, and the insertion fails (\<open>None\<close>: the driver
  throws) when it is an array or already in the collection. The result is the
  identifier, the collection and the generator.
\<close>

definition insertOne :: "doc \<Rightarrow> doc list \<Rightarrow> nat \<Rightarrow> (val \<times> doc list \<times> nat) option" where
  "insertOne d coll n =
     (case field d ''_id'' of
        None \<Rightarrow> Some (VOid n, coll @ [assign ''_id'' (VOid n) d], Suc n)
      | Some VNull \<Rightarrow> Some (VOid n, coll @ [assign ''_id'' (VOid n) d], Suc n)
      | Some (VArr xs) \<Rightarrow> None
      | Some v \<Rightarrow>
          if list_ex (\<lambda>d'. field d' ''_id'' = Some v) coll then None
          else Some (v, coll @ [d], n))"

definition insert_ack :: "val \<Rightarrow> val" where
  "insert_ack i = VObj [(''acknowledged'', VBool True), (''insertedId'', i)]"

text \<open>
  \<open>updateOne(filter, update)\<close>: the update is applied to the first matching document.
  The result is \<open>matchedCount\<close> and the collection; \<open>None\<close> when the update operator
  fails on that document (the driver throws).
\<close>

fun updateOne :: "(doc \<Rightarrow> bool) \<Rightarrow> (doc \<Rightarrow> doc option) \<Rightarrow> doc list \<Rightarrow> (nat \<times> doc list) option" where
  "updateOne flt upd [] = Some (0, [])"
| "updateOne flt upd (d # ds) =
     (if flt d then (case upd d of None \<Rightarrow> None | Some d' \<Rightarrow> Some (1, d' # ds))
      else (case updateOne flt upd ds of None \<Rightarrow> None | Some (n, ds') \<Rightarrow> Some (n, d # ds')))"

text \<open>\<open>{$inc: {k: 1}}\<close>: a missing field becomes 1; a field that is not a number is an error.\<close>

definition inc_field :: "string \<Rightarrow> doc \<Rightarrow> doc option" where
  "inc_field k d =
     (case field d k of
        None \<Rightarrow> Some (assign k (VNum 1) d)
      | Some (VNum n) \<Rightarrow> Some (assign k (VNum (n + 1)) d)
      | Some _ \<Rightarrow> None)"

text \<open>\<open>{$push: {k: v}}\<close>: a missing field becomes \<open>[v]\<close>; a field that is not an array is an error.\<close>

definition push_field :: "string \<Rightarrow> val \<Rightarrow> doc \<Rightarrow> doc option" where
  "push_field k v d =
     (case field d k of
        None \<Rightarrow> Some (assign k (VArr [v]) d)
      | Some (VArr xs) \<Rightarrow> Some (assign k (VArr (xs @ [v])) d)
      | Some _ \<Rightarrow> None)"

section \<open>Lessons: creation and retrieval (src/index.js)\<close>

text \<open>
  \<open>POST /lessons\<close> of src/index.js, lines 64-74: three counters and the comment array
  are set on the body, then the body is inserted. \<open>now\<close> is the value of \<open>new Date()\<close>.
\<close>

definition lessonData_index :: "nat \<Rightarrow> doc \<Rightarrow> doc" where
  "lessonData_index now body =
     assign ''createdAt'' (VDate now)
       (assign ''comments'' (VArr [])
         (assign ''saves'' (VNum 0)
           (assign ''views'' (VNum 0)
             (assign ''likes'' (VNum 0) body))))"

definition post_lessons_index :: "nat \<Rightarrow> doc \<Rightarrow> server \<Rightarrow> outcome \<times> server" where
  "post_lessons_index now body st =
     (case insertOne (lessonData_index now body) (lessons st) (next_oid st) of
        None \<Rightarrow> (Unhandled, st)
      | Some (i, ls, n) \<Rightarrow> (Response 200 (insert_ack i), st\<lparr>lessons := ls, next_oid := n\<rparr>))"

text \<open>\<open>GET /lessons/:id\<close> of src/index.js, lines 90-94: the result of \<open>findOne\<close> is sent as it is.\<close>

definition get_lesson_index :: "string \<Rightarrow> server \<Rightarrow> outcome" where
  "get_lesson_index lid st =
     (case ObjectId lid of
        None \<Rightarrow> Unhandled
      | Some i \<Rightarrow>
          (case findOne (by_id i) (lessons st) of
             None \<Rightarrow> Response 200 VNull
           | Some lesson \<Rightarrow> Response 200 (VObj lesson)))"

section \<open>Checkout session (src/unnamed/part_002, lines 113-143)\<close>

text \<open>\<open>Math.round\<close>: the nearest integer, a half rounded up.\<close>

definition Math_round :: "real \<Rightarrow> int" where
  "Math_round x = \<lfloor>x + 1 / 2\<rfloor>"

definition FIXED_BDT_PRICE :: real where
  "FIXED_BDT_PRICE = 1500"

definition USD_RATE :: real where
  "USD_RATE = 127"

definition amount :: int where
  "amount = Math_round ((FIXED_BDT_PRICE / USD_RATE) * 100)"

text \<open>A template string: literal text, the configured client origin, interpolated values.\<close>

datatype piece = Lit string | CLIENT_DOMAIN | Interp "val option"

record session_params =
  currency :: string
  unit_amount :: int
  product_name :: val
  product_description :: string
  quantity :: nat
  mode :: string
  customer_email :: "val option"
  metadata_lessonId :: "val option"
  success_url :: "piece list"
  cancel_url :: "piece list"

definition checkout_params :: "doc \<Rightarrow> session_params" where
  "checkout_params body =
     \<lparr> currency = ''usd'',
       unit_amount = amount,
       product_name = js_or (field body ''lessonTitle'') (VStr ''Premium Lesson Access''),
       product_description =
         ''Price '' @ [CHR 0xC3, CHR 0xA0, CHR 0xC2, CHR 0xA7, CHR 0xC2, CHR 0xB3]
           @ ''1500 BDT (charged in USD)'',
       quantity = 1,
       mode = ''payment'',
       customer_email = field body ''senderEmail'',
       metadata_lessonId = field body ''lessonId'',
       success_url = [CLIENT_DOMAIN, Lit ''/payment-success?session_id={CHECKOUT_SESSION_ID}''],
       cancel_url = [CLIENT_DOMAIN, Lit ''/payment-cancelled/'', Interp (field body ''lessonId'')] \<rparr>"

text \<open>
  The payment provider is a parameter: \<open>create p\<close> is the \<open>url\<close> of the session it
  creates for \<open>p\<close>, or \<open>None\<close> when the call throws. \<open>res.send({ url: session.url })\<close>.
\<close>

definition create_checkout_session :: "(session_params \<Rightarrow> val option option) \<Rightarrow> doc \<Rightarrow> outcome" where
  "create_checkout_session create body =
     (case create (checkout_params body) of
        None \<Rightarrow> Unhandled
      | Some url \<Rightarrow> Response 200 (VObj (to_json [(''url'', url)])))"

section \<open>Lesson listing (src/index.js lines 76-87, src/unnamed/part_001 lines 77-87)\<close>

text \<open>
  \<open>parseInt(s)\<close> without a radix: leading white space is skipped, then an optional sign,
  then an optional \<open>0x\<close> (which selects radix 16), then the longest run of digits is
  read; with no digit the result is \<open>NaN\<close> (\<open>None\<close>). The query parameter is a string,
  or absent (\<open>parseInt(undefined)\<close> is \<open>NaN\<close>); an array or an object, which the query
  parser makes of a repeated or bracketed parameter, is converted to a string by
  \<open>parseInt\<close>, and the argument here is that string. Beyond \<open>2^53\<close> JavaScript rounds
  the integer to the nearest double, and the store reads a limit beyond \<open>2^63 - 1\<close> as
  that bound; no collection holds so many documents, and the integer is kept exact.

  White space is what JavaScript trims: TAB, LF, VT, FF, CR and SPACE (one byte each),
  U+00A0 (bytes C2 A0), and U+1680, U+2000 to U+200A, U+2028, U+2029, U+202F, U+205F,
  U+3000 and U+FEFF (three bytes each).
\<close>

definition is_space :: "char \<Rightarrow> bool" where
  "is_space c = ((of_char c :: nat) \<in> {9, 10, 11, 12, 13, 32})"

definition is_space2 :: "char \<Rightarrow> char \<Rightarrow> bool" where
  "is_space2 a b = ((of_char a :: nat) = 0xC2 \<and> (of_char b :: nat) = 0xA0)"

definition is_space3 :: "char \<Rightarrow> char \<Rightarrow> char \<Rightarrow> bool" where
  "is_space3 a b c =
     (let x = (of_char a :: nat); y = (of_char b :: nat); z = (of_char c :: nat) in
        (x = 0xE1 \<and> y = 0x9A \<and> z = 0x80)
      \<or> (x = 0xE2 \<and> y = 0x80 \<and> (0x80 \<le> z \<and> z \<le> 0x8A \<or> z = 0xA8 \<or> z = 0xA9 \<or> z = 0xAF))
      \<or> (x = 0xE2 \<and> y = 0x81 \<and> z = 0x9F)
      \<or> (x = 0xE3 \<and> y = 0x80 \<and> z = 0x80)
      \<or> (x = 0xEF \<and> y = 0xBB \<and> z = 0xBF))"

fun skip_space :: "string \<Rightarrow> string" where
  "skip_space (a # b # c # s) =
     (if is_space a then skip_space (b # c # s)
      else if is_space2 a b then skip_space (c # s)
      else if is_space3 a b c then skip_space s
      else a # b # c # s)"
| "skip_space [a, b] =
     (if is_space a then skip_space [b] else if is_space2 a b then [] else [a, b])"
| "skip_space [a] = (if is_space a then [] else [a])"
| "skip_space [] = []"

definition dec_digit :: "char \<Rightarrow> nat option" where
  "dec_digit c =
     (let n = (of_char c :: nat) in if 48 \<le> n \<and> n \<le> 57 then Some (n - 48) else None)"

fun read_digits :: "nat \<Rightarrow> (char \<Rightarrow> nat option) \<Rightarrow> nat option \<Rightarrow> string \<Rightarrow> nat option" where
  "read_digits R dig acc [] = acc"
| "read_digits R dig acc (c # cs) =
     (case dig c of
        None \<Rightarrow> acc
      | Some h \<Rightarrow> read_digits R dig (Some (R * (case acc of None \<Rightarrow> 0 | Some a \<Rightarrow> a) + h)) cs)"

fun strip_sign :: "string \<Rightarrow> bool \<times> string" where
  "strip_sign [] = (False, [])"
| "strip_sign (c # cs) =
     (if c = CHR ''-'' then (True, cs) else if c = CHR ''+'' then (False, cs) else (False, c # cs))"

definition read_magnitude :: "string \<Rightarrow> nat option" where
  "read_magnitude s =
     (if take 2 s = ''0x'' \<or> take 2 s = ''0X'' then read_digits 16 hex_digit None (drop 2 s)
      else read_digits 10 dec_digit None s)"

definition parseInt :: "string option \<Rightarrow> int option" where
  "parseInt q =
     (case q of
        None \<Rightarrow> None
      | Some s \<Rightarrow>
          (case strip_sign (skip_space s) of
             (neg, s') \<Rightarrow>
               (case read_magnitude s' of
                  None \<Rightarrow> None
                | Some m \<Rightarrow> Some (if neg then - int m else int m))))"

text \<open>
  \<open>sort({ _id: -1 })\<close> orders by the BSON comparison of the \<open>_id\<close> values: first by the
  rank of the type, then inside the type. Strings compare bytewise; embedded documents
  and arrays member by member.
\<close>

fun bson_rank :: "val \<Rightarrow> nat" where
  "bson_rank VNull = 1"
| "bson_rank (VNum n) = 2"
| "bson_rank (VStr s) = 3"
| "bson_rank (VObj fs) = 4"
| "bson_rank (VArr xs) = 5"
| "bson_rank (VOid i) = 7"
| "bson_rank (VBool b) = 8"
| "bson_rank (VDate t) = 9"

datatype ordering = Lt | Eq | Gt

fun swap_ord :: "ordering \<Rightarrow> ordering" where
  "swap_ord Lt = Gt"
| "swap_ord Eq = Eq"
| "swap_ord Gt = Lt"

definition cmp_of :: "'a::linorder \<Rightarrow> 'a \<Rightarrow> ordering" where
  "cmp_of a b = (if a < b then Lt else if a = b then Eq else Gt)"

fun str_cmp :: "string \<Rightarrow> string \<Rightarrow> ordering" where
  "str_cmp [] [] = Eq"
| "str_cmp [] (y # ys) = Lt"
| "str_cmp (x # xs) [] = Gt"
| "str_cmp (x # xs) (y # ys) =
     (case cmp_of (of_char x :: nat) (of_char y) of Eq \<Rightarrow> str_cmp xs ys | r \<Rightarrow> r)"

fun bson_cmp :: "val \<Rightarrow> val \<Rightarrow> ordering"
  and fields_cmp :: "(string \<times> val) list \<Rightarrow> (string \<times> val) list \<Rightarrow> ordering"
  and elems_cmp :: "val list \<Rightarrow> val list \<Rightarrow> ordering" where
  "bson_cmp (VNum a) (VNum b) = cmp_of a b"
| "bson_cmp (VStr a) (VStr b) = str_cmp a b"
| "bson_cmp (VBool a) (VBool b) = cmp_of a b"
| "bson_cmp (VOid a) (VOid b) = cmp_of a b"
| "bson_cmp (VDate a) (VDate b) = cmp_of a b"
| "bson_cmp (VObj a) (VObj b) = fields_cmp a b"
| "bson_cmp (VArr a) (VArr b) = elems_cmp a b"
| "bson_cmp a b = cmp_of (bson_rank a) (bson_rank b)"
| "fields_cmp [] [] = Eq"
| "fields_cmp [] (y # ys) = Lt"
| "fields_cmp (x # xs) [] = Gt"
| "fields_cmp ((k, v) # xs) ((k', v') # ys) =
     (if bson_rank v \<noteq> bson_rank v' then cmp_of (bson_rank v) (bson_rank v')
      else (case str_cmp k k' of
              Eq \<Rightarrow> (case bson_cmp v v' of Eq \<Rightarrow> fields_cmp xs ys | r \<Rightarrow> r)
            | r \<Rightarrow> r))"
| "elems_cmp [] [] = Eq"
| "elems_cmp [] (y # ys) = Lt"
| "elems_cmp (x # xs) [] = Gt"
| "elems_cmp (v # xs) (v' # ys) =
     (if bson_rank v \<noteq> bson_rank v' then cmp_of (bson_rank v) (bson_rank v')
      else (case bson_cmp v v' of Eq \<Rightarrow> elems_cmp xs ys | r \<Rightarrow> r))"

definition id_of :: "doc \<Rightarrow> val" where
  "id_of d = (case field d ''_id'' of None \<Rightarrow> VNull | Some v \<Rightarrow> v)"

definition id_less :: "doc \<Rightarrow> doc \<Rightarrow> bool" where
  "id_less d e = (bson_cmp (id_of d) (id_of e) = Lt)"

fun insert_desc :: "doc \<Rightarrow> doc list \<Rightarrow> doc list" where
  "insert_desc d [] = [d]"
| "insert_desc d (e # es) = (if id_less d e then e # insert_desc d es else d # e # es)"

definition sort_id_desc :: "doc list \<Rightarrow> doc list" where
  "sort_id_desc ds = foldr insert_desc ds []"

text \<open>
  \<open>cursor.limit(n)\<close> and \<open>toArray()\<close>: 0 is no limit; a negative \<open>n\<close> limits the result to
  \<open>-n\<close> documents like the positive one and closes the cursor after its first batch. How
  many documents the store puts into the first batch of a result is a parameter,
  \<open>first_batch\<close>.
\<close>

definition single_batch :: "(doc list \<Rightarrow> nat) \<Rightarrow> doc list \<Rightarrow> doc list" where
  "single_batch first_batch ds = take (first_batch ds) ds"

definition limit_docs :: "(doc list \<Rightarrow> nat) \<Rightarrow> int \<Rightarrow> doc list \<Rightarrow> doc list" where
  "limit_docs first_batch n ds =
     (if n = 0 then ds
      else if 0 < n then take (nat n) ds
      else single_batch first_batch (take (nat (- n)) ds))"

text \<open>src/index.js: \<open>if (!isNaN(limit)) cursor.limit(limit)\<close>.\<close>

definition get_lessons_index :: "(doc list \<Rightarrow> nat) \<Rightarrow> string option \<Rightarrow> server \<Rightarrow> outcome" where
  "get_lessons_index first_batch q st =
     (let cursor = sort_id_desc (lessons st) in
      Response 200 (VArr (map VObj
        (case parseInt q of None \<Rightarrow> cursor | Some limit \<Rightarrow> limit_docs first_batch limit cursor))))"

text \<open>src/unnamed/part_001: \<open>if (limit) cursor = cursor.limit(limit)\<close>; \<open>NaN\<close> and 0 are falsy.\<close>

definition get_lessons_p001 :: "(doc list \<Rightarrow> nat) \<Rightarrow> string option \<Rightarrow> server \<Rightarrow> outcome" where
  "get_lessons_p001 first_batch q st =
     (let cursor = sort_id_desc (lessons st) in
      Response 200 (VArr (map VObj
        (case parseInt q of
           None \<Rightarrow> cursor
         | Some limit \<Rightarrow> if limit \<noteq> 0 then limit_docs first_batch limit cursor else cursor))))"

text \<open>
  \<open>POST /lessons\<close> of src/unnamed/part_000 (lines 62-66) and part_001 (lines 70-74):
  the body is inserted as it is.
\<close>

definition post_lessons_p001 :: "doc \<Rightarrow> server \<Rightarrow> outcome \<times> server" where
  "post_lessons_p001 body st =
     (case insertOne body (lessons st) (next_oid st) of
        None \<Rightarrow> (Unhandled, st)
      | Some (i, ls, n) \<Rightarrow> (Response 200 (insert_ack i), st\<lparr>lessons := ls, next_oid := n\<rparr>))"

text \<open>
  The lessons' identifiers are generated ones, ascending in insertion order, and the
  generator is beyond them.
\<close>

definition generated_id :: "nat \<Rightarrow> doc \<Rightarrow> bool" where
  "generated_id n d = (case field d ''_id'' of Some (VOid i) \<Rightarrow> i < n | _ \<Rightarrow> False)"

definition server_ids :: "server \<Rightarrow> bool" where
  "server_ids st =
     (sorted_wrt id_less (lessons st) \<and> list_all (generated_id (next_oid st)) (lessons st))"

section \<open>The JWT guard \<open>verifyJWT\<close>\<close>

text \<open>
  \<open>s.split(" ")\<close>, and the token \<open>authorization?.split(" ")[1]\<close>. The identity provider
  is a parameter: \<open>verifyIdToken t\<close> is \<open>Inr\<close> the \<open>email\<close> member of the decoded token
  (possibly undefined), or \<open>Inl\<close> the error it throws.
\<close>

fun split_on :: "char \<Rightarrow> string \<Rightarrow> string list" where
  "split_on c [] = [[]]"
| "split_on c (x # xs) =
     (if x = c then [] # split_on c xs
      else (case split_on c xs of [] \<Rightarrow> [[x]] | w # ws \<Rightarrow> (x # w) # ws))"

definition bearer_token :: "string option \<Rightarrow> string option" where
  "bearer_token authorization =
     (case authorization of
        None \<Rightarrow> None
      | Some h \<Rightarrow> (case split_on CHR '' '' h of a # t # rest \<Rightarrow> Some t | _ \<Rightarrow> None))"

type_synonym verifier = "string \<Rightarrow> val + val option"

text \<open>
  The guard of src/index.js and src/unnamed/part_001: 401 without a token or with a
  token the provider rejects; otherwise the handler runs with \<open>req.tokenEmail\<close> set.
\<close>

definition verifyJWT ::
  "verifier \<Rightarrow> string option \<Rightarrow> (val option \<Rightarrow> server \<Rightarrow> outcome \<times> server) \<Rightarrow> server \<Rightarrow> outcome \<times> server" where
  "verifyJWT verifyIdToken authorization next st =
     (case bearer_token authorization of
        None \<Rightarrow> (Response 401 (VObj [(''message'', VStr ''Unauthorized Access!'')]), st)
      | Some token \<Rightarrow>
          if token = [] then (Response 401 (VObj [(''message'', VStr ''Unauthorized Access!'')]), st)
          else (case verifyIdToken token of
                  Inl err \<Rightarrow>
                    (Response 401 (VObj [(''message'', VStr ''Unauthorized Access!''), (''err'', err)]), st)
                | Inr email \<Rightarrow> next email st))"

section \<open>Comments, replies and comment likes\<close>

text \<open>
  \<open>POST /lessons/:id/comments\<close> (src/index.js lines 166-188, src/unnamed/part_000 lines
  82-105; neither is behind the guard, so \<open>req.tokenEmail\<close> is whatever the request
  object carries, which is nothing). The comment's identifier is generated before
  \<open>new ObjectId(lessonId)\<close> is evaluated.
\<close>

definition newComment :: "val \<Rightarrow> val option \<Rightarrow> val option \<Rightarrow> nat \<Rightarrow> (string \<times> val option) list" where
  "newComment i user text now =
     [(''_id'', Some i), (''user'', user), (''text'', text), (''likes'', Some (VNum 0)),
      (''replies'', Some (VArr [])), (''createdAt'', Some (VDate now))]"

definition post_comment :: "nat \<Rightarrow> val option \<Rightarrow> string \<Rightarrow> doc \<Rightarrow> server \<Rightarrow> outcome \<times> server" where
  "post_comment now tokenEmail lessonId body st =
     (let text = field body ''text'' in
      if \<not> truthy text then (Response 400 (VObj [(''message'', VStr ''Comment text required'')]), st)
      else
        (let c = newComment (VOid (next_oid st)) tokenEmail text now;
             st1 = st\<lparr>next_oid := Suc (next_oid st)\<rparr>
         in case ObjectId lessonId of
              None \<Rightarrow> (Unhandled, st1)
            | Some i \<Rightarrow>
                (case updateOne (by_id i) (push_field ''comments'' (VObj (to_bson c))) (lessons st1) of
                   None \<Rightarrow> (Unhandled, st1)
                 | Some (n, ls) \<Rightarrow> (Response 200 (VObj (to_json c)), st1\<lparr>lessons := ls\<rparr>))))"

text \<open>
  The filter \<open>{"comments._id": c}\<close> and the positional operator \<open>comments.$\<close>: the first
  element of the \<open>comments\<close> array that is a document with \<open>_id\<close> equal to \<open>c\<close>. The
  operator fails (\<open>None\<close>) when \<open>comments\<close> is not an array with such an element.
\<close>

definition elem_matches :: "nat \<Rightarrow> val \<Rightarrow> bool" where
  "elem_matches c e = (case e of VObj fs \<Rightarrow> field fs ''_id'' = Some (VOid c) | _ \<Rightarrow> False)"

definition comments_match :: "nat \<Rightarrow> doc \<Rightarrow> bool" where
  "comments_match c d =
     (case field d ''comments'' of
        Some (VArr cs) \<Rightarrow> list_ex (elem_matches c) cs
      | Some (VObj fs) \<Rightarrow> field fs ''_id'' = Some (VOid c)
      | _ \<Rightarrow> False)"

fun update_first_elem :: "(val \<Rightarrow> bool) \<Rightarrow> (doc \<Rightarrow> doc option) \<Rightarrow> val list \<Rightarrow> val list option" where
  "update_first_elem P f [] = None"
| "update_first_elem P f (e # es) =
     (if P e then (case e of VObj fs \<Rightarrow> map_option (\<lambda>fs'. VObj fs' # es) (f fs) | _ \<Rightarrow> None)
      else map_option ((#) e) (update_first_elem P f es))"

definition positional :: "nat \<Rightarrow> (doc \<Rightarrow> doc option) \<Rightarrow> doc \<Rightarrow> doc option" where
  "positional c f d =
     (case field d ''comments'' of
        Some (VArr cs) \<Rightarrow>
          map_option (\<lambda>cs'. assign ''comments'' (VArr cs') d) (update_first_elem (elem_matches c) f cs)
      | _ \<Rightarrow> None)"

text \<open>
  \<open>POST /lessons/:id/comments/:commentId/replies\<close>: one \<open>updateOne\<close> whose filter names
  the lesson and the comment and whose update pushes at the matched position
  (src/index.js lines 191-215 and src/unnamed/part_001 lines 125-150, both behind the
  guard).
\<close>

definition newReply :: "val \<Rightarrow> val option \<Rightarrow> val option \<Rightarrow> nat \<Rightarrow> (string \<times> val option) list" where
  "newReply i user text now =
     [(''_id'', Some i), (''user'', user), (''text'', text), (''createdAt'', Some (VDate now))]"

definition post_reply ::
  "nat \<Rightarrow> val option \<Rightarrow> string \<Rightarrow> string \<Rightarrow> doc \<Rightarrow> server \<Rightarrow> outcome \<times> server" where
  "post_reply now tokenEmail lid commentId body st =
     (let text = field body ''text'' in
      if \<not> truthy text then (Response 400 (VObj [(''message'', VStr ''Reply text required'')]), st)
      else
        (let r = newReply (VOid (next_oid st)) tokenEmail text now;
             st1 = st\<lparr>next_oid := Suc (next_oid st)\<rparr>
         in case ObjectId lid of
              None \<Rightarrow> (Unhandled, st1)
            | Some i \<Rightarrow>
                (case ObjectId commentId of
                   None \<Rightarrow> (Unhandled, st1)
                 | Some c \<Rightarrow>
                     (case updateOne (\<lambda>d. by_id i d \<and> comments_match c d)
                             (positional c (push_field ''replies'' (VObj (to_bson r)))) (lessons st1) of
                        None \<Rightarrow> (Unhandled, st1)
                      | Some (n, ls) \<Rightarrow> (Response 200 (VObj (to_json r)), st1\<lparr>lessons := ls\<rparr>)))))"

definition post_reply_guarded ::
  "verifier \<Rightarrow> string option \<Rightarrow> nat \<Rightarrow> string \<Rightarrow> string \<Rightarrow> doc \<Rightarrow> server \<Rightarrow> outcome \<times> server" where
  "post_reply_guarded verifyIdToken authorization now lid commentId body st =
     verifyJWT verifyIdToken authorization (\<lambda>email. post_reply now email lid commentId body) st"

text \<open>\<open>POST /lessons/:id/comments/:commentId/like\<close> (src/unnamed/part_002 lines 327-334).\<close>

definition post_comment_like :: "string \<Rightarrow> string \<Rightarrow> server \<Rightarrow> outcome \<times> server" where
  "post_comment_like lid commentId st =
     (case ObjectId lid of
        None \<Rightarrow> (Unhandled, st)
      | Some i \<Rightarrow>
          (case ObjectId commentId of
             None \<Rightarrow> (Unhandled, st)
           | Some c \<Rightarrow>
               (case updateOne (\<lambda>d. by_id i d \<and> comments_match c d)
                       (positional c (inc_field ''likes'')) (lessons st) of
                  None \<Rightarrow> (Unhandled, st)
                | Some (n, ls) \<Rightarrow> (Response 200 (VObj [(''success'', VBool True)]), st\<lparr>lessons := ls\<rparr>))))"

section \<open>Counters\<close>

text \<open>
  \<open>POST /lessons/:id/view\<close>, \<open>/like\<close> and \<open>/save\<close> (src/index.js lines 136-163, the same in
  src/unnamed/part_002 lines 232-259), for the counter \<open>k\<close>.
\<close>

definition post_counter :: "string \<Rightarrow> string \<Rightarrow> server \<Rightarrow> outcome \<times> server" where
  "post_counter k lid st =
     (case ObjectId lid of
        None \<Rightarrow> (Unhandled, st)
      | Some i \<Rightarrow>
          (case updateOne (by_id i) (inc_field k) (lessons st) of
             None \<Rightarrow> (Unhandled, st)
           | Some (n, ls) \<Rightarrow> (Response 200 (VObj [(''success'', VBool True)]), st\<lparr>lessons := ls\<rparr>)))"

definition post_view :: "string \<Rightarrow> server \<Rightarrow> outcome \<times> server" where
  "post_view = post_counter ''views''"

definition post_like :: "string \<Rightarrow> server \<Rightarrow> outcome \<times> server" where
  "post_like = post_counter ''likes''"

definition post_save :: "string \<Rightarrow> server \<Rightarrow> outcome \<times> server" where
  "post_save = post_counter ''saves''"

text \<open>
  \<open>POST /lessons/:id/share\<close>: the update is inside \<open>try\<close>, so a throw is a 500 (whose
  \<open>error\<close> member, the serialised exception, is left out here). src/unnamed/part_002
  (lines 313-324) answers \<open>{success: true}\<close>; src/index.js (lines 218-231) adds a message.
\<close>

definition post_share :: "val \<Rightarrow> string \<Rightarrow> server \<Rightarrow> outcome \<times> server" where
  "post_share ack lid st =
     (case ObjectId lid of
        None \<Rightarrow> (Response 500 (VObj [(''message'', VStr ''Share failed!'')]), st)
      | Some i \<Rightarrow>
          (case updateOne (by_id i) (inc_field ''shares'') (lessons st) of
             None \<Rightarrow> (Response 500 (VObj [(''message'', VStr ''Share failed!'')]), st)
           | Some (n, ls) \<Rightarrow> (Response 200 ack, st\<lparr>lessons := ls\<rparr>)))"

definition post_share_p002 :: "string \<Rightarrow> server \<Rightarrow> outcome \<times> server" where
  "post_share_p002 = post_share (VObj [(''success'', VBool True)])"

definition post_share_index :: "string \<Rightarrow> server \<Rightarrow> outcome \<times> server" where
  "post_share_index =
     post_share (VObj [(''success'', VBool True), (''message'', VStr ''Lesson shared!'')])"

text \<open>A sequence of counter requests, each handled to completion before the next.\<close>

datatype counter = View | Like | Save | Share

fun counter_field :: "counter \<Rightarrow> string" where
  "counter_field View = ''views''"
| "counter_field Like = ''likes''"
| "counter_field Save = ''saves''"
| "counter_field Share = ''shares''"

fun bump :: "counter \<Rightarrow> string \<Rightarrow> server \<Rightarrow> outcome \<times> server" where
  "bump View = post_view"
| "bump Like = post_like"
| "bump Save = post_save"
| "bump Share = post_share_p002"

fun bumps :: "(counter \<times> string) list \<Rightarrow> server \<Rightarrow> server" where
  "bumps [] st = st"
| "bumps ((c, lid) # rs) st = bumps rs (snd (bump c lid st))"

definition bumps_of :: "counter \<Rightarrow> nat \<Rightarrow> (counter \<times> string) list \<Rightarrow> nat" where
  "bumps_of c i rs = length (filter (\<lambda>(c', lid). c' = c \<and> ObjectId lid = Some i) rs)"

section \<open>Generated identifiers\<close>

text \<open>
  The ObjectIds inside a value. \<open>fresh_gen\<close>: every ObjectId stored in a lesson was
  issued by the generator, so the next one it issues is new to the store.
\<close>

fun oids :: "val \<Rightarrow> nat set" where
  "oids (VOid i) = {i}"
| "oids (VArr xs) = (\<Union>x \<in> set xs. oids x)"
| "oids (VObj fs) = (\<Union>x \<in> set fs. oids (snd x))"
| "oids v = {}"

definition fresh_gen :: "server \<Rightarrow> bool" where
  "fresh_gen st = (\<forall>d \<in> set (lessons st). \<forall>j \<in> oids (VObj d). j < next_oid st)"

text \<open>\<open>$push\<close> to \<open>comments\<close> succeeds on a document whose \<open>comments\<close> is missing or an array.\<close>

definition comments_pushable :: "doc \<Rightarrow> bool" where
  "comments_pushable d =
     (case field d ''comments'' of None \<Rightarrow> True | Some (VArr cs) \<Rightarrow> True | Some _ \<Rightarrow> False)"

definition comments_of :: "doc \<Rightarrow> val list" where
  "comments_of d = (case field d ''comments'' of Some (VArr cs) \<Rightarrow> cs | _ \<Rightarrow> [])"

section \<open>Lesson update and delete (src/unnamed/part_002, lines 338-388)\<close>

text \<open>
  \<open>{$set: {title, content, image, updatedAt: new Date()}}\<close>: the three names are
  destructured from the body, so an omitted one is \<open>undefined\<close> in the update document
  and is stored as null. A throw inside \<open>try\<close> is a 500 (its \<open>error\<close> member is left out).
\<close>

definition set_fields :: "doc \<Rightarrow> doc \<Rightarrow> doc option" where
  "set_fields kvs d = Some (foldl (\<lambda>d' kv. assign (fst kv) (snd kv) d') d kvs)"

definition put_lesson :: "nat \<Rightarrow> string \<Rightarrow> doc \<Rightarrow> server \<Rightarrow> outcome \<times> server" where
  "put_lesson now lid body st =
     (case ObjectId lid of
        None \<Rightarrow> (Response 500 (VObj [(''message'', VStr ''Failed to update lesson'')]), st)
      | Some i \<Rightarrow>
          (case updateOne (by_id i)
                  (set_fields (to_bson [(''title'', field body ''title''),
                                        (''content'', field body ''content''),
                                        (''image'', field body ''image''),
                                        (''updatedAt'', Some (VDate now))]))
                  (lessons st) of
             None \<Rightarrow> (Response 500 (VObj [(''message'', VStr ''Failed to update lesson'')]), st)
           | Some (matchedCount, ls) \<Rightarrow>
               if matchedCount = 0
               then (Response 404 (VObj [(''message'', VStr ''Lesson not found'')]), st\<lparr>lessons := ls\<rparr>)
               else (Response 200 (VObj [(''message'', VStr ''Lesson updated successfully'')]),
                     st\<lparr>lessons := ls\<rparr>)))"

fun deleteOne :: "(doc \<Rightarrow> bool) \<Rightarrow> doc list \<Rightarrow> nat \<times> doc list" where
  "deleteOne flt [] = (0, [])"
| "deleteOne flt (d # ds) =
     (if flt d then (1, ds) else (case deleteOne flt ds of (n, ds') \<Rightarrow> (n, d # ds')))"

definition delete_lesson :: "string \<Rightarrow> server \<Rightarrow> outcome \<times> server" where
  "delete_lesson lid st =
     (case ObjectId lid of
        None \<Rightarrow> (Response 500 (VObj [(''message'', VStr ''Failed to delete lesson'')]), st)
      | Some i \<Rightarrow>
          (case deleteOne (by_id i) (lessons st) of
             (deletedCount, ls) \<Rightarrow>
               if deletedCount = 0
               then (Response 404 (VObj [(''message'', VStr ''Lesson not found'')]), st\<lparr>lessons := ls\<rparr>)
               else (Response 200 (VObj [(''message'', VStr ''Lesson deleted successfully'')]),
                     st\<lparr>lessons := ls\<rparr>)))"

section \<open>Contributors\<close>

text \<open>
  \<open>POST /contributors\<close>: src/index.js lines 122-133 (default avatar \<open>""\<close>) and
  src/unnamed/part_002 lines 220-229 (default avatar \<open>"/images/default.jpg"\<close>).
\<close>

definition post_contributors :: "string \<Rightarrow> nat \<Rightarrow> doc \<Rightarrow> server \<Rightarrow> outcome \<times> server" where
  "post_contributors default_avatar now body st =
     (let c1 = assign ''name'' (js_or (field body ''name'') (VStr ''Anonymous'')) body;
          c2 = assign ''lessons'' (js_or (field c1 ''lessons'') (VNum 0)) c1;
          c3 = assign ''avatar'' (js_or (field c2 ''avatar'') (VStr default_avatar)) c2;
          contributor = assign ''createdAt'' (VDate now) c3
      in case insertOne contributor (contributors st) (next_oid st) of
           None \<Rightarrow> (Unhandled, st)
         | Some (i, cs, n) \<Rightarrow> (Response 200 (insert_ack i), st\<lparr>contributors := cs, next_oid := n\<rparr>))"

definition post_contributors_index :: "nat \<Rightarrow> doc \<Rightarrow> server \<Rightarrow> outcome \<times> server" where
  "post_contributors_index = post_contributors []"

definition post_contributors_p002 :: "nat \<Rightarrow> doc \<Rightarrow> server \<Rightarrow> outcome \<times> server" where
  "post_contributors_p002 = post_contributors ''/images/default.jpg''"

text \<open>
  The upsert of \<open>POST /lessons\<close> (src/unnamed/part_002 lines 84-97): the first contributor
  whose \<open>name\<close> matches gets \<open>lessons\<close> incremented; without one, a contributor with
  \<open>lessons = 1\<close> is inserted under an identifier the store generates. (An author that is
  an object of query operators is compared as a plain value here.)
\<close>

definition upsert_contributor ::
  "val \<Rightarrow> val option \<Rightarrow> nat \<Rightarrow> doc list \<Rightarrow> nat \<Rightarrow> (doc list \<times> nat) option" where
  "upsert_contributor name avatar now coll n =
     (if list_ex (\<lambda>c. matches_eq (field c ''name'') name) coll
      then (case updateOne (\<lambda>c. matches_eq (field c ''name'') name) (inc_field ''lessons'') coll of
              None \<Rightarrow> None
            | Some (m, cs) \<Rightarrow> Some (cs, n))
      else Some (coll @ [to_bson [(''_id'', Some (VOid n)), (''name'', Some name), (''avatar'', avatar),
                                  (''createdAt'', Some (VDate now)), (''lessons'', Some (VNum 1))]],
                 Suc n))"

section \<open>Lesson creation and retrieval in src/unnamed/part_002\<close>

text \<open>
  \<open>POST /lessons\<close>, lines 67-100: all four counters, the comment array and the defaults
  of \<open>author\<close> and \<open>authorAvatar\<close> are set on the body; the lesson is inserted; then the
  author's contributor is upserted (\<open>now'\<close> is its own \<open>new Date()\<close>). A throw of the
  upsert leaves the handler after the lesson was stored.
\<close>

definition lessonData_p002 :: "nat \<Rightarrow> doc \<Rightarrow> doc" where
  "lessonData_p002 now body =
     (let l = assign ''createdAt'' (VDate now)
               (assign ''shares'' (VNum 0)
                 (assign ''comments'' (VArr [])
                   (assign ''saves'' (VNum 0)
                     (assign ''views'' (VNum 0)
                       (assign ''likes'' (VNum 0) body)))));
          l' = assign ''author'' (js_or (field l ''author'') (VStr ''Anonymous'')) l
      in assign ''authorAvatar'' (js_or (field l' ''authorAvatar'') (VStr ''/images/default.jpg'')) l')"

definition post_lessons_p002 :: "nat \<Rightarrow> nat \<Rightarrow> doc \<Rightarrow> server \<Rightarrow> outcome \<times> server" where
  "post_lessons_p002 now now' body st =
     (let lessonData = lessonData_p002 now body in
      case insertOne lessonData (lessons st) (next_oid st) of
        None \<Rightarrow> (Unhandled, st)
      | Some (i, ls, n) \<Rightarrow>
          (let st1 = st\<lparr>lessons := ls, next_oid := n\<rparr> in
           case field lessonData ''author'' of
             None \<Rightarrow> (Response 200 (insert_ack i), st1)
           | Some author \<Rightarrow>
               if truthy (Some author)
               then (case upsert_contributor author (field lessonData ''authorAvatar'') now'
                            (contributors st1) (next_oid st1) of
                       None \<Rightarrow> (Unhandled, st1)
                     | Some (cs, n') \<Rightarrow>
                         (Response 200 (insert_ack i), st1\<lparr>contributors := cs, next_oid := n'\<rparr>))
               else (Response 200 (insert_ack i), st1)))"

text \<open>
  \<open>GET /lessons/:id\<close>, lines 146-164: 404 when \<open>findOne\<close> returns null; otherwise the
  lesson with the author defaults, the number of lessons of that author and \<open>authorId\<close>.
\<close>

definition countDocuments :: "(doc \<Rightarrow> bool) \<Rightarrow> doc list \<Rightarrow> nat" where
  "countDocuments flt ds = length (filter flt ds)"

definition get_lesson_p002 :: "string \<Rightarrow> server \<Rightarrow> outcome" where
  "get_lesson_p002 lid st =
     (case ObjectId lid of
        None \<Rightarrow> Unhandled
      | Some i \<Rightarrow>
          (case findOne (by_id i) (lessons st) of
             None \<Rightarrow> Response 404 (VObj [(''message'', VStr ''Lesson not found'')])
           | Some lesson \<Rightarrow>
               (let author = js_or (field lesson ''author'') (VStr ''Anonymous'');
                    l1 = assign ''author'' author lesson;
                    l2 = assign ''authorAvatar''
                           (js_or (field l1 ''authorAvatar'') (VStr ''/images/default.jpg'')) l1;
                    authorLessonCount =
                      countDocuments (\<lambda>d. matches_eq (field d ''author'') author) (lessons st);
                    l3 = assign ''authorLessonCount'' (VNum (int authorLessonCount)) l2
                in Response 200 (VObj (assign ''authorId'' author l3)))))"

section \<open>The requests of src/unnamed/part_002 that change the store\<close>

text \<open>
  Every route of the revision that writes to the store; none of them is behind the
  guard, so \<open>req.tokenEmail\<close> is undefined. A run handles the requests one after the
  other, starting from the empty store.
\<close>

datatype request =
    PostLessons nat nat doc
  | PutLesson nat string doc
  | DeleteLesson string
  | PostCounter counter string
  | PostComment nat string doc
  | PostReply nat string string doc
  | PostCommentLike string string
  | PostContributors nat doc

fun step_p002 :: "request \<Rightarrow> server \<Rightarrow> server" where
  "step_p002 (PostLessons now now' body) st = snd (post_lessons_p002 now now' body st)"
| "step_p002 (PutLesson now lid body) st = snd (put_lesson now lid body st)"
| "step_p002 (DeleteLesson lid) st = snd (delete_lesson lid st)"
| "step_p002 (PostCounter c lid) st = snd (bump c lid st)"
| "step_p002 (PostComment now lid body) st = snd (post_comment now None lid body st)"
| "step_p002 (PostReply now lid cid body) st = snd (post_reply now None lid cid body st)"
| "step_p002 (PostCommentLike lid cid) st = snd (post_comment_like lid cid st)"
| "step_p002 (PostContributors now body) st = snd (post_contributors_p002 now body st)"

fun run_p002 :: "request list \<Rightarrow> server \<Rightarrow> server" where
  "run_p002 [] st = st"
| "run_p002 (r # rs) st = run_p002 rs (step_p002 r st)"

definition empty_store :: server where
  "empty_store = \<lparr>lessons = [], contributors = [], next_oid = 0\<rparr>"

text \<open>
  A well-formed lesson: the four counters are numbers that are not negative, and
  \<open>comments\<close> is an array of comments whose \<open>likes\<close> is such a number and whose
  \<open>replies\<close> is an array.
\<close>

definition counter_ok :: "doc \<Rightarrow> string \<Rightarrow> bool" where
  "counter_ok d k = (case field d k of Some (VNum n) \<Rightarrow> 0 \<le> n | _ \<Rightarrow> False)"

definition comment_ok :: "val \<Rightarrow> bool" where
  "comment_ok c =
     (case c of
        VObj fs \<Rightarrow>
          counter_ok fs ''likes'' \<and>
          (case field fs ''replies'' of Some (VArr rs) \<Rightarrow> True | _ \<Rightarrow> False)
      | _ \<Rightarrow> False)"

definition lesson_ok :: "doc \<Rightarrow> bool" where
  "lesson_ok d =
     (counter_ok d ''likes'' \<and> counter_ok d ''views'' \<and> counter_ok d ''saves''
      \<and> counter_ok d ''shares''
      \<and> (case field d ''comments'' of Some (VArr cs) \<Rightarrow> list_all comment_ok cs | _ \<Rightarrow> False))"

definition store_ok :: "server \<Rightarrow> bool" where
  "store_ok st = list_all lesson_ok (lessons st)"

text \<open>The value of a counter, and a lesson whose counters went up by at most one each.\<close>

definition counter_val :: "doc \<Rightarrow> string \<Rightarrow> int" where
  "counter_val d k = (case field d k of Some (VNum n) \<Rightarrow> n | _ \<Rightarrow> 0)"

definition grows :: "doc \<Rightarrow> doc \<Rightarrow> bool" where
  "grows d d' =
     (field d' ''_id'' = field d ''_id''
      \<and> list_all (\<lambda>k. counter_val d k \<le> counter_val d' k \<and> counter_val d' k \<le> counter_val d k + 1)
           [''likes'', ''views'', ''saves'', ''shares''])"

text \<open>A lesson as creation leaves it: the four counters are 0.\<close>

definition fresh_lesson :: "doc \<Rightarrow> bool" where
  "fresh_lesson d = list_all (\<lambda>k. field d k = Some (VNum 0)) [''likes'', ''views'', ''saves'', ''shares'']"

section \<open>Lemmas\<close>

subsection \<open>Documents and the store\<close>

lemma field_assign_same [simp]: "field (assign k v d) k = Some v"
  by (induction d) (auto simp: field_def)

lemma field_assign_other [simp]: "k' \<noteq> k \<Longrightarrow> field (assign k v d) k' = field d k'"
  by (induction d) (auto simp: field_def)

lemma amount_value: "amount = 1181"
  unfolding amount_def Math_round_def FIXED_BDT_PRICE_def USD_RATE_def
  by (rule floor_unique) simp_all

text \<open>
  The rounding is far from a boundary: every value within a quarter of the exact
  quotient (so the value double arithmetic computes, too) rounds to 1181.
\<close>

lemma Math_round_near:
  fixes x :: real
  assumes "\<bar>x - (1500 / 127) * 100\<bar> < 1 / 4"
  shows "Math_round x = 1181"
  unfolding Math_round_def
proof (rule floor_unique)
  from assms have b: "(1500 / 127) * 100 - 1 / 4 < x" "x < (1500 / 127) * 100 + 1 / 4"
    by linarith+
  from b(1) show "of_int 1181 \<le> x + 1 / 2" by simp
  from b(2) show "x + 1 / 2 < of_int 1181 + 1" by simp
qed

lemma ObjectId_zeros: "ObjectId ''000000000000000000000000'' = Some 0"
  by (simp add: ObjectId_def hex_digit_def)

subsection \<open>Counters\<close>

lemma findOne_Some: "findOne P ds = Some d \<Longrightarrow> P d \<and> d \<in> set ds"
  by (induction ds) (auto split: if_splits)

lemma updateOne_hit:
  "findOne flt ds = Some d \<Longrightarrow> upd d = Some d' \<Longrightarrow> flt d' \<Longrightarrow>
   \<exists>ls. updateOne flt upd ds = Some (1, ls) \<and> findOne flt ls = Some d'"
  by (induction ds) (auto split: if_splits)

lemma updateOne_hit_fails:
  "findOne flt ds = Some d \<Longrightarrow> upd d = None \<Longrightarrow> updateOne flt upd ds = None"
  by (induction ds) (auto split: if_splits)

lemma updateOne_miss:
  "findOne flt ds = None \<Longrightarrow> updateOne flt upd ds = Some (0, ds)"
  by (induction ds) (auto split: if_splits)

lemma updateOne_other:
  "updateOne flt upd ds = Some (m, ls) \<Longrightarrow>
   (\<And>e e'. flt e \<Longrightarrow> upd e = Some e' \<Longrightarrow> \<not> P e \<and> \<not> P e') \<Longrightarrow>
   findOne P ls = findOne P ds"
  by (induction ds arbitrary: m ls) (auto split: if_splits option.splits)

lemma inc_field_id:
  "k \<noteq> ''_id'' \<Longrightarrow> inc_field k d = Some d' \<Longrightarrow> field d' ''_id'' = field d ''_id''"
  by (auto simp: inc_field_def split: option.splits val.splits)

lemma inc_field_other:
  "k' \<noteq> k \<Longrightarrow> inc_field k d = Some d' \<Longrightarrow> field d' k' = field d k'"
  by (auto simp: inc_field_def split: option.splits val.splits)

lemma counter_field_not_id [simp]: "counter_field c \<noteq> ''_id''" "''_id'' \<noteq> counter_field c"
  by (cases c; simp)+

lemma counter_field_inj [simp]: "counter_field c = counter_field c' \<longleftrightarrow> c = c'"
  by (cases c; cases c') simp_all

lemma bump_lessons:
  "lessons (snd (bump c lid st)) =
     (case ObjectId lid of None \<Rightarrow> lessons st
      | Some j \<Rightarrow> (case updateOne (by_id j) (inc_field (counter_field c)) (lessons st) of
                    None \<Rightarrow> lessons st | Some (m, ls) \<Rightarrow> ls))"
  by (cases c)
     (auto simp: post_view_def post_like_def post_save_def post_share_p002_def post_counter_def
       post_share_def split: option.splits)

text \<open>One request of the sequence: the counter \<open>c\<close> of lesson \<open>i\<close> moves only when the
  request is for \<open>c\<close> and \<open>i\<close>, and then by one.\<close>

lemma bump_step:
  assumes "findOne (by_id i) (lessons st) = Some d" "field d (counter_field c) = Some (VNum n)"
  shows "\<exists>d'. findOne (by_id i) (lessons (snd (bump c' lid st))) = Some d'
     \<and> field d' (counter_field c) =
         Some (VNum (if c' = c \<and> ObjectId lid = Some i then n + 1 else n))"
proof (cases "ObjectId lid")
  case None
  with assms show ?thesis by (simp add: bump_lessons)
next
  case (Some j)
  have idd: "by_id i d" using findOne_Some [OF assms(1)] by simp
  show ?thesis
  proof (cases "j = i")
    case True
    show ?thesis
    proof (cases "inc_field (counter_field c') d")
      case None
      then have "c' \<noteq> c" using assms(2) by (auto simp: inc_field_def)
      with None assms Some True show ?thesis
        by (simp add: bump_lessons updateOne_hit_fails)
    next
      case (Some d')
      have "by_id i d'" using idd inc_field_id [OF _ Some] by (simp add: by_id_def)
      from updateOne_hit [of "by_id i" "lessons st" d "inc_field (counter_field c')" d',
          OF assms(1) Some this] obtain ls where
        ls: "updateOne (by_id i) (inc_field (counter_field c')) (lessons st) = Some (1, ls)"
          "findOne (by_id i) ls = Some d'" by blast
      have "field d' (counter_field c) = Some (VNum (if c' = c then n + 1 else n))"
      proof (cases "c' = c")
        case True
        with Some assms(2) show ?thesis by (auto simp: inc_field_def)
      next
        case False
        with inc_field_other [OF _ Some, of "counter_field c"] assms(2) show ?thesis by simp
      qed
      with ls \<open>ObjectId lid = Some j\<close> True show ?thesis
        by (simp add: bump_lessons)
    qed
  next
    case False
    show ?thesis
    proof (cases "updateOne (by_id j) (inc_field (counter_field c')) (lessons st)")
      case None
      with assms Some False show ?thesis by (simp add: bump_lessons)
    next
      case (Some r)
      obtain m ls where r: "r = (m, ls)" by (cases r)
      have "findOne (by_id i) ls = findOne (by_id i) (lessons st)"
      proof (rule updateOne_other [OF Some [unfolded r]])
        fix e e' assume "by_id j e" "inc_field (counter_field c') e = Some e'"
        then show "\<not> by_id i e \<and> \<not> by_id i e'"
          using False inc_field_id [of "counter_field c'" e e'] by (auto simp: by_id_def)
      qed
      with assms Some r \<open>ObjectId lid = Some j\<close> False show ?thesis
        by (simp add: bump_lessons)
    qed
  qed
qed

lemma bumps_counter:
  assumes "findOne (by_id i) (lessons st) = Some d" "field d (counter_field c) = Some (VNum n)"
  shows "\<exists>d'. findOne (by_id i) (lessons (bumps rs st)) = Some d'
     \<and> field d' (counter_field c) = Some (VNum (n + int (bumps_of c i rs)))"
  using assms
proof (induction rs arbitrary: st d n)
  case Nil
  then show ?case by (simp add: bumps_of_def)
next
  case (Cons r rs)
  obtain c' lid where r: "r = (c', lid)" by (cases r)
  from bump_step [OF Cons.prems, of c' lid] obtain d' where
    d': "findOne (by_id i) (lessons (snd (bump c' lid st))) = Some d'"
        "field d' (counter_field c) = Some (VNum (if c' = c \<and> ObjectId lid = Some i then n + 1 else n))"
    by blast
  from Cons.IH [OF d'] show ?case
    by (auto simp: r bumps_of_def)
qed

lemma bumps_of_mset: "mset rs' = mset rs \<Longrightarrow> bumps_of c i rs' = bumps_of c i rs"
proof -
  assume "mset rs' = mset rs"
  then have "mset (filter (\<lambda>(c', lid). c' = c \<and> ObjectId lid = Some i) rs')
           = mset (filter (\<lambda>(c', lid). c' = c \<and> ObjectId lid = Some i) rs)"
    by simp
  then show ?thesis
    unfolding bumps_of_def by (rule mset_eq_length)
qed

lemma bump_response:
  assumes "ObjectId lid = Some i" "findOne (by_id i) (lessons st) = Some d"
    "field d (counter_field c) = Some (VNum n)"
  shows "fst (bump c lid st) = Response 200 (VObj [(''success'', VBool True)])"
proof -
  have "by_id i (assign (counter_field c) (VNum (n + 1)) d)"
    using findOne_Some [OF assms(2)] by (simp add: by_id_def)
  from updateOne_hit [of "by_id i" "lessons st" d "inc_field (counter_field c)", OF assms(2) _ this]
  obtain ls where "updateOne (by_id i) (inc_field (counter_field c)) (lessons st) = Some (1, ls)"
    using assms(3) by (auto simp: inc_field_def)
  with assms(1) show ?thesis
    by (cases c)
       (simp_all add: post_view_def post_like_def post_save_def post_share_p002_def
         post_counter_def post_share_def)
qed

lemma post_share_index_eq:
  "post_share_index lid st =
     (if fst (post_share_p002 lid st) = Response 200 (VObj [(''success'', VBool True)])
      then Response 200 (VObj [(''success'', VBool True), (''message'', VStr ''Lesson shared!'')])
      else fst (post_share_p002 lid st),
      snd (post_share_p002 lid st))"
  by (simp add: post_share_index_def post_share_p002_def post_share_def split: option.splits)

subsection \<open>Comment append\<close>

lemma set_assign: "set (assign k v d) \<subseteq> insert (k, v) (set d)"
  by (induction d) (auto split: if_splits)

lemma oids_assign: "oids (VObj (assign k v d)) \<subseteq> oids (VObj d) \<union> oids v"
  using set_assign [of k v d] by fastforce

lemma oids_field: "field d k = Some v \<Longrightarrow> oids v \<subseteq> oids (VObj d)"
  by (induction d) (auto simp: field_def split: if_splits)

lemma push_field_oids:
  "push_field k v d = Some d' \<Longrightarrow> oids (VObj d') \<subseteq> oids (VObj d) \<union> oids v"
proof -
  assume a: "push_field k v d = Some d'"
  show ?thesis
  proof (cases "field d k")
    case None
    with a oids_assign [of k "VArr [v]" d] show ?thesis by (auto simp: push_field_def)
  next
    case (Some w)
    with a obtain xs where w: "w = VArr xs" and d': "d' = assign k (VArr (xs @ [v])) d"
      by (auto simp: push_field_def split: val.splits)
    from oids_field [OF Some] w have "oids (VArr xs) \<subseteq> oids (VObj d)" by simp
    with oids_assign [of k "VArr (xs @ [v])" d] d' show ?thesis by auto
  qed
qed

lemma updateOne_set:
  "updateOne flt upd ds = Some (m, ls) \<Longrightarrow> e' \<in> set ls \<Longrightarrow>
   e' \<in> set ds \<or> (\<exists>e \<in> set ds. flt e \<and> upd e = Some e')"
  by (induction ds arbitrary: m ls) (auto split: if_splits option.splits)

lemma push_field_pushable:
  "comments_pushable d \<Longrightarrow>
   push_field ''comments'' v d = Some (assign ''comments'' (VArr (comments_of d @ [v])) d)"
  by (auto simp: comments_pushable_def comments_of_def push_field_def split: option.splits val.splits)

lemma newComment_fields:
  "truthy t \<Longrightarrow>
     field (to_json (newComment i u t now)) ''_id'' = Some i
   \<and> field (to_json (newComment i u t now)) ''text'' = t
   \<and> field (to_json (newComment i u t now)) ''likes'' = Some (VNum 0)
   \<and> field (to_json (newComment i u t now)) ''replies'' = Some (VArr [])
   \<and> field (to_json (newComment i u t now)) ''createdAt'' = Some (VDate now)"
  by (cases u; cases t) (simp_all add: newComment_def field_def)

lemma post_comment_rejects:
  "\<not> truthy (field body ''text'') \<Longrightarrow>
   post_comment now u lid body st =
     (Response 400 (VObj [(''message'', VStr ''Comment text required'')]), st)"
  by (simp add: post_comment_def)

lemma post_comment_accepts:
  assumes "truthy (field body ''text'')" "ObjectId lid = Some i"
    and "\<forall>d. findOne (by_id i) (lessons st) = Some d \<longrightarrow> comments_pushable d"
  shows "\<exists>ls. post_comment now u lid body st =
       (Response 200 (VObj (to_json (newComment (VOid (next_oid st)) u (field body ''text'') now))),
        st\<lparr>next_oid := Suc (next_oid st), lessons := ls\<rparr>)
     \<and> (case findOne (by_id i) (lessons st) of
          None \<Rightarrow> ls = lessons st
        | Some d \<Rightarrow> findOne (by_id i) ls = Some (assign ''comments'' (VArr (comments_of d @
            [VObj (to_bson (newComment (VOid (next_oid st)) u (field body ''text'') now))])) d))"
proof (cases "findOne (by_id i) (lessons st)")
  case None
  from updateOne_miss [OF this] assms(1,2) None show ?thesis
    by (simp add: post_comment_def Let_def)
next
  case (Some d)
  let ?c = "VObj (to_bson (newComment (VOid (next_oid st)) u (field body ''text'') now))"
  have p: "push_field ''comments'' ?c d = Some (assign ''comments'' (VArr (comments_of d @ [?c])) d)"
    using assms(3) Some push_field_pushable by blast
  have "by_id i (assign ''comments'' (VArr (comments_of d @ [?c])) d)"
    using findOne_Some [OF Some] by (simp add: by_id_def)
  from updateOne_hit [of "by_id i" "lessons st" d "push_field ''comments'' ?c", OF Some p this]
  obtain ls where "updateOne (by_id i) (push_field ''comments'' ?c) (lessons st) = Some (1, ls)"
    "findOne (by_id i) ls = Some (assign ''comments'' (VArr (comments_of d @ [?c])) d)"
    by blast
  with assms(1,2) Some show ?thesis
    by (intro exI [of _ ls]) (simp add: post_comment_def Let_def)
qed

lemma comments_of_assign [simp]: "comments_of (assign ''comments'' (VArr cs) d) = cs"
  by (simp add: comments_of_def)

subsection \<open>Shape of an update\<close>

lemma updateOne_cases:
  "updateOne flt upd ds = Some (m, ls) \<Longrightarrow>
     (m = 0 \<and> ls = ds \<and> (\<forall>e \<in> set ds. \<not> flt e))
   \<or> (\<exists>pre d post d'. ds = pre @ d # post \<and> (\<forall>e \<in> set pre. \<not> flt e) \<and> flt d
         \<and> upd d = Some d' \<and> ls = pre @ d' # post \<and> m = 1)"
proof (induction ds arbitrary: m ls)
  case Nil
  then show ?case by simp
next
  case (Cons a ds)
  show ?case
  proof (cases "flt a")
    case True
    with Cons.prems obtain a' where "upd a = Some a'" "ls = a' # ds" "m = 1"
      by (auto split: option.splits)
    with True have "a # ds = [] @ a # ds \<and> (\<forall>e \<in> set []. \<not> flt e) \<and> flt a
         \<and> upd a = Some a' \<and> ls = [] @ a' # ds \<and> m = 1" by simp
    then show ?thesis by blast
  next
    case False
    with Cons.prems obtain ls' where u: "updateOne flt upd ds = Some (m, ls')" and ls: "ls = a # ls'"
      by (auto split: option.splits)
    from Cons.IH [OF u] show ?thesis
    proof
      assume "m = 0 \<and> ls' = ds \<and> (\<forall>e \<in> set ds. \<not> flt e)"
      with False ls show ?thesis by simp
    next
      assume "\<exists>pre d post d'. ds = pre @ d # post \<and> (\<forall>e \<in> set pre. \<not> flt e) \<and> flt d
         \<and> upd d = Some d' \<and> ls' = pre @ d' # post \<and> m = 1"
      then obtain pre d post d' where "ds = pre @ d # post" "\<forall>e \<in> set pre. \<not> flt e" "flt d"
         "upd d = Some d'" "ls' = pre @ d' # post" "m = 1" by blast
      with False ls have "a # ds = (a # pre) @ d # post \<and> (\<forall>e \<in> set (a # pre). \<not> flt e) \<and> flt d
         \<and> upd d = Some d' \<and> ls = (a # pre) @ d' # post \<and> m = 1" by simp
      then show ?thesis by blast
    qed
  qed
qed

lemma update_first_elem_cases:
  "update_first_elem P f cs = Some cs' \<Longrightarrow>
   \<exists>cpre fs cpost fs'. cs = cpre @ VObj fs # cpost \<and> (\<forall>e \<in> set cpre. \<not> P e) \<and> P (VObj fs)
      \<and> f fs = Some fs' \<and> cs' = cpre @ VObj fs' # cpost"
proof (induction cs arbitrary: cs')
  case Nil
  then show ?case by simp
next
  case (Cons a cs)
  show ?case
  proof (cases "P a")
    case True
    with Cons.prems obtain fs fs' where "a = VObj fs" "f fs = Some fs'" "cs' = VObj fs' # cs"
      by (auto split: val.splits)
    with True have "a # cs = [] @ VObj fs # cs \<and> (\<forall>e \<in> set []. \<not> P e) \<and> P (VObj fs)
      \<and> f fs = Some fs' \<and> cs' = [] @ VObj fs' # cs" by simp
    then show ?thesis by blast
  next
    case False
    with Cons.prems obtain cs'' where u: "update_first_elem P f cs = Some cs''" and c: "cs' = a # cs''"
      by auto
    from Cons.IH [OF u] obtain cpre fs cpost fs' where
      "cs = cpre @ VObj fs # cpost" "\<forall>e \<in> set cpre. \<not> P e" "P (VObj fs)"
      "f fs = Some fs'" "cs'' = cpre @ VObj fs' # cpost" by blast
    with False c have "a # cs = (a # cpre) @ VObj fs # cpost \<and> (\<forall>e \<in> set (a # cpre). \<not> P e)
      \<and> P (VObj fs) \<and> f fs = Some fs' \<and> cs' = (a # cpre) @ VObj fs' # cpost" by simp
    then show ?thesis by blast
  qed
qed

lemma positional_cases:
  "positional c f d = Some d' \<Longrightarrow>
   \<exists>cpre fs cpost fs'. field d ''comments'' = Some (VArr (cpre @ VObj fs # cpost))
      \<and> (\<forall>e \<in> set cpre. \<not> elem_matches c e) \<and> field fs ''_id'' = Some (VOid c)
      \<and> f fs = Some fs' \<and> d' = assign ''comments'' (VArr (cpre @ VObj fs' # cpost)) d"
proof -
  assume a: "positional c f d = Some d'"
  then obtain cs cs' where cs: "field d ''comments'' = Some (VArr cs)"
    and u: "update_first_elem (elem_matches c) f cs = Some cs'"
    and d': "d' = assign ''comments'' (VArr cs') d"
    by (auto simp: positional_def split: option.splits val.splits)
  from update_first_elem_cases [OF u] obtain cpre fs cpost fs' where
    "cs = cpre @ VObj fs # cpost" "\<forall>e \<in> set cpre. \<not> elem_matches c e" "elem_matches c (VObj fs)"
    "f fs = Some fs'" "cs' = cpre @ VObj fs' # cpost" by blast
  with cs d' show ?thesis
    by (auto simp: elem_matches_def)
qed

lemma push_field_cases:
  "push_field k v fs = Some fs' \<Longrightarrow>
   \<exists>rs. (field fs k = Some (VArr rs) \<or> field fs k = None \<and> rs = [])
      \<and> fs' = assign k (VArr (rs @ [v])) fs"
  by (auto simp: push_field_def split: option.splits val.splits)


lemma post_reply_cases:
  assumes "post_reply now u lid cid body st = (out, st')"
  shows "contributors st' = contributors st
   \<and> (lessons st' = lessons st
      \<or> (\<exists>i c m. ObjectId lid = Some i \<and> ObjectId cid = Some c
           \<and> out = Response 200 (VObj (to_json (newReply (VOid (next_oid st)) u (field body ''text'') now)))
           \<and> updateOne (\<lambda>d. by_id i d \<and> comments_match c d)
                (positional c (push_field ''replies''
                   (VObj (to_bson (newReply (VOid (next_oid st)) u (field body ''text'') now)))))
                (lessons st) = Some (m, lessons st')))"
  using assms
  by (auto simp: post_reply_def Let_def split: if_splits option.splits)

lemma verifyJWT_cases:
  assumes "verifyJWT v a next st = (out, st')"
  shows "st' = st \<or> (\<exists>email. next email st = (out, st'))"
  using assms
  by (auto simp: verifyJWT_def split: option.splits if_splits sum.splits)

lemma ObjectId_two: "ObjectId ''000000000000000000000002'' = Some 2"
  by (simp add: ObjectId_def hex_digit_def)

lemma bearer_token_example: "bearer_token (Some ''Bearer tok'') = Some ''tok''"
  by (simp add: bearer_token_def)

subsection \<open>Lesson update\<close>

lemma findOne_split:
  "findOne P ds = Some d \<Longrightarrow> \<exists>pre post. ds = pre @ d # post \<and> (\<forall>e \<in> set pre. \<not> P e) \<and> P d"
proof (induction ds)
  case Nil
  then show ?case by simp
next
  case (Cons a ds)
  show ?case
  proof (cases "P a")
    case True
    with Cons.prems have "a # ds = [] @ d # ds \<and> (\<forall>e \<in> set []. \<not> P e) \<and> P d" by simp
    then show ?thesis by blast
  next
    case False
    with Cons obtain pre post where "ds = pre @ d # post" "\<forall>e \<in> set pre. \<not> P e" "P d" by auto
    with False have "a # ds = (a # pre) @ d # post \<and> (\<forall>e \<in> set (a # pre). \<not> P e) \<and> P d" by simp
    then show ?thesis by blast
  qed
qed

lemma updateOne_split:
  "\<forall>e \<in> set pre. \<not> flt e \<Longrightarrow> flt d \<Longrightarrow>
   updateOne flt upd (pre @ d # post) =
     (case upd d of None \<Rightarrow> None | Some d' \<Rightarrow> Some (1, pre @ d' # post))"
  by (induction pre) (auto split: option.splits)

lemma put_lesson_miss:
  "ObjectId lid = Some i \<Longrightarrow> findOne (by_id i) (lessons st) = None \<Longrightarrow>
   put_lesson now lid body st = (Response 404 (VObj [(''message'', VStr ''Lesson not found'')]), st)"
  by (simp add: put_lesson_def updateOne_miss)

lemma set_fields_put:
  "set_fields (to_bson [(''title'', t), (''content'', c), (''image'', m), (''updatedAt'', Some (VDate now))]) d
   = Some (assign ''updatedAt'' (VDate now)
       (assign ''image'' (case m of None \<Rightarrow> VNull | Some v \<Rightarrow> v)
         (assign ''content'' (case c of None \<Rightarrow> VNull | Some v \<Rightarrow> v)
           (assign ''title'' (case t of None \<Rightarrow> VNull | Some v \<Rightarrow> v) d))))"
  by (cases t; cases c; cases m) (simp_all add: set_fields_def)

lemma put_lesson_hit:
  assumes "ObjectId lid = Some i" "findOne (by_id i) (lessons st) = Some d"
  shows "\<exists>pre post. lessons st = pre @ d # post
     \<and> put_lesson now lid body st =
         (Response 200 (VObj [(''message'', VStr ''Lesson updated successfully'')]),
          st\<lparr>lessons := pre @ assign ''updatedAt'' (VDate now)
       (assign ''image'' (case field body ''image'' of None \<Rightarrow> VNull | Some v \<Rightarrow> v)
         (assign ''content'' (case field body ''content'' of None \<Rightarrow> VNull | Some v \<Rightarrow> v)
           (assign ''title'' (case field body ''title'' of None \<Rightarrow> VNull | Some v \<Rightarrow> v) d))) # post\<rparr>)"
proof -
  from findOne_split [OF assms(2)] obtain pre post where
    s: "lessons st = pre @ d # post" "\<forall>e \<in> set pre. \<not> by_id i e" "by_id i d" by blast
  show ?thesis
    using assms(1) s(1) updateOne_split [OF s(2,3), of _ post]
    by (intro exI [of _ pre] exI [of _ post]) (simp add: put_lesson_def set_fields_put)
qed

subsection \<open>Contributors\<close>

lemma insertOne_appends:
  "insertOne d coll n = Some (i, coll', n') \<Longrightarrow>
   \<exists>c. coll' = coll @ [c] \<and> (\<forall>k. k \<noteq> ''_id'' \<longrightarrow> field c k = field d k)"
  by (auto simp: insertOne_def split: option.splits val.splits if_splits)

lemma js_or_num [simp]: "js_or (Some (VNum n)) (VNum 0) = VNum n"
  by simp

lemma insertOne_generates:
  "field d ''_id'' = None \<or> field d ''_id'' = Some VNull \<Longrightarrow>
   insertOne d coll n = Some (VOid n, coll @ [assign ''_id'' (VOid n) d], Suc n)"
  by (auto simp: insertOne_def)

lemma insertOne_rejects:
  "(\<exists>xs. field d ''_id'' = Some (VArr xs))
   \<or> (\<exists>v. field d ''_id'' = Some v \<and> v \<noteq> VNull \<and> (\<exists>e \<in> set coll. field e ''_id'' = Some v)) \<Longrightarrow>
   insertOne d coll n = None"
  by (auto simp: insertOne_def list_ex_iff split: val.splits)

lemma insertOne_keeps:
  "field d ''_id'' = Some v \<Longrightarrow> v \<noteq> VNull \<Longrightarrow> \<forall>xs. v \<noteq> VArr xs \<Longrightarrow>
   \<forall>e \<in> set coll. field e ''_id'' \<noteq> Some v \<Longrightarrow>
   insertOne d coll n = Some (v, coll @ [d], n)"
  by (cases v) (auto simp: insertOne_def list_ex_iff)

lemma post_contributors_frame:
  "post_contributors default_avatar now body (st\<lparr>lessons := ls\<rparr>)
     = (fst (post_contributors default_avatar now body st),
        (snd (post_contributors default_avatar now body st))\<lparr>lessons := ls\<rparr>)"
  by (simp add: post_contributors_def Let_def split: option.splits)

subsection \<open>Creation and retrieval in src/unnamed/part_002\<close>

lemma lessonData_p002_fields:
  "field (lessonData_p002 now body) ''likes'' = Some (VNum 0)
   \<and> field (lessonData_p002 now body) ''views'' = Some (VNum 0)
   \<and> field (lessonData_p002 now body) ''saves'' = Some (VNum 0)
   \<and> field (lessonData_p002 now body) ''shares'' = Some (VNum 0)
   \<and> field (lessonData_p002 now body) ''comments'' = Some (VArr [])
   \<and> field (lessonData_p002 now body) ''createdAt'' = Some (VDate now)"
  by (simp add: lessonData_p002_def Let_def)

lemma post_lessons_p002_lessons:
  "lessons (snd (post_lessons_p002 now now' body st)) =
     (case insertOne (lessonData_p002 now body) (lessons st) (next_oid st) of
        None \<Rightarrow> lessons st | Some (i, ls, n) \<Rightarrow> ls)"
  by (simp add: post_lessons_p002_def Let_def split: option.splits)

text \<open>
  The sibling revision src/unnamed/part_002 does what C1 and C3 say: a lesson it stores
  has the four counters at 0 and no comments, reading it back under its generated
  identifier returns these values, and reading an identifier that matches no lesson is
  a 404, never a 200 with a null body.
\<close>

lemma post_lessons_p002_counters_zero:
  assumes "lessons (snd (post_lessons_p002 now now' body st)) \<noteq> lessons st"
  shows "\<exists>l. lessons (snd (post_lessons_p002 now now' body st)) = lessons st @ [l]
     \<and> field l ''likes'' = Some (VNum 0) \<and> field l ''views'' = Some (VNum 0)
     \<and> field l ''saves'' = Some (VNum 0) \<and> field l ''shares'' = Some (VNum 0)
     \<and> field l ''comments'' = Some (VArr [])"
proof -
  from assms obtain i ls n where
    ins: "insertOne (lessonData_p002 now body) (lessons st) (next_oid st) = Some (i, ls, n)"
    and ls: "lessons (snd (post_lessons_p002 now now' body st)) = ls"
    by (auto simp: post_lessons_p002_lessons split: option.splits)
  from insertOne_appends [OF ins] obtain l where
    l: "ls = lessons st @ [l]" "\<forall>k. k \<noteq> ''_id'' \<longrightarrow> field l k = field (lessonData_p002 now body) k"
    by blast
  show ?thesis
    using l ls lessonData_p002_fields [of now body]
    by (intro exI [of _ l]) simp
qed

lemma findOne_append_new:
  "\<forall>e \<in> set ds. \<not> P e \<Longrightarrow> P d \<Longrightarrow> findOne P (ds @ [d]) = Some d"
  by (induction ds) auto

lemma post_lessons_p002_round_trip:
  assumes "field body ''_id'' = None \<or> field body ''_id'' = Some VNull"
    and "list_all (generated_id (next_oid st)) (lessons st)"
    and "ObjectId lid = Some (next_oid st)"
  shows "\<exists>r. get_lesson_p002 lid (snd (post_lessons_p002 now now' body st)) = Response 200 (VObj r)
     \<and> field r ''likes'' = Some (VNum 0) \<and> field r ''views'' = Some (VNum 0)
     \<and> field r ''saves'' = Some (VNum 0) \<and> field r ''shares'' = Some (VNum 0)
     \<and> field r ''comments'' = Some (VArr [])"
proof -
  let ?d = "lessonData_p002 now body"
  let ?l = "assign ''_id'' (VOid (next_oid st)) ?d"
  have idf: "field ?d ''_id'' = field body ''_id''"
    by (simp add: lessonData_p002_def Let_def)
  with assms(1) have ins: "insertOne ?d (lessons st) (next_oid st)
      = Some (VOid (next_oid st), lessons st @ [?l], Suc (next_oid st))"
    by (auto simp: insertOne_def)
  then have ls: "lessons (snd (post_lessons_p002 now now' body st)) = lessons st @ [?l]"
    by (simp add: post_lessons_p002_lessons)
  have "\<forall>e \<in> set (lessons st). \<not> by_id (next_oid st) e"
    using assms(2) by (auto simp: list_all_iff generated_id_def by_id_def)
  then have f: "findOne (by_id (next_oid st)) (lessons (snd (post_lessons_p002 now now' body st))) = Some ?l"
    unfolding ls by (rule findOne_append_new) (simp add: by_id_def)
  let ?st' = "snd (post_lessons_p002 now now' body st)"
  let ?a = "js_or (field ?l ''author'') (VStr ''Anonymous'')"
  let ?r = "assign ''authorId'' ?a
     (assign ''authorLessonCount''
        (VNum (int (countDocuments (\<lambda>d. matches_eq (field d ''author'') ?a) (lessons ?st'))))
        (assign ''authorAvatar''
           (js_or (field (assign ''author'' ?a ?l) ''authorAvatar'') (VStr ''/images/default.jpg''))
           (assign ''author'' ?a ?l)))"
  have g: "get_lesson_p002 lid ?st' = Response 200 (VObj ?r)"
    using assms(3) f by (simp add: get_lesson_p002_def Let_def)
  have "field ?r ''likes'' = Some (VNum 0) \<and> field ?r ''views'' = Some (VNum 0)
     \<and> field ?r ''saves'' = Some (VNum 0) \<and> field ?r ''shares'' = Some (VNum 0)
     \<and> field ?r ''comments'' = Some (VArr [])"
    using lessonData_p002_fields [of now body] by simp
  with g show ?thesis by blast
qed

lemma get_lesson_p002_missing:
  "get_lesson_p002 lid st \<noteq> Response 200 VNull
   \<and> (ObjectId lid = Some i \<and> findOne (by_id i) (lessons st) = None \<longrightarrow>
        get_lesson_p002 lid st = Response 404 (VObj [(''message'', VStr ''Lesson not found'')]))"
  by (simp add: get_lesson_p002_def Let_def split: option.splits)

subsection \<open>The store of src/unnamed/part_002 over a run\<close>

text \<open>
  In the revision that sets all four counters at creation, every lesson of every store
  a run reaches has counters that are numbers and not negative, and comments whose
  likes are such numbers.
\<close>

lemma updateOne_list_all:
  "updateOne flt upd ds = Some (m, ls) \<Longrightarrow> list_all P ds \<Longrightarrow>
   (\<And>e e'. P e \<Longrightarrow> upd e = Some e' \<Longrightarrow> P e') \<Longrightarrow> list_all P ls"
  by (induction ds arbitrary: m ls) (auto split: if_splits option.splits)

lemma deleteOne_list_all:
  "deleteOne flt ds = (n, ls) \<Longrightarrow> list_all P ds \<Longrightarrow> list_all P ls"
  by (induction ds arbitrary: n ls) (auto split: prod.splits if_splits)

lemma counter_ok_assign_other [simp]:
  "k' \<noteq> k \<Longrightarrow> counter_ok (assign k v d) k' = counter_ok d k'"
  by (simp add: counter_ok_def)

lemma counter_ok_assign_same [simp]:
  "counter_ok (assign k (VNum n) d) k = (0 \<le> n)"
  by (simp add: counter_ok_def)

lemma counter_ok_inc:
  "counter_ok d k' \<Longrightarrow> inc_field k d = Some d' \<Longrightarrow> counter_ok d' k'"
  by (cases "k' = k") (auto simp: inc_field_def counter_ok_def split: option.splits val.splits)

lemma lesson_ok_inc:
  "lesson_ok d \<Longrightarrow> inc_field (counter_field c) d = Some d' \<Longrightarrow> lesson_ok d'"
proof -
  assume a: "lesson_ok d" "inc_field (counter_field c) d = Some d'"
  have "field d' ''comments'' = field d ''comments''"
    by (rule inc_field_other [OF _ a(2)]) (cases c; simp)
  with a show ?thesis
    by (auto simp: lesson_ok_def counter_ok_inc)
qed

lemma comment_ok_new: "comment_ok (VObj (to_bson (newComment i u t now)))"
  by (cases u; cases t) (simp_all add: comment_ok_def newComment_def counter_ok_def field_def)

lemma lesson_ok_push_comment:
  "lesson_ok d \<Longrightarrow> comment_ok c \<Longrightarrow> push_field ''comments'' c d = Some d' \<Longrightarrow> lesson_ok d'"
  by (auto simp: lesson_ok_def push_field_def split: option.splits val.splits)

lemma lesson_ok_positional:
  assumes "lesson_ok d" "positional c f d = Some d'"
    and "\<And>fs fs'. comment_ok (VObj fs) \<Longrightarrow> f fs = Some fs' \<Longrightarrow> comment_ok (VObj fs')"
  shows "lesson_ok d'"
proof -
  from positional_cases [OF assms(2)] obtain cpre fs cpost fs' where
    p: "field d ''comments'' = Some (VArr (cpre @ VObj fs # cpost))" "f fs = Some fs'"
       "d' = assign ''comments'' (VArr (cpre @ VObj fs' # cpost)) d" by blast
  from assms(1) p(1) have "list_all comment_ok (cpre @ VObj fs # cpost)"
    by (simp add: lesson_ok_def)
  with assms(3) [OF _ p(2)] have "list_all comment_ok (cpre @ VObj fs' # cpost)"
    by simp
  with assms(1) p(3) show ?thesis
    by (simp add: lesson_ok_def)
qed

lemma comment_ok_push_reply:
  "comment_ok (VObj fs) \<Longrightarrow> push_field ''replies'' r fs = Some fs' \<Longrightarrow> comment_ok (VObj fs')"
  by (auto simp: comment_ok_def push_field_def split: option.splits val.splits)

lemma comment_ok_inc_likes:
  "comment_ok (VObj fs) \<Longrightarrow> inc_field ''likes'' fs = Some fs' \<Longrightarrow> comment_ok (VObj fs')"
  by (auto simp: comment_ok_def inc_field_def counter_ok_def split: option.splits val.splits)

lemma lesson_ok_set_fields:
  "lesson_ok d \<Longrightarrow>
   set_fields (to_bson [(''title'', t), (''content'', c), (''image'', m), (''updatedAt'', Some (VDate now))]) d
     = Some d' \<Longrightarrow> lesson_ok d'"
  by (auto simp: set_fields_put lesson_ok_def)

lemma lesson_ok_new: "lesson_ok (lessonData_p002 now body)"
  by (simp add: lesson_ok_def lessonData_p002_def Let_def)

lemma lesson_ok_assign_id: "lesson_ok d \<Longrightarrow> lesson_ok (assign ''_id'' v d)"
  by (simp add: lesson_ok_def)

lemma insertOne_list_all:
  "insertOne d coll n = Some (i, coll', n') \<Longrightarrow> list_all P coll \<Longrightarrow> P d \<Longrightarrow>
   (\<And>v. P d \<Longrightarrow> P (assign ''_id'' v d)) \<Longrightarrow> list_all P coll'"
  by (auto simp: insertOne_def split: option.splits val.splits if_splits)

lemma step_p002_store_ok:
  assumes "store_ok st"
  shows "store_ok (step_p002 r st)"
proof (cases r)
  case (PostLessons now now' body)
  show ?thesis
  proof (cases "insertOne (lessonData_p002 now body) (lessons st) (next_oid st)")
    case None
    with assms PostLessons show ?thesis
      by (simp add: store_ok_def post_lessons_p002_lessons)
  next
    case (Some x)
    obtain i ls n where x: "x = (i, ls, n)" by (cases x)
    from insertOne_list_all [OF Some [unfolded x], of lesson_ok] assms
    have "list_all lesson_ok ls"
      by (simp add: store_ok_def lesson_ok_new lesson_ok_assign_id)
    with Some x PostLessons show ?thesis
      by (simp add: store_ok_def post_lessons_p002_lessons)
  qed
next
  case (PutLesson now lid body)
  with assms show ?thesis
    by (auto simp: store_ok_def put_lesson_def split: option.splits
        elim!: updateOne_list_all lesson_ok_set_fields)
next
  case (DeleteLesson lid)
  with assms show ?thesis
    by (auto simp: store_ok_def delete_lesson_def split: option.splits prod.splits
        elim!: deleteOne_list_all)
next
  case (PostCounter c lid)
  with assms show ?thesis
    by (auto simp: store_ok_def bump_lessons split: option.splits
        elim!: updateOne_list_all lesson_ok_inc)
next
  case (PostComment now lid body)
  with assms show ?thesis
    by (auto simp: store_ok_def post_comment_def Let_def split: option.splits
        elim!: updateOne_list_all lesson_ok_push_comment [OF _ comment_ok_new])
next
  case (PostReply now lid cid body)
  with assms show ?thesis
    by (auto simp: store_ok_def post_reply_def Let_def split: option.splits
        elim!: updateOne_list_all lesson_ok_positional comment_ok_push_reply)
next
  case (PostCommentLike lid cid)
  with assms show ?thesis
    by (auto simp: store_ok_def post_comment_like_def split: option.splits
        elim!: updateOne_list_all lesson_ok_positional comment_ok_inc_likes)
next
  case (PostContributors now body)
  with assms show ?thesis
    by (auto simp: store_ok_def post_contributors_p002_def post_contributors_def Let_def
        split: option.splits)
qed

lemma run_p002_store_ok: "store_ok st \<Longrightarrow> store_ok (run_p002 rs st)"
  by (induction rs arbitrary: st) (auto simp: step_p002_store_ok)

lemma reachable_p002_store_ok: "store_ok (run_p002 rs empty_store)"
  by (rule run_p002_store_ok) (simp add: store_ok_def empty_store_def)


text \<open>
  One request never lowers a counter and raises it by at most one: every lesson of the
  new store is a lesson of the old one with counters grown by 0 or 1, or the lesson
  the request created, whose counters are 0.
\<close>

lemma field_assign_other': "k \<noteq> k' \<Longrightarrow> field (assign k v d) k' = field d k'"
  by (induction d) (auto simp: field_def)

lemma grows_refl [simp]: "grows d d"
  by (simp add: grows_def)

lemma grows_self: "d' \<in> set ds \<Longrightarrow> \<exists>d \<in> set ds. grows d d'"
  using grows_refl by blast

lemma grows_assign:
  "k \<notin> {''_id'', ''likes'', ''views'', ''saves'', ''shares''} \<Longrightarrow> grows d (assign k v d)"
  by (simp add: grows_def counter_val_def field_assign_other')

lemma inc_field_cases:
  "inc_field k d = Some d' \<Longrightarrow>
   (field d k = None \<and> d' = assign k (VNum 1) d)
   \<or> (\<exists>n. field d k = Some (VNum n) \<and> d' = assign k (VNum (n + 1)) d)"
  by (cases "field d k") (auto simp: inc_field_def split: val.splits)

lemma counter_val_inc:
  assumes "inc_field k d = Some d'"
  shows "counter_val d' k' = (if k' = k then counter_val d k + 1 else counter_val d k')"
proof -
  from inc_field_cases [OF assms] show ?thesis
  proof (elim disjE exE conjE)
    assume "field d k = None" "d' = assign k (VNum 1) d"
    then show ?thesis by (simp add: counter_val_def)
  next
    fix n assume "field d k = Some (VNum n)" "d' = assign k (VNum (n + 1)) d"
    then show ?thesis by (simp add: counter_val_def)
  qed
qed

lemma grows_inc: "inc_field (counter_field c) d = Some d' \<Longrightarrow> grows d d'"
  using inc_field_id [of "counter_field c" d d']
  by (simp add: grows_def counter_val_inc)

lemma grows_push_comment: "push_field ''comments'' c d = Some d' \<Longrightarrow> grows d d'"
  by (auto simp: push_field_def grows_assign split: option.splits val.splits)

lemma grows_positional: "positional c f d = Some d' \<Longrightarrow> grows d d'"
  by (auto simp: positional_def grows_assign split: option.splits val.splits)

lemma grows_set_fields:
  "set_fields (to_bson [(''title'', t), (''content'', c), (''image'', m), (''updatedAt'', Some (VDate now))]) d
     = Some d' \<Longrightarrow> grows d d'"
  by (auto simp: set_fields_put grows_def counter_val_def)

lemma deleteOne_set: "deleteOne flt ds = (n, ls) \<Longrightarrow> set ls \<subseteq> set ds"
  by (induction ds arbitrary: n ls) (auto split: prod.splits if_splits)

lemma updateOne_grows:
  assumes "updateOne flt upd ds = Some (m, ls)" "\<And>e e'. upd e = Some e' \<Longrightarrow> grows e e'"
    and "d' \<in> set ls"
  shows "\<exists>d \<in> set ds. grows d d'"
  using updateOne_set [OF assms(1,3)] assms(2) grows_refl by blast

lemma put_lesson_lessons:
  "lessons (snd (put_lesson now lid body st)) = lessons st
   \<or> (\<exists>i m. updateOne (by_id i)
         (set_fields (to_bson [(''title'', field body ''title''), (''content'', field body ''content''),
                               (''image'', field body ''image''), (''updatedAt'', Some (VDate now))]))
         (lessons st) = Some (m, lessons (snd (put_lesson now lid body st))))"
  by (simp add: put_lesson_def split: option.splits) blast

lemma delete_lesson_lessons:
  "set (lessons (snd (delete_lesson lid st))) \<subseteq> set (lessons st)"
proof (cases "ObjectId lid")
  case None
  then show ?thesis by (simp add: delete_lesson_def)
next
  case (Some i)
  obtain n ls where d: "deleteOne (by_id i) (lessons st) = (n, ls)"
    by (cases "deleteOne (by_id i) (lessons st)")
  from deleteOne_set [OF d] Some d show ?thesis
    by (simp add: delete_lesson_def)
qed

lemma post_comment_lessons:
  "lessons (snd (post_comment now u lid body st)) = lessons st
   \<or> (\<exists>i m. updateOne (by_id i)
         (push_field ''comments''
            (VObj (to_bson (newComment (VOid (next_oid st)) u (field body ''text'') now))))
         (lessons st) = Some (m, lessons (snd (post_comment now u lid body st))))"
  by (simp add: post_comment_def Let_def split: option.splits) blast

lemma post_reply_lessons:
  "lessons (snd (post_reply now u lid cid body st)) = lessons st
   \<or> (\<exists>i c m. updateOne (\<lambda>d. by_id i d \<and> comments_match c d)
         (positional c (push_field ''replies''
            (VObj (to_bson (newReply (VOid (next_oid st)) u (field body ''text'') now)))))
         (lessons st) = Some (m, lessons (snd (post_reply now u lid cid body st))))"
  by (simp add: post_reply_def Let_def split: option.splits) blast

lemma post_comment_like_lessons:
  "lessons (snd (post_comment_like lid cid st)) = lessons st
   \<or> (\<exists>i c m. updateOne (\<lambda>d. by_id i d \<and> comments_match c d)
         (positional c (inc_field ''likes'')) (lessons st)
         = Some (m, lessons (snd (post_comment_like lid cid st))))"
  by (simp add: post_comment_like_def split: option.splits) blast

lemma bump_lessons_cases:
  "lessons (snd (bump c lid st)) = lessons st
   \<or> (\<exists>i m. updateOne (by_id i) (inc_field (counter_field c)) (lessons st)
         = Some (m, lessons (snd (bump c lid st))))"
  by (simp add: bump_lessons split: option.splits) blast

lemma post_contributors_lessons:
  "lessons (snd (post_contributors a now body st)) = lessons st"
  by (simp add: post_contributors_def Let_def split: option.splits)

lemma step_p002_grows:
  assumes "d' \<in> set (lessons (step_p002 r st))"
  shows "(\<exists>d \<in> set (lessons st). grows d d') \<or> fresh_lesson d'"
proof (cases r)
  case (PostLessons now now' body)
  show ?thesis
  proof (cases "insertOne (lessonData_p002 now body) (lessons st) (next_oid st)")
    case None
    with assms PostLessons have "d' \<in> set (lessons st)"
      by (simp add: post_lessons_p002_lessons)
    then show ?thesis using grows_self by blast
  next
    case (Some x)
    obtain i ls n where x: "x = (i, ls, n)" by (cases x)
    from insertOne_appends [OF Some [unfolded x]] obtain l where
      l: "ls = lessons st @ [l]" "\<forall>k. k \<noteq> ''_id'' \<longrightarrow> field l k = field (lessonData_p002 now body) k"
      by blast
    from l(2) lessonData_p002_fields [of now body] have "fresh_lesson l"
      by (simp add: fresh_lesson_def)
    moreover from assms PostLessons Some x l(1) have "d' \<in> set (lessons st) \<or> d' = l"
      by (auto simp: post_lessons_p002_lessons)
    ultimately show ?thesis using grows_self by blast
  qed
next
  case (PutLesson now lid body)
  with assms have m: "d' \<in> set (lessons (snd (put_lesson now lid body st)))" by simp
  from put_lesson_lessons [of now lid body st] show ?thesis
  proof (elim disjE exE)
    assume "lessons (snd (put_lesson now lid body st)) = lessons st"
    with m show ?thesis using grows_self by simp
  next
    fix i k assume u: "updateOne (by_id i)
         (set_fields (to_bson [(''title'', field body ''title''), (''content'', field body ''content''),
                               (''image'', field body ''image''), (''updatedAt'', Some (VDate now))]))
         (lessons st) = Some (k, lessons (snd (put_lesson now lid body st)))"
    from updateOne_grows [OF u grows_set_fields m] show ?thesis by simp
  qed
next
  case (DeleteLesson lid)
  with assms delete_lesson_lessons [of lid st] have "d' \<in> set (lessons st)" by auto
  then show ?thesis using grows_self by blast
next
  case (PostCounter c lid)
  with assms have m: "d' \<in> set (lessons (snd (bump c lid st)))" by simp
  from bump_lessons_cases [of c lid st] show ?thesis
  proof (elim disjE exE)
    assume "lessons (snd (bump c lid st)) = lessons st"
    with m show ?thesis using grows_self by simp
  next
    fix i k assume u: "updateOne (by_id i) (inc_field (counter_field c)) (lessons st)
         = Some (k, lessons (snd (bump c lid st)))"
    from updateOne_grows [OF u grows_inc m] show ?thesis by simp
  qed
next
  case (PostComment now lid body)
  with assms have m: "d' \<in> set (lessons (snd (post_comment now None lid body st)))" by simp
  from post_comment_lessons [of now None lid body st] show ?thesis
  proof (elim disjE exE)
    assume "lessons (snd (post_comment now None lid body st)) = lessons st"
    with m show ?thesis using grows_self by simp
  next
    fix i k assume u: "updateOne (by_id i)
         (push_field ''comments''
            (VObj (to_bson (newComment (VOid (next_oid st)) None (field body ''text'') now))))
         (lessons st) = Some (k, lessons (snd (post_comment now None lid body st)))"
    from updateOne_grows [OF u grows_push_comment m] show ?thesis by simp
  qed
next
  case (PostReply now lid cid body)
  with assms have m: "d' \<in> set (lessons (snd (post_reply now None lid cid body st)))" by simp
  from post_reply_lessons [of now None lid cid body st] show ?thesis
  proof (elim disjE exE)
    assume "lessons (snd (post_reply now None lid cid body st)) = lessons st"
    with m show ?thesis using grows_self by simp
  next
    fix i c k assume u: "updateOne (\<lambda>d. by_id i d \<and> comments_match c d)
         (positional c (push_field ''replies''
            (VObj (to_bson (newReply (VOid (next_oid st)) None (field body ''text'') now)))))
         (lessons st) = Some (k, lessons (snd (post_reply now None lid cid body st)))"
    from updateOne_grows [OF u grows_positional m] show ?thesis by simp
  qed
next
  case (PostCommentLike lid cid)
  with assms have m: "d' \<in> set (lessons (snd (post_comment_like lid cid st)))" by simp
  from post_comment_like_lessons [of lid cid st] show ?thesis
  proof (elim disjE exE)
    assume "lessons (snd (post_comment_like lid cid st)) = lessons st"
    with m show ?thesis using grows_self by simp
  next
    fix i c k assume u: "updateOne (\<lambda>d. by_id i d \<and> comments_match c d)
         (positional c (inc_field ''likes'')) (lessons st)
         = Some (k, lessons (snd (post_comment_like lid cid st)))"
    from updateOne_grows [OF u grows_positional m] show ?thesis by simp
  qed
next
  case (PostContributors now body)
  with assms have "d' \<in> set (lessons st)"
    by (simp add: post_contributors_p002_def post_contributors_lessons)
  then show ?thesis using grows_self by blast
qed

subsection \<open>Lesson listing\<close>

lemma insert_desc_least:
  "\<forall>e\<in>set es. id_less d e \<Longrightarrow> insert_desc d es = es @ [d]"
  by (induction es) auto

lemma sort_id_desc_rev:
  "sorted_wrt id_less ds \<Longrightarrow> sort_id_desc ds = rev ds"
  unfolding sort_id_desc_def
  by (induction ds) (auto simp: insert_desc_least)

lemma generated_id_less:
  "generated_id n d \<Longrightarrow> id_less d (assign ''_id'' (VOid n) e)"
  by (auto simp: generated_id_def id_less_def id_of_def cmp_of_def split: option.splits val.splits)

lemma generated_id_mono: "generated_id n d \<Longrightarrow> generated_id (Suc n) d"
  by (auto simp: generated_id_def split: option.splits val.splits)

text \<open>
  Inserting a document that brings no identifier of its own keeps the identifiers
  generated and ascending: with such insertions only, the natural order of the
  collection is the order of its \<open>_id\<close>s.
\<close>

lemma insertOne_server_ids:
  assumes "sorted_wrt id_less coll" "list_all (generated_id n) coll"
    and "field d ''_id'' = None \<or> field d ''_id'' = Some VNull"
    and "insertOne d coll n = Some (i, coll', n')"
  shows "i = VOid n \<and> sorted_wrt id_less coll' \<and> list_all (generated_id n') coll'"
proof -
  from assms(3,4) have eqs: "i = VOid n" "coll' = coll @ [assign ''_id'' (VOid n) d]" "n' = Suc n"
    by (auto simp: insertOne_def)
  have "generated_id (Suc n) (assign ''_id'' (VOid n) d)"
    by (simp add: generated_id_def)
  with assms(1,2) show ?thesis
    unfolding eqs
    by (auto simp: sorted_wrt_append list_all_iff generated_id_less generated_id_mono)
qed

text \<open>So creating lessons whose bodies bring no \<open>_id\<close> keeps \<open>server_ids\<close>, in both revisions.\<close>

lemma insertOne_generated:
  "field d ''_id'' = None \<or> field d ''_id'' = Some VNull \<Longrightarrow>
   insertOne d coll n = Some (VOid n, coll @ [assign ''_id'' (VOid n) d], Suc n)"
  by (auto simp: insertOne_def)

lemma post_lessons_index_server_ids:
  assumes "server_ids st" "field body ''_id'' = None \<or> field body ''_id'' = Some VNull"
  shows "server_ids (snd (post_lessons_index now body st))"
proof -
  have "field (lessonData_index now body) ''_id'' = field body ''_id''"
    by (simp add: lessonData_index_def)
  with assms(2) have g: "field (lessonData_index now body) ''_id'' = None
      \<or> field (lessonData_index now body) ''_id'' = Some VNull" by simp
  note i = insertOne_generated [OF g, of "lessons st" "next_oid st"]
  from insertOne_server_ids [OF _ _ g i] assms(1) show ?thesis
    by (simp add: server_ids_def post_lessons_index_def i)
qed

lemma post_lessons_p001_server_ids:
  assumes "server_ids st" "field body ''_id'' = None \<or> field body ''_id'' = Some VNull"
  shows "server_ids (snd (post_lessons_p001 body st))"
proof -
  note i = insertOne_generated [OF assms(2), of "lessons st" "next_oid st"]
  from insertOne_server_ids [OF _ _ assms(2) i] assms(1) show ?thesis
    by (simp add: server_ids_def post_lessons_p001_def i)
qed

subsection \<open>The order of \<open>_id\<close> values and the sorted listing\<close>

text \<open>
  The BSON comparison is a linear order: swapping the arguments swaps the result, it
  says \<open>Eq\<close> on equal values only, and \<open>Lt\<close> is transitive. So the insertion sort
  returns every document once, in descending order of \<open>_id\<close>.
\<close>

lemma cmp_of_swap: "cmp_of b a = swap_ord (cmp_of a b)"
  by (auto simp: cmp_of_def)

lemma cmp_of_Eq [simp]: "cmp_of a b = Eq \<longleftrightarrow> a = b"
  by (auto simp: cmp_of_def)

lemma cmp_of_Lt [simp]: "cmp_of a b = Lt \<longleftrightarrow> a < b"
  by (auto simp: cmp_of_def)

lemma cmp_of_Gt [simp]: "cmp_of a b = Gt \<longleftrightarrow> b < a"
  by (auto simp: cmp_of_def)

lemma of_char_nat_inj: "(of_char x :: nat) = of_char y \<longleftrightarrow> x = y"
  by (rule of_char_eq_iff)

lemma of_char_nat_neq: "x \<noteq> y \<Longrightarrow> (of_char x :: nat) < of_char y \<or> (of_char y :: nat) < of_char x"
  using of_char_nat_inj [of x y] by linarith

lemma str_cmp_swap: "str_cmp b a = swap_ord (str_cmp a b)"
proof (induction a b rule: str_cmp.induct)
  case (4 x xs y ys)
  then show ?case
    using of_char_nat_neq [of x y]
    by (cases "cmp_of (of_char x :: nat) (of_char y)") (auto simp: cmp_of_def split: if_splits)
qed simp_all

lemma str_cmp_Eq: "str_cmp a b = Eq \<longleftrightarrow> a = b"
proof (induction a b rule: str_cmp.induct)
  case (4 x xs y ys)
  then show ?case
    by (cases "cmp_of (of_char x :: nat) (of_char y)") (auto simp: cmp_of_def split: if_splits)
qed simp_all

lemma str_cmp_refl [simp]: "str_cmp a a = Eq"
  by (simp add: str_cmp_Eq)

lemma str_cmp_trans: "str_cmp a b = Lt \<Longrightarrow> str_cmp b c = Lt \<Longrightarrow> str_cmp a c = Lt"
proof (induction a b arbitrary: c rule: str_cmp.induct)
  case (4 x xs y ys)
  from "4.prems"(2) obtain z zs where c: "c = z # zs" by (cases c) auto
  show ?case
    using 4 unfolding c
    by (auto simp: cmp_of_def split: ordering.splits if_splits)
qed (auto elim: str_cmp.elims)

lemma bson_cmp_rank:
  "bson_rank a \<noteq> bson_rank b \<Longrightarrow> bson_cmp a b = cmp_of (bson_rank a) (bson_rank b)"
  by (cases a; cases b; simp)

lemma bson_rank_same:
  "bson_rank a = bson_rank b \<Longrightarrow>
     (a = VNull \<and> b = VNull) \<or> (\<exists>x y. a = VBool x \<and> b = VBool y)
   \<or> (\<exists>x y. a = VNum x \<and> b = VNum y) \<or> (\<exists>x y. a = VStr x \<and> b = VStr y)
   \<or> (\<exists>x y. a = VArr x \<and> b = VArr y) \<or> (\<exists>x y. a = VObj x \<and> b = VObj y)
   \<or> (\<exists>x y. a = VOid x \<and> b = VOid y) \<or> (\<exists>x y. a = VDate x \<and> b = VDate y)"
  by (cases a; cases b; simp)


lemma swap_ord_cases [simp]:
  "swap_ord r = Lt \<longleftrightarrow> r = Gt" "swap_ord r = Gt \<longleftrightarrow> r = Lt" "swap_ord r = Eq \<longleftrightarrow> r = Eq"
  by (cases r; simp)+

lemma bson_cmp_swap:
  "bson_cmp b a = swap_ord (bson_cmp a b)"
  "fields_cmp ys xs = swap_ord (fields_cmp xs ys)"
  "elems_cmp zs ws = swap_ord (elems_cmp ws zs)"
proof (induction a b and xs ys and ws zs rule: bson_cmp_fields_cmp_elems_cmp.induct)
  case (2 a b)
  show ?case by simp (rule str_cmp_swap)
next
  fix b
  show "bson_cmp b VNull = swap_ord (bson_cmp VNull b)"
    by (cases b) (simp_all add: cmp_of_def)
next
  case (12 k v xs k' v' ys)
  show ?case
  proof (cases "bson_rank v = bson_rank v'")
    case False
    then show ?thesis by (auto simp: cmp_of_def)
  next
    case True
    show ?thesis
    proof (cases "k = k'")
      case False
      then have "str_cmp k k' \<noteq> Eq" by (simp add: str_cmp_Eq)
      with True False str_cmp_swap [of k' k] show ?thesis
        by (cases "str_cmp k k'") auto
    next
      case k: True
      then have e: "str_cmp k k' = Eq" by (simp add: str_cmp_Eq)
      from 12(1) [OF _ e] True have v: "bson_cmp v' v = swap_ord (bson_cmp v v')" by simp
      show ?thesis
      proof (cases "bson_cmp v v'")
        case Eq
        from 12(2) [OF _ e Eq] True have "fields_cmp ys xs = swap_ord (fields_cmp xs ys)" by simp
        with Eq v True k e show ?thesis by simp
      qed (use v True k e in simp_all)
    qed
  qed
next
  case (16 v xs v' ys)
  then show ?case
    using cmp_of_swap [of "bson_rank v'" "bson_rank v"]
    by (cases "bson_cmp v v'") auto
qed (simp_all add: cmp_of_def)


lemma bson_rank_Null [simp]: "bson_rank a = Suc 0 \<longleftrightarrow> a = VNull"
  by (cases a) simp_all

lemma bson_cmp_Eq:
  "bson_cmp a b = Eq \<longleftrightarrow> a = b"
  "fields_cmp xs ys = Eq \<longleftrightarrow> xs = ys"
  "elems_cmp ws zs = Eq \<longleftrightarrow> ws = zs"
proof (induction a b and xs ys and ws zs rule: bson_cmp_fields_cmp_elems_cmp.induct)
  case (2 a b)
  show ?case by (simp add: str_cmp_Eq)
next
  fix b
  show "bson_cmp VNull b = Eq \<longleftrightarrow> VNull = b"
    by (cases b) (auto simp: cmp_of_def)
next
  case (12 k v xs k' v' ys)
  show ?case
  proof (cases "bson_rank v = bson_rank v'")
    case False
    then show ?thesis by auto
  next
    case True
    show ?thesis
    proof (cases "k = k'")
      case False
      then have "str_cmp k k' \<noteq> Eq" by (simp add: str_cmp_Eq)
      with True False show ?thesis
        by (cases "str_cmp k k'") auto
    next
      case k: True
      then have e: "str_cmp k k' = Eq" by (simp add: str_cmp_Eq)
      from 12(1) [OF _ e] True have v: "bson_cmp v v' = Eq \<longleftrightarrow> v = v'" by simp
      show ?thesis
      proof (cases "bson_cmp v v'")
        case Eq
        from 12(2) [OF _ e Eq] True have "fields_cmp xs ys = Eq \<longleftrightarrow> xs = ys" by simp
        with Eq v True k e show ?thesis by simp
      qed (use v True k e in auto)
    qed
  qed
next
  case (16 v xs v' ys)
  show ?case
  proof (cases "bson_rank v = bson_rank v'")
    case False
    then show ?thesis by auto
  next
    case True
    from 16(1) True have v: "bson_cmp v v' = Eq \<longleftrightarrow> v = v'" by simp
    show ?thesis
    proof (cases "bson_cmp v v'")
      case Eq
      from 16(2) [OF _ Eq] True have "elems_cmp xs ys = Eq \<longleftrightarrow> xs = ys" by simp
      with Eq v True show ?thesis by simp
    qed (use v True in auto)
  qed
qed (auto simp: cmp_of_def)


lemma bson_rank_pos [simp]: "bson_rank a \<noteq> 0"
  by (cases a) simp_all

lemma bson_cmp_refl [simp]: "bson_cmp a a = Eq"
  by (simp add: bson_cmp_Eq)

lemma bson_cmp_Lt_rank: "bson_cmp a b = Lt \<Longrightarrow> bson_rank a \<le> bson_rank b"
  using bson_cmp_rank [of a b] by (cases "bson_rank a = bson_rank b") (auto simp: cmp_of_def split: if_splits)

lemma bson_cmp_rank_Lt: "bson_rank a < bson_rank b \<Longrightarrow> bson_cmp a b = Lt"
  using bson_cmp_rank [of a b] by (simp add: cmp_of_def)

lemma trans_rank: "bson_rank a < bson_rank b \<Longrightarrow> bson_cmp b c = Lt \<Longrightarrow> bson_cmp a c = Lt"
  using bson_cmp_Lt_rank [of b c] bson_cmp_rank_Lt [of a c] by simp

lemma trans_rank': "bson_cmp a b = Lt \<Longrightarrow> bson_rank b < bson_rank c \<Longrightarrow> bson_cmp a c = Lt"
  using bson_cmp_Lt_rank [of a b] bson_cmp_rank_Lt [of a c] by simp

lemma bson_cmp_trans:
  "bson_cmp a b = Lt \<Longrightarrow> bson_cmp b c = Lt \<Longrightarrow> bson_cmp a c = Lt"
  "fields_cmp xs ys = Lt \<Longrightarrow> fields_cmp ys cs = Lt \<Longrightarrow> fields_cmp xs cs = Lt"
  "elems_cmp ws zs = Lt \<Longrightarrow> elems_cmp zs ds = Lt \<Longrightarrow> elems_cmp ws ds = Lt"
proof (induction a b and xs ys and ws zs arbitrary: c and cs and ds
    rule: bson_cmp_fields_cmp_elems_cmp.induct)
  case (1 a b)
  then show ?case by (cases c) auto
next
  case (2 a b)
  then show ?case by (cases c) (auto dest: str_cmp_trans)
next
  case (3 a b)
  then show ?case by (cases c) auto
next
  case (4 a b)
  then show ?case by (cases c) auto
next
  case (5 a b)
  then show ?case by (cases c) auto
next
  case (6 a b)
  then show ?case by (cases c) auto
next
  case (7 a b)
  then show ?case by (cases c) auto
next
  case (10 y ys)
  then show ?case by (cases cs) auto
next
  case (14 y ys)
  then show ?case by (cases ds) auto
next
  case (12 k v xs k' v' ys)
  from "12.prems"(2) obtain k'' v'' zs where cs: "cs = (k'', v'') # zs"
    by (cases cs) auto
  note p1 = "12.prems"(1)
  note p2 = "12.prems"(2) [unfolded cs]
  show ?case
  proof (cases "bson_rank v = bson_rank v'")
    case False
    with p1 have lt: "bson_rank v < bson_rank v'" by (simp add: cmp_of_def split: if_splits)
    from p2 have "bson_rank v' \<le> bson_rank v''"
      by (cases "bson_rank v' = bson_rank v''") (auto simp: cmp_of_def split: if_splits)
    with lt show ?thesis unfolding cs by (simp add: cmp_of_def)
  next
    case r: True
    show ?thesis
    proof (cases "bson_rank v' = bson_rank v''")
      case False
      with p2 have "bson_rank v' < bson_rank v''" by (simp add: cmp_of_def split: if_splits)
      with r show ?thesis unfolding cs by (simp add: cmp_of_def)
    next
      case r': True
      from p1 r have s1: "str_cmp k k' = Lt \<or> (k = k' \<and> (bson_cmp v v' = Lt \<or> v = v' \<and> fields_cmp xs ys = Lt))"
        by (auto simp: str_cmp_Eq bson_cmp_Eq split: ordering.splits)
      from p2 r' have s2: "str_cmp k' k'' = Lt \<or> (k' = k'' \<and> (bson_cmp v' v'' = Lt \<or> v' = v'' \<and> fields_cmp ys zs = Lt))"
        by (auto simp: str_cmp_Eq bson_cmp_Eq split: ordering.splits)
      have goal: "str_cmp k k'' = Lt \<or> (k = k'' \<and> (bson_cmp v v'' = Lt \<or> v = v'' \<and> fields_cmp xs zs = Lt))"
      proof -
        { assume a: "k = k'" "k' = k''"
          then have e: "str_cmp k k' = Eq" by simp
          { assume "bson_cmp v v' = Lt" "bson_cmp v' v'' = Lt"
            with "12.IH"(1) [OF _ e, of v''] r have "bson_cmp v v'' = Lt" by simp }
          moreover
          { assume "v = v'" "fields_cmp xs ys = Lt" "fields_cmp ys zs = Lt"
            then have "bson_cmp v v' = Eq" by (simp add: bson_cmp_Eq)
            with "12.IH"(2) [OF _ e, of zs] r \<open>fields_cmp xs ys = Lt\<close> \<open>fields_cmp ys zs = Lt\<close>
            have "fields_cmp xs zs = Lt" by simp }
          ultimately have "bson_cmp v v'' = Lt \<or> v = v'' \<and> fields_cmp xs zs = Lt"
            using s1 s2 a by auto }
        then show ?thesis
          using s1 s2 str_cmp_trans [of k k' k''] by auto
      qed
      with r r' show ?thesis
        unfolding cs by (auto simp: str_cmp_Eq bson_cmp_Eq split: ordering.splits)
    qed
  qed
next
  case (16 v xs v' ys)
  from "16.prems"(2) obtain v'' zs where ds: "ds = v'' # zs"
    by (cases ds) auto
  note p1 = "16.prems"(1)
  note p2 = "16.prems"(2) [unfolded ds]
  show ?case
  proof (cases "bson_rank v = bson_rank v'")
    case False
    with p1 have lt: "bson_rank v < bson_rank v'" by (simp add: cmp_of_def split: if_splits)
    from p2 have "bson_rank v' \<le> bson_rank v''"
      by (cases "bson_rank v' = bson_rank v''") (auto simp: cmp_of_def split: if_splits)
    with lt show ?thesis unfolding ds by (simp add: cmp_of_def)
  next
    case r: True
    show ?thesis
    proof (cases "bson_rank v' = bson_rank v''")
      case False
      with p2 have "bson_rank v' < bson_rank v''" by (simp add: cmp_of_def split: if_splits)
      with r show ?thesis unfolding ds by (simp add: cmp_of_def)
    next
      case r': True
      from p1 r have s1: "bson_cmp v v' = Lt \<or> v = v' \<and> elems_cmp xs ys = Lt"
        by (auto simp: bson_cmp_Eq split: ordering.splits)
      from p2 r' have s2: "bson_cmp v' v'' = Lt \<or> v' = v'' \<and> elems_cmp ys zs = Lt"
        by (auto simp: bson_cmp_Eq split: ordering.splits)
      have goal: "bson_cmp v v'' = Lt \<or> v = v'' \<and> elems_cmp xs zs = Lt"
      proof -
        { assume "bson_cmp v v' = Lt" "bson_cmp v' v'' = Lt"
          with "16.IH"(1) [of v''] r have "bson_cmp v v'' = Lt" by simp }
        moreover
        { assume "v = v'" "elems_cmp xs ys = Lt" "elems_cmp ys zs = Lt"
          then have "bson_cmp v v' = Eq" by (simp add: bson_cmp_Eq)
          with "16.IH"(2) [of zs] r \<open>elems_cmp xs ys = Lt\<close> \<open>elems_cmp ys zs = Lt\<close>
          have "elems_cmp xs zs = Lt" by simp }
        ultimately show ?thesis
          using s1 s2 by auto
      qed
      with r r' show ?thesis
        unfolding ds by (auto simp: bson_cmp_Eq split: ordering.splits)
    qed
  qed
qed (auto dest: bson_cmp_Lt_rank elim: trans_rank [rotated])


lemma id_less_asym: "id_less d e \<Longrightarrow> \<not> id_less e d"
  using bson_cmp_swap(1) [of "id_of e" "id_of d"] by (simp add: id_less_def)

lemma id_ge_trans:
  assumes "\<not> id_less a b" "\<not> id_less b c"
  shows "\<not> id_less a c"
proof
  assume l: "id_less a c"
  show False
  proof (cases "bson_cmp (id_of b) (id_of c)")
    case Lt
    with assms(2) show False by (simp add: id_less_def)
  next
    case Eq
    then have "id_of b = id_of c" by (simp add: bson_cmp_Eq)
    with l assms(1) show False by (simp add: id_less_def)
  next
    case Gt
    with bson_cmp_swap(1) [of "id_of c" "id_of b"] have "bson_cmp (id_of c) (id_of b) = Lt"
      by simp
    with l bson_cmp_trans(1) [of "id_of a" "id_of c" "id_of b"] assms(1) show False
      by (simp add: id_less_def)
  qed
qed

lemma set_insert_desc [simp]: "set (insert_desc d es) = insert d (set es)"
  by (induction es) auto

lemma mset_insert_desc [simp]: "mset (insert_desc d es) = add_mset d (mset es)"
  by (induction es) auto

lemma sorted_insert_desc:
  "sorted_wrt (\<lambda>a b. \<not> id_less a b) es \<Longrightarrow> sorted_wrt (\<lambda>a b. \<not> id_less a b) (insert_desc d es)"
proof (induction es)
  case Nil
  then show ?case by simp
next
  case (Cons e es)
  show ?case
  proof (cases "id_less d e")
    case True
    with Cons id_less_asym [OF True] show ?thesis by auto
  next
    case False
    with Cons.prems id_ge_trans [OF False] show ?thesis by auto
  qed
qed

lemma mset_sort_id_desc: "mset (sort_id_desc ds) = mset ds"
  unfolding sort_id_desc_def by (induction ds) auto

lemma sorted_sort_id_desc: "sorted_wrt (\<lambda>a b. \<not> id_less a b) (sort_id_desc ds)"
  unfolding sort_id_desc_def by (induction ds) (auto simp: sorted_insert_desc)

lemma length_sort_id_desc: "length (sort_id_desc ds) = length ds"
  using mset_sort_id_desc [of ds] by (metis size_mset)

lemma get_lessons_p001_eq: "get_lessons_p001 fb q st = get_lessons_index fb q st"
  by (simp add: get_lessons_p001_def get_lessons_index_def limit_docs_def Let_def split: option.splits)

lemma parseInt_minus_one: "parseInt (Some ''-1'') = Some (- 1)"
  by (simp add: parseInt_def is_space_def is_space2_def read_magnitude_def dec_digit_def)

lemma parseInt_one: "parseInt (Some ''1'') = Some 1"
  by (simp add: parseInt_def is_space_def read_magnitude_def dec_digit_def)

lemma parseInt_nbsp_one: "parseInt (Some [CHR 0xC2, CHR 0xA0, CHR ''1'']) = Some 1"
  by (simp add: parseInt_def is_space_def is_space2_def read_magnitude_def dec_digit_def)

lemma limit_docs_negative:
  "n < 0 \<Longrightarrow> \<exists>k \<le> nat (- n). limit_docs fb n ds = take k ds"
proof -
  assume "n < 0"
  then have "limit_docs fb n ds = take (min (fb (take (nat (- n)) ds)) (nat (- n))) ds"
    by (simp add: limit_docs_def single_batch_def)
  then show ?thesis
    by (intro exI [of _ "min (fb (take (nat (- n)) ds)) (nat (- n))"]) simp
qed

subsection \<open>Counter requests\<close>

text \<open>
  On an existing lesson whose counter holds a number, a view, like, save or share
  request adds exactly 1 to the stored counter and answers with the acknowledgement
  \<open>{success: true}\<close> (src/index.js adds a message to the one for a share), never the
  document. After any sequence of counter requests (for any counters and any
  identifiers, in any order) the counter of that lesson is its old value plus the
  number of requests made for it; every reordering of the sequence gives that value.
\<close>

lemma counter_increments:
  assumes "findOne (by_id i) (lessons st) = Some d"
    and "field d (counter_field c) = Some (VNum n)"
  shows "(ObjectId lid = Some i \<longrightarrow>
            fst (bump c lid st) = Response 200 (VObj [(''success'', VBool True)])
          \<and> post_share_index lid st =
              (if fst (post_share_p002 lid st) = Response 200 (VObj [(''success'', VBool True)])
               then Response 200 (VObj [(''success'', VBool True), (''message'', VStr ''Lesson shared!'')])
               else fst (post_share_p002 lid st),
               snd (post_share_p002 lid st))
          \<and> (\<exists>d'. findOne (by_id i) (lessons (snd (bump c lid st))) = Some d'
                 \<and> field d' (counter_field c) = Some (VNum (n + 1))))
       \<and> (\<forall>rs'. mset rs' = mset rs \<longrightarrow>
            (\<exists>d'. findOne (by_id i) (lessons (bumps rs' st)) = Some d'
                 \<and> field d' (counter_field c) = Some (VNum (n + int (bumps_of c i rs)))))"
proof -
  have one: "\<exists>d'. findOne (by_id i) (lessons (snd (bump c lid st))) = Some d'
                 \<and> field d' (counter_field c) = Some (VNum (n + 1))"
    if "ObjectId lid = Some i"
    using bump_step [OF assms, of c lid] that by simp
  have many: "\<exists>d'. findOne (by_id i) (lessons (bumps rs' st)) = Some d'
                 \<and> field d' (counter_field c) = Some (VNum (n + int (bumps_of c i rs)))"
    if "mset rs' = mset rs" for rs'
    using bumps_counter [OF assms, of rs'] bumps_of_mset [OF that, of c i] by simp
  show ?thesis
    using one many bump_response [OF _ assms] post_share_index_eq [of lid st] by blast
qed

lemma counter_increments_example:
  "findOne (by_id 0) (lessons \<lparr>lessons = [[(''likes'', VNum 0), (''_id'', VOid 0)]],
                              contributors = [], next_oid = 1\<rparr>)
     = Some [(''likes'', VNum 0), (''_id'', VOid 0)]
   \<and> field [(''likes'', VNum 0), (''_id'', VOid 0)] (counter_field Like) = Some (VNum 0)
   \<and> ObjectId ''000000000000000000000000'' = Some 0
   \<and> fst (bump Like ''000000000000000000000000''
        \<lparr>lessons = [[(''likes'', VNum 0), (''_id'', VOid 0)]], contributors = [], next_oid = 1\<rparr>)
       = Response 200 (VObj [(''success'', VBool True)])
   \<and> (\<exists>d'. findOne (by_id 0) (lessons (bumps
          [(View, ''000000000000000000000000''), (Like, ''000000000000000000000000''),
           (Like, ''000000000000000000000000'')]
          \<lparr>lessons = [[(''likes'', VNum 0), (''_id'', VOid 0)]], contributors = [], next_oid = 1\<rparr>))
        = Some d' \<and> field d' (counter_field Like) = Some (VNum 2))"
proof -
  let ?st = "\<lparr>lessons = [[(''likes'', VNum 0), (''_id'', VOid 0)]], contributors = [], next_oid = 1\<rparr>"
  let ?rs = "[(Like, ''000000000000000000000000''), (View, ''000000000000000000000000''),
           (Like, ''000000000000000000000000'')]"
  let ?rs' = "[(View, ''000000000000000000000000''), (Like, ''000000000000000000000000''),
           (Like, ''000000000000000000000000'')]"
  have h1: "findOne (by_id 0) (lessons ?st) = Some [(''likes'', VNum 0), (''_id'', VOid 0)]"
    by (simp add: by_id_def field_def)
  have h2: "field [(''likes'', VNum 0), (''_id'', VOid 0)] (counter_field Like) = Some (VNum 0)"
    by (simp add: field_def)
  have n: "bumps_of Like 0 ?rs = 2"
    by (simp add: bumps_of_def ObjectId_zeros)
  have p: "mset ?rs' = mset ?rs"
    by simp
  note t = counter_increments [OF h1 h2, of "''000000000000000000000000''" ?rs]
  from t have a: "fst (bump Like ''000000000000000000000000'' ?st)
       = Response 200 (VObj [(''success'', VBool True)])"
    using ObjectId_zeros by blast
  from t p have "\<exists>d'. findOne (by_id 0) (lessons (bumps ?rs' ?st)) = Some d'
      \<and> field d' (counter_field Like) = Some (VNum (0 + int (bumps_of Like 0 ?rs)))"
    by blast
  then have b: "\<exists>d'. findOne (by_id 0) (lessons (bumps ?rs' ?st)) = Some d'
      \<and> field d' (counter_field Like) = Some (VNum 2)"
    by (simp only: n) simp
  from h1 h2 ObjectId_zeros a b show ?thesis
    by blast
qed

text \<open>
  In src/unnamed/part_002 the counters of every lesson of every reachable store are
  numbers, so there the above holds of every existing lesson.
\<close>

lemma lesson_ok_counter:
  "lesson_ok d \<Longrightarrow> \<exists>n\<ge>0. field d (counter_field c) = Some (VNum n)"
  by (cases c) (auto simp: lesson_ok_def counter_ok_def split: option.splits val.splits)

lemma reachable_p002_counter:
  assumes "findOne (by_id i) (lessons (run_p002 rq empty_store)) = Some d"
  shows "\<exists>n\<ge>0. field d (counter_field c) = Some (VNum n)"
proof -
  from findOne_Some [OF assms] have "d \<in> set (lessons (run_p002 rq empty_store))"
    by simp
  with reachable_p002_store_ok [of rq] have "lesson_ok d"
    by (simp add: store_ok_def list_all_iff)
  then show ?thesis
    by (rule lesson_ok_counter)
qed

lemma counter_increments_p002:
  assumes "findOne (by_id i) (lessons (run_p002 rq empty_store)) = Some d"
  shows "\<exists>n\<ge>0. field d (counter_field c) = Some (VNum n)
     \<and> (ObjectId lid = Some i \<longrightarrow>
            fst (bump c lid (run_p002 rq empty_store)) = Response 200 (VObj [(''success'', VBool True)])
          \<and> (\<exists>d'. findOne (by_id i) (lessons (snd (bump c lid (run_p002 rq empty_store)))) = Some d'
                 \<and> field d' (counter_field c) = Some (VNum (n + 1))))
     \<and> (\<forall>rs'. mset rs' = mset rs \<longrightarrow>
            (\<exists>d'. findOne (by_id i) (lessons (bumps rs' (run_p002 rq empty_store))) = Some d'
                 \<and> field d' (counter_field c) = Some (VNum (n + int (bumps_of c i rs)))))"
proof -
  from reachable_p002_counter [OF assms, of c] obtain n where
    n: "0 \<le> n" "field d (counter_field c) = Some (VNum n)" by blast
  from counter_increments [OF assms n(2), of lid rs] n show ?thesis
    by (intro exI [of _ n]) simp
qed

text \<open>
  A lesson that src/index.js created from a body without \<open>shares\<close> has no such field; its
  first share sets the counter to 1.
\<close>

lemma index_first_share:
  "post_share_index ''000000000000000000000000''
     (snd (post_lessons_index 5 [(''title'', VStr ''t'')]
        \<lparr>lessons = [], contributors = [], next_oid = 0\<rparr>))
   = (Response 200 (VObj [(''success'', VBool True), (''message'', VStr ''Lesson shared!'')]),
      \<lparr>lessons = [[(''title'', VStr ''t''), (''likes'', VNum 0), (''views'', VNum 0),
                   (''saves'', VNum 0), (''comments'', VArr []), (''createdAt'', VDate 5),
                   (''_id'', VOid 0), (''shares'', VNum 1)]],
       contributors = [], next_oid = 1\<rparr>)"
  by (simp add: post_lessons_index_def lessonData_index_def insertOne_def field_def
      post_share_index_def post_share_def ObjectId_zeros by_id_def inc_field_def)

section \<open>The claims\<close>

subsection \<open>C1: lesson creation\<close>

text \<open>
  C1. Claimed: every lesson creation persists a document with the four counters likes,
  views, saves and shares at 0 and no comments, and reading the lesson back returns
  these values. \<open>POST /lessons\<close> of src/index.js never assigns \<open>shares\<close>: on the body
  \<open>{title: "t", shares: 7}\<close> and an empty store the persisted document, and the
  document \<open>GET /lessons/:id\<close> returns for the new identifier, carry \<open>shares = 7\<close>.
\<close>

theorem post_lessons_index_keeps_shares:
  "post_lessons_index 5 [(''title'', VStr ''t''), (''shares'', VNum 7)]
     \<lparr>lessons = [], contributors = [], next_oid = 0\<rparr> =
   (Response 200 (insert_ack (VOid 0)),
    \<lparr>lessons = [[(''title'', VStr ''t''), (''shares'', VNum 7), (''likes'', VNum 0),
                  (''views'', VNum 0), (''saves'', VNum 0), (''comments'', VArr []),
                  (''createdAt'', VDate 5), (''_id'', VOid 0)]],
     contributors = [], next_oid = 1\<rparr>)
   \<and> get_lesson_index ''000000000000000000000000''
       (snd (post_lessons_index 5 [(''title'', VStr ''t''), (''shares'', VNum 7)]
          \<lparr>lessons = [], contributors = [], next_oid = 0\<rparr>)) =
     Response 200 (VObj [(''title'', VStr ''t''), (''shares'', VNum 7), (''likes'', VNum 0),
                  (''views'', VNum 0), (''saves'', VNum 0), (''comments'', VArr []),
                  (''createdAt'', VDate 5), (''_id'', VOid 0)])"
  by (simp add: post_lessons_index_def lessonData_index_def insertOne_def field_def
      get_lesson_index_def ObjectId_zeros by_id_def)

subsection \<open>C2: lesson listing\<close>

text \<open>
  C2, as claimed: the listing is by descending insertion recency, and a negative limit
  returns all documents. Neither holds. \<open>limit=-1\<close> on a store of two lessons returns
  one lesson, in both revisions (here with a first batch of 101 documents, the store's
  default). And the order is that of the \<open>_id\<close> values: \<open>POST /lessons\<close> keeps the \<open>_id\<close> a
  body brings, a number sorts below every ObjectId, and so in src/index.js after
  \<open>POST /lessons {title: "old"}\<close> and \<open>POST /lessons {_id: 5, title: "new"}\<close> the
  lesson created last is listed last.
\<close>

theorem get_lessons_as_claimed_counterexample:
  "get_lessons_index (\<lambda>ds. 101) (Some ''-1'')
     \<lparr>lessons = [[(''title'', VStr ''a''), (''_id'', VOid 0)],
                 [(''title'', VStr ''b''), (''_id'', VOid 1)]],
      contributors = [], next_oid = 2\<rparr>
   = Response 200 (VArr [VObj [(''title'', VStr ''b''), (''_id'', VOid 1)]])
   \<and> get_lessons_p001 (\<lambda>ds. 101) (Some ''-1'')
     \<lparr>lessons = [[(''title'', VStr ''a''), (''_id'', VOid 0)],
                 [(''title'', VStr ''b''), (''_id'', VOid 1)]],
      contributors = [], next_oid = 2\<rparr>
   = Response 200 (VArr [VObj [(''title'', VStr ''b''), (''_id'', VOid 1)]])
   \<and> snd (post_lessons_index 2 [(''_id'', VNum 5), (''title'', VStr ''new'')]
     (snd (post_lessons_index 1 [(''title'', VStr ''old'')]
        \<lparr>lessons = [], contributors = [], next_oid = 0\<rparr>)))
   = \<lparr>lessons =
        [[(''title'', VStr ''old''), (''likes'', VNum 0), (''views'', VNum 0), (''saves'', VNum 0),
          (''comments'', VArr []), (''createdAt'', VDate 1), (''_id'', VOid 0)],
         [(''_id'', VNum 5), (''title'', VStr ''new''), (''likes'', VNum 0), (''views'', VNum 0),
          (''saves'', VNum 0), (''comments'', VArr []), (''createdAt'', VDate 2)]],
      contributors = [], next_oid = 1\<rparr>
   \<and> get_lessons_index (\<lambda>ds. 101) None
      \<lparr>lessons =
        [[(''title'', VStr ''old''), (''likes'', VNum 0), (''views'', VNum 0), (''saves'', VNum 0),
          (''comments'', VArr []), (''createdAt'', VDate 1), (''_id'', VOid 0)],
         [(''_id'', VNum 5), (''title'', VStr ''new''), (''likes'', VNum 0), (''views'', VNum 0),
          (''saves'', VNum 0), (''comments'', VArr []), (''createdAt'', VDate 2)]],
      contributors = [], next_oid = 1\<rparr>
   = Response 200 (VArr
        [VObj [(''title'', VStr ''old''), (''likes'', VNum 0), (''views'', VNum 0), (''saves'', VNum 0),
          (''comments'', VArr []), (''createdAt'', VDate 1), (''_id'', VOid 0)],
         VObj [(''_id'', VNum 5), (''title'', VStr ''new''), (''likes'', VNum 0), (''views'', VNum 0),
          (''saves'', VNum 0), (''comments'', VArr []), (''createdAt'', VDate 2)]])"
  apply (intro conjI)
     apply (simp add: get_lessons_index_def parseInt_minus_one limit_docs_def
      single_batch_def sort_id_desc_def id_less_def id_of_def field_def)
    apply (simp add: get_lessons_p001_eq get_lessons_index_def parseInt_minus_one limit_docs_def
      single_batch_def sort_id_desc_def id_less_def id_of_def field_def)
   apply (simp add: post_lessons_index_def lessonData_index_def insertOne_def field_def)
  apply (simp add: get_lessons_index_def parseInt_def sort_id_desc_def id_less_def id_of_def
      field_def)
  done

text \<open>
  C2, amended. Both revisions of \<open>GET /lessons\<close> answer every request alike (the store
  answering the query). The listing is taken from the stored lessons sorted by descending \<open>_id\<close>: every lesson
  once, none before a lesson with a larger \<open>_id\<close>; that is newest first whenever the
  stored identifiers ascend in insertion order. All of it is returned when
  \<open>parseInt(limit)\<close> is \<open>NaN\<close> (limit absent or without a leading integer) or 0; its first
  \<open>n\<close> documents when \<open>parseInt(limit)\<close> is a positive integer \<open>n\<close>; and, when it is a
  negative integer \<open>-n\<close>, the first batch of its first \<open>n\<close> documents, so at most \<open>n\<close>.
\<close>

theorem get_lessons_limit:
  "get_lessons_p001 first_batch q st = get_lessons_index first_batch q st
   \<and> mset (sort_id_desc (lessons st)) = mset (lessons st)
   \<and> sorted_wrt (\<lambda>d e. \<not> id_less d e) (sort_id_desc (lessons st))
   \<and> (sorted_wrt id_less (lessons st) \<longrightarrow> sort_id_desc (lessons st) = rev (lessons st))
   \<and> (parseInt q = None \<or> parseInt q = Some 0 \<longrightarrow>
         get_lessons_index first_batch q st =
           Response 200 (VArr (map VObj (sort_id_desc (lessons st)))))
   \<and> (\<forall>n. parseInt q = Some n \<and> 0 < n \<longrightarrow>
         get_lessons_index first_batch q st =
           Response 200 (VArr (map VObj (take (nat n) (sort_id_desc (lessons st))))))
   \<and> (\<forall>n. parseInt q = Some n \<and> n < 0 \<longrightarrow>
         get_lessons_index first_batch q st =
           Response 200 (VArr (map VObj
             (single_batch first_batch (take (nat (- n)) (sort_id_desc (lessons st))))))
         \<and> (\<exists>k \<le> nat (- n). get_lessons_index first_batch q st =
               Response 200 (VArr (map VObj (take k (sort_id_desc (lessons st)))))))"
proof (intro conjI allI impI)
  show "get_lessons_p001 first_batch q st = get_lessons_index first_batch q st"
    by (rule get_lessons_p001_eq)
  show "mset (sort_id_desc (lessons st)) = mset (lessons st)"
    by (rule mset_sort_id_desc)
  show "sorted_wrt (\<lambda>d e. \<not> id_less d e) (sort_id_desc (lessons st))"
    by (rule sorted_sort_id_desc)
  show "sort_id_desc (lessons st) = rev (lessons st)" if "sorted_wrt id_less (lessons st)"
    using that by (rule sort_id_desc_rev)
  show "get_lessons_index first_batch q st =
           Response 200 (VArr (map VObj (sort_id_desc (lessons st))))"
    if "parseInt q = None \<or> parseInt q = Some 0"
    using that by (auto simp: get_lessons_index_def limit_docs_def)
  show "get_lessons_index first_batch q st =
           Response 200 (VArr (map VObj (take (nat n) (sort_id_desc (lessons st)))))"
    if "parseInt q = Some n \<and> 0 < n" for n
    using that by (simp add: get_lessons_index_def limit_docs_def)
  show "get_lessons_index first_batch q st =
           Response 200 (VArr (map VObj
             (single_batch first_batch (take (nat (- n)) (sort_id_desc (lessons st))))))"
    if "parseInt q = Some n \<and> n < 0" for n
    using that by (simp add: get_lessons_index_def limit_docs_def)
  show "\<exists>k \<le> nat (- n). get_lessons_index first_batch q st =
               Response 200 (VArr (map VObj (take k (sort_id_desc (lessons st)))))"
    if "parseInt q = Some n \<and> n < 0" for n
  proof -
    from that limit_docs_negative [of n first_batch "sort_id_desc (lessons st)"]
    obtain k where "k \<le> nat (- n)"
      "limit_docs first_batch n (sort_id_desc (lessons st)) = take k (sort_id_desc (lessons st))"
      by blast
    with that show ?thesis
      by (intro exI [of _ k]) (simp add: get_lessons_index_def)
  qed
qed

theorem get_lessons_limit_witness:
  "parseInt (Some ''1'') = Some 1
   \<and> get_lessons_index (\<lambda>ds. 101) (Some ''1'')
       \<lparr>lessons = [[(''title'', VStr ''a''), (''_id'', VOid 0)],
                   [(''title'', VStr ''b''), (''_id'', VOid 1)]],
        contributors = [], next_oid = 2\<rparr>
     = Response 200 (VArr [VObj [(''title'', VStr ''b''), (''_id'', VOid 1)]])
   \<and> sorted_wrt id_less [[(''title'', VStr ''a''), (''_id'', VOid 0)],
                          [(''title'', VStr ''b''), (''_id'', VOid 1)]]
   \<and> sort_id_desc [[(''title'', VStr ''a''), (''_id'', VOid 0)],
                    [(''title'', VStr ''b''), (''_id'', VOid 1)]]
     = [[(''title'', VStr ''b''), (''_id'', VOid 1)], [(''title'', VStr ''a''), (''_id'', VOid 0)]]
   \<and> parseInt None = None
   \<and> get_lessons_index (\<lambda>ds. 101) None
       \<lparr>lessons = [[(''title'', VStr ''a''), (''_id'', VOid 0)],
                   [(''title'', VStr ''b''), (''_id'', VOid 1)]],
        contributors = [], next_oid = 2\<rparr>
     = Response 200 (VArr [VObj [(''title'', VStr ''b''), (''_id'', VOid 1)],
                           VObj [(''title'', VStr ''a''), (''_id'', VOid 0)]])
   \<and> parseInt (Some ''-1'') = Some (- 1)
   \<and> get_lessons_index (\<lambda>ds. 101) (Some ''-1'')
       \<lparr>lessons = [[(''title'', VStr ''a''), (''_id'', VOid 0)],
                   [(''title'', VStr ''b''), (''_id'', VOid 1)]],
        contributors = [], next_oid = 2\<rparr>
     = Response 200 (VArr [VObj [(''title'', VStr ''b''), (''_id'', VOid 1)]])"
proof -
  let ?ds = "[[(''title'', VStr ''a''), (''_id'', VOid 0)],
              [(''title'', VStr ''b''), (''_id'', VOid 1)]]"
  let ?st = "\<lparr>lessons = ?ds, contributors = [], next_oid = 2\<rparr>"
  note T = get_lessons_limit [of "\<lambda>ds. 101" "Some ''1''" ?st]
  note T0 = get_lessons_limit [of "\<lambda>ds. 101" None ?st]
  note Tn = get_lessons_limit [of "\<lambda>ds. 101" "Some ''-1''" ?st]
  have s: "sorted_wrt id_less (lessons ?st)"
    by (simp add: id_less_def id_of_def field_def)
  have r: "sort_id_desc (lessons ?st) = rev (lessons ?st)"
    using T [THEN conjunct2, THEN conjunct2, THEN conjunct2, THEN conjunct1, THEN mp, OF s] .
  have hp: "parseInt (Some ''1'') = Some 1 \<and> (0::int) < 1"
    using parseInt_one by simp
  have "get_lessons_index (\<lambda>ds. 101) (Some ''1'') ?st
           = Response 200 (VArr (map VObj (take (nat 1) (sort_id_desc (lessons ?st)))))"
    using T [THEN conjunct2, THEN conjunct2, THEN conjunct2, THEN conjunct2, THEN conjunct2,
        THEN conjunct1, THEN spec, THEN mp, OF hp] .
  with r have g: "get_lessons_index (\<lambda>ds. 101) (Some ''1'') ?st
           = Response 200 (VArr [VObj [(''title'', VStr ''b''), (''_id'', VOid 1)]])"
    by simp
  have p0: "parseInt None = None"
    by (simp add: parseInt_def)
  then have h0: "parseInt None = None \<or> parseInt None = Some 0"
    by (rule disjI1)
  have "get_lessons_index (\<lambda>ds. 101) None ?st
           = Response 200 (VArr (map VObj (sort_id_desc (lessons ?st))))"
    using T0 [THEN conjunct2, THEN conjunct2, THEN conjunct2, THEN conjunct2, THEN conjunct1,
        THEN mp, OF h0] .
  with r have g0: "get_lessons_index (\<lambda>ds. 101) None ?st
     = Response 200 (VArr [VObj [(''title'', VStr ''b''), (''_id'', VOid 1)],
                           VObj [(''title'', VStr ''a''), (''_id'', VOid 0)]])"
    by simp
  have hn: "parseInt (Some ''-1'') = Some (- 1) \<and> (- 1::int) < 0"
    using parseInt_minus_one by simp
  have "get_lessons_index (\<lambda>ds. 101) (Some ''-1'') ?st
           = Response 200 (VArr (map VObj
               (single_batch (\<lambda>ds. 101) (take (nat (- (- 1))) (sort_id_desc (lessons ?st))))))"
    using Tn [THEN conjunct2, THEN conjunct2, THEN conjunct2, THEN conjunct2, THEN conjunct2,
        THEN conjunct2, THEN spec, THEN mp, OF hn, THEN conjunct1] .
  with r have gn: "get_lessons_index (\<lambda>ds. 101) (Some ''-1'') ?st
           = Response 200 (VArr [VObj [(''title'', VStr ''b''), (''_id'', VOid 1)]])"
    by (simp add: single_batch_def)
  from r have r': "sort_id_desc ?ds
     = [[(''title'', VStr ''b''), (''_id'', VOid 1)], [(''title'', VStr ''a''), (''_id'', VOid 0)]]"
    by simp
  from s have s': "sorted_wrt id_less ?ds" by simp
  from parseInt_one g s' r' p0 g0 parseInt_minus_one gn show ?thesis
    by (intro conjI)
qed

subsection \<open>C3: retrieval of a lesson that does not exist\<close>

text \<open>
  C3. Claimed: retrieving a lesson by an identifier that matches no stored lesson is a
  404, never a 200 with a null body. \<open>GET /lessons/:id\<close> of src/index.js sends the null
  that \<open>findOne\<close> returned, with status 200.
\<close>

theorem get_lesson_index_missing_is_200_null:
  "get_lesson_index ''000000000000000000000000''
     \<lparr>lessons = [], contributors = [], next_oid = 0\<rparr> = Response 200 VNull"
  by (simp add: get_lesson_index_def ObjectId_zeros)

subsection \<open>C4: comment append\<close>

text \<open>
  C4, as claimed: every request with a non-empty text is answered with the new comment.
  With the lesson identifier \<open>abc\<close>, \<open>new ObjectId(lessonId)\<close> throws after the text
  check, and the handler sends nothing.
\<close>

theorem post_comment_malformed_id_counterexample:
  "truthy (field [(''text'', VStr ''hi'')] ''text'')
   \<and> fst (post_comment 5 None ''abc'' [(''text'', VStr ''hi'')]
         \<lparr>lessons = [], contributors = [], next_oid = 0\<rparr>) = Unhandled"
  by (simp add: post_comment_def field_def ObjectId_def)

text \<open>
  C4, amended. A request whose text is missing, empty or otherwise falsy is answered
  400 and leaves the store as it was. A request with a truthy text, a lesson identifier
  of 24 hexadecimal digits and a target lesson whose \<open>comments\<close> (when the lesson
  exists) is missing or an array is answered 200 with the new comment alone: its
  \<open>_id\<close> is the generator's next identifier (new to the store when the stored
  identifiers are generated ones), its likes are 0, its replies empty, its \<open>createdAt\<close>
  the current time; the comment is appended to the lesson's comments when the lesson
  exists, and nothing is stored otherwise.
\<close>

theorem post_comment_amended:
  "(\<not> truthy (field body ''text'') \<longrightarrow>
      post_comment now u lid body st =
        (Response 400 (VObj [(''message'', VStr ''Comment text required'')]), st))
   \<and> (truthy (field body ''text'') \<and> ObjectId lid = Some i
        \<and> (\<forall>d. findOne (by_id i) (lessons st) = Some d \<longrightarrow> comments_pushable d) \<longrightarrow>
      fst (post_comment now u lid body st) =
        Response 200 (VObj (to_json (newComment (VOid (next_oid st)) u (field body ''text'') now)))
      \<and> field (to_json (newComment (VOid (next_oid st)) u (field body ''text'') now)) ''_id''
          = Some (VOid (next_oid st))
      \<and> field (to_json (newComment (VOid (next_oid st)) u (field body ''text'') now)) ''text''
          = field body ''text''
      \<and> field (to_json (newComment (VOid (next_oid st)) u (field body ''text'') now)) ''likes''
          = Some (VNum 0)
      \<and> field (to_json (newComment (VOid (next_oid st)) u (field body ''text'') now)) ''replies''
          = Some (VArr [])
      \<and> field (to_json (newComment (VOid (next_oid st)) u (field body ''text'') now)) ''createdAt''
          = Some (VDate now)
      \<and> next_oid (snd (post_comment now u lid body st)) = Suc (next_oid st)
      \<and> contributors (snd (post_comment now u lid body st)) = contributors st
      \<and> (fresh_gen st \<longrightarrow> (\<forall>d \<in> set (lessons st). next_oid st \<notin> oids (VObj d)))
      \<and> (findOne (by_id i) (lessons st) = None \<longrightarrow>
            lessons (snd (post_comment now u lid body st)) = lessons st)
      \<and> (\<forall>d. findOne (by_id i) (lessons st) = Some d \<longrightarrow>
            (\<exists>d'. findOne (by_id i) (lessons (snd (post_comment now u lid body st))) = Some d'
               \<and> comments_of d' = comments_of d @
                   [VObj (to_bson (newComment (VOid (next_oid st)) u (field body ''text'') now))])))"
proof (intro conjI impI)
  assume "\<not> truthy (field body ''text'')"
  then show "post_comment now u lid body st =
        (Response 400 (VObj [(''message'', VStr ''Comment text required'')]), st)"
    by (rule post_comment_rejects)
next
  assume a: "truthy (field body ''text'') \<and> ObjectId lid = Some i
        \<and> (\<forall>d. findOne (by_id i) (lessons st) = Some d \<longrightarrow> comments_pushable d)"
  let ?c = "newComment (VOid (next_oid st)) u (field body ''text'') now"
  from a post_comment_accepts [of body lid i st now u] obtain ls where
    r: "post_comment now u lid body st =
          (Response 200 (VObj (to_json ?c)), st\<lparr>next_oid := Suc (next_oid st), lessons := ls\<rparr>)"
    and ls: "case findOne (by_id i) (lessons st) of
          None \<Rightarrow> ls = lessons st
        | Some d \<Rightarrow> findOne (by_id i) ls =
            Some (assign ''comments'' (VArr (comments_of d @ [VObj (to_bson ?c)])) d)"
    by blast
  note f = newComment_fields [of "field body ''text''" "VOid (next_oid st)" u now]
  show "fst (post_comment now u lid body st) = Response 200 (VObj (to_json ?c))"
    by (simp add: r)
  show "field (to_json ?c) ''_id'' = Some (VOid (next_oid st))" using a f by blast
  show "field (to_json ?c) ''text'' = field body ''text''" using a f by blast
  show "field (to_json ?c) ''likes'' = Some (VNum 0)" using a f by blast
  show "field (to_json ?c) ''replies'' = Some (VArr [])" using a f by blast
  show "field (to_json ?c) ''createdAt'' = Some (VDate now)" using a f by blast
  show "next_oid (snd (post_comment now u lid body st)) = Suc (next_oid st)"
    by (simp add: r)
  show "contributors (snd (post_comment now u lid body st)) = contributors st"
    by (simp add: r)
  show "\<forall>d \<in> set (lessons st). next_oid st \<notin> oids (VObj d)" if "fresh_gen st"
    using that unfolding fresh_gen_def by blast
  show "lessons (snd (post_comment now u lid body st)) = lessons st"
    if "findOne (by_id i) (lessons st) = None"
    using ls that by (simp add: r)
  show "\<forall>d. findOne (by_id i) (lessons st) = Some d \<longrightarrow>
            (\<exists>d'. findOne (by_id i) (lessons (snd (post_comment now u lid body st))) = Some d'
               \<and> comments_of d' = comments_of d @ [VObj (to_bson ?c)])"
    using ls by (auto simp: r)
qed

theorem post_comment_amended_witness:
  "truthy (field [(''text'', VStr ''hi'')] ''text'')
   \<and> ObjectId ''000000000000000000000000'' = Some 0
   \<and> findOne (by_id 0) (lessons \<lparr>lessons = [[(''comments'', VArr []), (''_id'', VOid 0)]],
          contributors = [], next_oid = 1\<rparr>) = Some [(''comments'', VArr []), (''_id'', VOid 0)]
   \<and> comments_pushable [(''comments'', VArr []), (''_id'', VOid 0)]
   \<and> fst (post_comment 5 None ''000000000000000000000000'' [(''text'', VStr ''hi'')]
        \<lparr>lessons = [[(''comments'', VArr []), (''_id'', VOid 0)]], contributors = [], next_oid = 1\<rparr>)
       = Response 200 (VObj [(''_id'', VOid 1), (''text'', VStr ''hi''), (''likes'', VNum 0),
                             (''replies'', VArr []), (''createdAt'', VDate 5)])
   \<and> post_comment 5 None ''000000000000000000000000'' [(''text'', VStr [])]
        \<lparr>lessons = [[(''comments'', VArr []), (''_id'', VOid 0)]], contributors = [], next_oid = 1\<rparr>
       = (Response 400 (VObj [(''message'', VStr ''Comment text required'')]),
          \<lparr>lessons = [[(''comments'', VArr []), (''_id'', VOid 0)]], contributors = [], next_oid = 1\<rparr>)"
proof -
  let ?st = "\<lparr>lessons = [[(''comments'', VArr []), (''_id'', VOid 0)]], contributors = [], next_oid = 1\<rparr>"
  let ?z = "''000000000000000000000000''"
  have t: "truthy (field [(''text'', VStr ''hi'')] ''text'')"
    by (simp add: field_def)
  have e: "\<not> truthy (field [(''text'', VStr [])] ''text'')"
    by (simp add: field_def)
  have f: "findOne (by_id 0) (lessons ?st) = Some [(''comments'', VArr []), (''_id'', VOid 0)]"
    by (simp add: by_id_def field_def)
  have p: "comments_pushable [(''comments'', VArr []), (''_id'', VOid 0)]"
    by (simp add: comments_pushable_def field_def)
  have h: "\<forall>d. findOne (by_id 0) (lessons ?st) = Some d \<longrightarrow> comments_pushable d"
    using f p by simp
  from post_comment_amended [of "[(''text'', VStr ''hi'')]" 5 None ?z ?st 0] t ObjectId_zeros h
  have "fst (post_comment 5 None ?z [(''text'', VStr ''hi'')] ?st) =
      Response 200 (VObj (to_json (newComment (VOid (next_oid ?st)) None
        (field [(''text'', VStr ''hi'')] ''text'') 5)))"
    by blast
  then have a: "fst (post_comment 5 None ?z [(''text'', VStr ''hi'')] ?st) =
      Response 200 (VObj [(''_id'', VOid 1), (''text'', VStr ''hi''), (''likes'', VNum 0),
                             (''replies'', VArr []), (''createdAt'', VDate 5)])"
    by (simp add: newComment_def field_def)
  from post_comment_amended [of "[(''text'', VStr [])]" 5 None ?z ?st 0] e
  have b: "post_comment 5 None ?z [(''text'', VStr [])] ?st =
      (Response 400 (VObj [(''message'', VStr ''Comment text required'')]), ?st)"
    by blast
  from t ObjectId_zeros f p a b show ?thesis
    by blast
qed

subsection \<open>C5: counter increments\<close>

text \<open>
  C5. Claimed: every share request on an existing lesson adds exactly 1 to the stored
  counter and is acknowledged as a success. In src/index.js \<open>POST /lessons\<close> keeps the
  \<open>shares\<close> the body brings (the defect of C1): a lesson created with \<open>shares: "x"\<close> exists,
  and a share request for it is answered 500 \<open>Share failed!\<close> with the store unchanged,
  since \<open>$inc\<close> fails on a field that is not a number. src/unnamed/part_002 stores 0 for
  the same body, and the share request then gives 1.
\<close>

theorem index_share_fails_on_kept_shares:
  "post_lessons_index 5 [(''shares'', VStr ''x'')]
        \<lparr>lessons = [], contributors = [], next_oid = 0\<rparr>
     = (Response 200 (insert_ack (VOid 0)),
        \<lparr>lessons = [[(''shares'', VStr ''x''), (''likes'', VNum 0), (''views'', VNum 0),
                    (''saves'', VNum 0), (''comments'', VArr []), (''createdAt'', VDate 5),
                    (''_id'', VOid 0)]],
        contributors = [], next_oid = 1\<rparr>)
   \<and> ObjectId ''000000000000000000000000'' = Some 0
   \<and> findOne (by_id 0)
        [[(''shares'', VStr ''x''), (''likes'', VNum 0), (''views'', VNum 0),
          (''saves'', VNum 0), (''comments'', VArr []), (''createdAt'', VDate 5),
          (''_id'', VOid 0)]]
     = Some [(''shares'', VStr ''x''), (''likes'', VNum 0), (''views'', VNum 0),
          (''saves'', VNum 0), (''comments'', VArr []), (''createdAt'', VDate 5),
          (''_id'', VOid 0)]
   \<and> post_share_index ''000000000000000000000000''
        \<lparr>lessons = [[(''shares'', VStr ''x''), (''likes'', VNum 0), (''views'', VNum 0),
                    (''saves'', VNum 0), (''comments'', VArr []), (''createdAt'', VDate 5),
                    (''_id'', VOid 0)]],
        contributors = [], next_oid = 1\<rparr>
     = (Response 500 (VObj [(''message'', VStr ''Share failed!'')]),
        \<lparr>lessons = [[(''shares'', VStr ''x''), (''likes'', VNum 0), (''views'', VNum 0),
                    (''saves'', VNum 0), (''comments'', VArr []), (''createdAt'', VDate 5),
                    (''_id'', VOid 0)]],
        contributors = [], next_oid = 1\<rparr>)
   \<and> snd (post_lessons_p002 5 6 [(''shares'', VStr ''x'')]
        \<lparr>lessons = [], contributors = [], next_oid = 0\<rparr>)
     = \<lparr>lessons = [[(''shares'', VNum 0), (''likes'', VNum 0), (''views'', VNum 0),
                    (''saves'', VNum 0), (''comments'', VArr []), (''createdAt'', VDate 5),
                    (''author'', VStr ''Anonymous''),
                    (''authorAvatar'', VStr ''/images/default.jpg''), (''_id'', VOid 0)]],
        contributors = [[(''_id'', VOid 1), (''name'', VStr ''Anonymous''),
                         (''avatar'', VStr ''/images/default.jpg''),
                         (''createdAt'', VDate 6), (''lessons'', VNum 1)]],
        next_oid = 2\<rparr>
   \<and> post_share_p002 ''000000000000000000000000''
        \<lparr>lessons = [[(''shares'', VNum 0), (''likes'', VNum 0), (''views'', VNum 0),
                    (''saves'', VNum 0), (''comments'', VArr []), (''createdAt'', VDate 5),
                    (''author'', VStr ''Anonymous''),
                    (''authorAvatar'', VStr ''/images/default.jpg''), (''_id'', VOid 0)]],
        contributors = [[(''_id'', VOid 1), (''name'', VStr ''Anonymous''),
                         (''avatar'', VStr ''/images/default.jpg''),
                         (''createdAt'', VDate 6), (''lessons'', VNum 1)]],
        next_oid = 2\<rparr>
     = (Response 200 (VObj [(''success'', VBool True)]),
        \<lparr>lessons = [[(''shares'', VNum 1), (''likes'', VNum 0), (''views'', VNum 0),
                    (''saves'', VNum 0), (''comments'', VArr []), (''createdAt'', VDate 5),
                    (''author'', VStr ''Anonymous''),
                    (''authorAvatar'', VStr ''/images/default.jpg''), (''_id'', VOid 0)]],
        contributors = [[(''_id'', VOid 1), (''name'', VStr ''Anonymous''),
                         (''avatar'', VStr ''/images/default.jpg''),
                         (''createdAt'', VDate 6), (''lessons'', VNum 1)]],
        next_oid = 2\<rparr>)"
proof (intro conjI)
  show "post_lessons_index 5 [(''shares'', VStr ''x'')]
        \<lparr>lessons = [], contributors = [], next_oid = 0\<rparr>
     = (Response 200 (insert_ack (VOid 0)),
        \<lparr>lessons = [[(''shares'', VStr ''x''), (''likes'', VNum 0), (''views'', VNum 0),
                    (''saves'', VNum 0), (''comments'', VArr []), (''createdAt'', VDate 5),
                    (''_id'', VOid 0)]],
        contributors = [], next_oid = 1\<rparr>)"
    by (simp add: post_lessons_index_def lessonData_index_def insertOne_def field_def)
  show "ObjectId ''000000000000000000000000'' = Some 0"
    by (rule ObjectId_zeros)
  show "findOne (by_id 0)
        [[(''shares'', VStr ''x''), (''likes'', VNum 0), (''views'', VNum 0),
          (''saves'', VNum 0), (''comments'', VArr []), (''createdAt'', VDate 5),
          (''_id'', VOid 0)]]
     = Some [(''shares'', VStr ''x''), (''likes'', VNum 0), (''views'', VNum 0),
          (''saves'', VNum 0), (''comments'', VArr []), (''createdAt'', VDate 5),
          (''_id'', VOid 0)]"
    by (simp add: by_id_def field_def)
  show "post_share_index ''000000000000000000000000''
        \<lparr>lessons = [[(''shares'', VStr ''x''), (''likes'', VNum 0), (''views'', VNum 0),
                    (''saves'', VNum 0), (''comments'', VArr []), (''createdAt'', VDate 5),
                    (''_id'', VOid 0)]],
        contributors = [], next_oid = 1\<rparr>
     = (Response 500 (VObj [(''message'', VStr ''Share failed!'')]),
        \<lparr>lessons = [[(''shares'', VStr ''x''), (''likes'', VNum 0), (''views'', VNum 0),
                    (''saves'', VNum 0), (''comments'', VArr []), (''createdAt'', VDate 5),
                    (''_id'', VOid 0)]],
        contributors = [], next_oid = 1\<rparr>)"
    by (simp add: post_share_index_def post_share_def ObjectId_zeros by_id_def inc_field_def
        field_def)
  show "snd (post_lessons_p002 5 6 [(''shares'', VStr ''x'')]
        \<lparr>lessons = [], contributors = [], next_oid = 0\<rparr>)
     = \<lparr>lessons = [[(''shares'', VNum 0), (''likes'', VNum 0), (''views'', VNum 0),
                    (''saves'', VNum 0), (''comments'', VArr []), (''createdAt'', VDate 5),
                    (''author'', VStr ''Anonymous''),
                    (''authorAvatar'', VStr ''/images/default.jpg''), (''_id'', VOid 0)]],
        contributors = [[(''_id'', VOid 1), (''name'', VStr ''Anonymous''),
                         (''avatar'', VStr ''/images/default.jpg''),
                         (''createdAt'', VDate 6), (''lessons'', VNum 1)]],
        next_oid = 2\<rparr>"
    by (simp add: post_lessons_p002_def lessonData_p002_def insertOne_def field_def
        upsert_contributor_def Let_def)
  show "post_share_p002 ''000000000000000000000000''
        \<lparr>lessons = [[(''shares'', VNum 0), (''likes'', VNum 0), (''views'', VNum 0),
                    (''saves'', VNum 0), (''comments'', VArr []), (''createdAt'', VDate 5),
                    (''author'', VStr ''Anonymous''),
                    (''authorAvatar'', VStr ''/images/default.jpg''), (''_id'', VOid 0)]],
        contributors = [[(''_id'', VOid 1), (''name'', VStr ''Anonymous''),
                         (''avatar'', VStr ''/images/default.jpg''),
                         (''createdAt'', VDate 6), (''lessons'', VNum 1)]],
        next_oid = 2\<rparr>
     = (Response 200 (VObj [(''success'', VBool True)]),
        \<lparr>lessons = [[(''shares'', VNum 1), (''likes'', VNum 0), (''views'', VNum 0),
                    (''saves'', VNum 0), (''comments'', VArr []), (''createdAt'', VDate 5),
                    (''author'', VStr ''Anonymous''),
                    (''authorAvatar'', VStr ''/images/default.jpg''), (''_id'', VOid 0)]],
        contributors = [[(''_id'', VOid 1), (''name'', VStr ''Anonymous''),
                         (''avatar'', VStr ''/images/default.jpg''),
                         (''createdAt'', VDate 6), (''lessons'', VNum 1)]],
        next_oid = 2\<rparr>)"
    by (simp add: post_share_p002_def post_share_def ObjectId_zeros by_id_def inc_field_def
        field_def)
qed

subsection \<open>C6: reply append\<close>

text \<open>
  C6. A reply request changes the store through one \<open>updateOne\<close> whose filter names the
  lesson and the comment and whose update pushes at the matched position. Whatever the
  request, the contributors are untouched and the lessons are either all unchanged or
  differ in one place only: in the first lesson with the given identifier, the first
  comment with the given identifier has the new reply appended to its \<open>replies\<close>. The
  lessons before and after it, the comments before and after that comment (their
  replies and likes included), every other field of the comment (its likes included)
  and every other field of the lesson are as they were.
\<close>

theorem post_reply_frame:
  assumes "post_reply_guarded verifyIdToken authorization now lid cid body st = (out, st')"
  shows "contributors st' = contributors st
   \<and> (lessons st' = lessons st
      \<or> (\<exists>i c u pre d post cpre fs cpost rs.
           ObjectId lid = Some i \<and> ObjectId cid = Some c
         \<and> out = Response 200 (VObj (to_json (newReply (VOid (next_oid st)) u (field body ''text'') now)))
         \<and> updateOne (\<lambda>d. by_id i d \<and> comments_match c d)
                (positional c (push_field ''replies''
                   (VObj (to_bson (newReply (VOid (next_oid st)) u (field body ''text'') now)))))
                (lessons st) = Some (1, lessons st')
         \<and> lessons st = pre @ d # post \<and> by_id i d
         \<and> field d ''comments'' = Some (VArr (cpre @ VObj fs # cpost))
         \<and> field fs ''_id'' = Some (VOid c) \<and> (\<forall>e \<in> set cpre. \<not> elem_matches c e)
         \<and> (field fs ''replies'' = Some (VArr rs) \<or> field fs ''replies'' = None \<and> rs = [])
         \<and> lessons st' = pre @
              assign ''comments'' (VArr (cpre @
                VObj (assign ''replies'' (VArr (rs @
                  [VObj (to_bson (newReply (VOid (next_oid st)) u (field body ''text'') now))])) fs)
                # cpost)) d # post
         \<and> (\<forall>k. k \<noteq> ''replies'' \<longrightarrow>
               field (assign ''replies'' (VArr (rs @
                  [VObj (to_bson (newReply (VOid (next_oid st)) u (field body ''text'') now))])) fs) k
               = field fs k)
         \<and> (\<forall>k. k \<noteq> ''comments'' \<longrightarrow>
               field (assign ''comments'' (VArr (cpre @
                VObj (assign ''replies'' (VArr (rs @
                  [VObj (to_bson (newReply (VOid (next_oid st)) u (field body ''text'') now))])) fs)
                # cpost)) d) k
               = field d k)))"
proof -
  from verifyJWT_cases [OF assms [unfolded post_reply_guarded_def]]
  show ?thesis
  proof
    assume "st' = st"
    then show ?thesis by simp
  next
    assume "\<exists>email. post_reply now email lid cid body st = (out, st')"
    then obtain u where u: "post_reply now u lid cid body st = (out, st')" by blast
    let ?r = "VObj (to_bson (newReply (VOid (next_oid st)) u (field body ''text'') now))"
    from post_reply_cases [OF u] have c: "contributors st' = contributors st"
      and alt: "lessons st' = lessons st
      \<or> (\<exists>i c m. ObjectId lid = Some i \<and> ObjectId cid = Some c
           \<and> out = Response 200 (VObj (to_json (newReply (VOid (next_oid st)) u (field body ''text'') now)))
           \<and> updateOne (\<lambda>d. by_id i d \<and> comments_match c d)
                (positional c (push_field ''replies'' ?r)) (lessons st) = Some (m, lessons st'))"
      by blast+
    from alt show ?thesis
    proof
      assume "lessons st' = lessons st"
      with c show ?thesis by simp
    next
      assume "\<exists>i c m. ObjectId lid = Some i \<and> ObjectId cid = Some c
           \<and> out = Response 200 (VObj (to_json (newReply (VOid (next_oid st)) u (field body ''text'') now)))
           \<and> updateOne (\<lambda>d. by_id i d \<and> comments_match c d)
                (positional c (push_field ''replies'' ?r)) (lessons st) = Some (m, lessons st')"
      then obtain i c' m where ids: "ObjectId lid = Some i" "ObjectId cid = Some c'"
        and out: "out = Response 200 (VObj (to_json (newReply (VOid (next_oid st)) u (field body ''text'') now)))"
        and upd: "updateOne (\<lambda>d. by_id i d \<and> comments_match c' d)
                (positional c' (push_field ''replies'' ?r)) (lessons st) = Some (m, lessons st')"
        by blast
      from updateOne_cases [OF upd] show ?thesis
      proof
        assume "m = 0 \<and> lessons st' = lessons st
          \<and> (\<forall>e \<in> set (lessons st). \<not> (by_id i e \<and> comments_match c' e))"
        with c show ?thesis by simp
      next
        assume "\<exists>pre d post d'. lessons st = pre @ d # post
          \<and> (\<forall>e \<in> set pre. \<not> (by_id i e \<and> comments_match c' e))
          \<and> (by_id i d \<and> comments_match c' d)
          \<and> positional c' (push_field ''replies'' ?r) d = Some d'
          \<and> lessons st' = pre @ d' # post \<and> m = 1"
        then obtain pre d post d' where dec: "lessons st = pre @ d # post" "by_id i d"
          "positional c' (push_field ''replies'' ?r) d = Some d'"
          "lessons st' = pre @ d' # post" "m = 1" by blast
        from positional_cases [OF dec(3)] obtain cpre fs cpost fs' where
          pos: "field d ''comments'' = Some (VArr (cpre @ VObj fs # cpost))"
            "\<forall>e \<in> set cpre. \<not> elem_matches c' e" "field fs ''_id'' = Some (VOid c')"
            "push_field ''replies'' ?r fs = Some fs'"
            "d' = assign ''comments'' (VArr (cpre @ VObj fs' # cpost)) d" by blast
        from push_field_cases [OF pos(4)] obtain rs where
          rs: "field fs ''replies'' = Some (VArr rs) \<or> field fs ''replies'' = None \<and> rs = []"
            "fs' = assign ''replies'' (VArr (rs @ [?r])) fs" by blast
        have L: "lessons st' = pre @ assign ''comments'' (VArr (cpre @
                VObj (assign ''replies'' (VArr (rs @ [?r])) fs) # cpost)) d # post"
          using dec(4) pos(5) rs(2) by simp
        have U: "updateOne (\<lambda>d. by_id i d \<and> comments_match c' d)
                (positional c' (push_field ''replies'' ?r)) (lessons st) = Some (1, lessons st')"
          using upd dec(5) by simp
        have F1: "\<forall>k. k \<noteq> ''replies'' \<longrightarrow>
               field (assign ''replies'' (VArr (rs @ [?r])) fs) k = field fs k"
          by simp
        have F2: "\<forall>k. k \<noteq> ''comments'' \<longrightarrow>
               field (assign ''comments'' (VArr (cpre @
                VObj (assign ''replies'' (VArr (rs @ [?r])) fs) # cpost)) d) k = field d k"
          by simp
        from ids out U dec(1,2) pos(1,3,2) rs(1) L F1 F2
        have "\<exists>i c u pre d post cpre fs cpost rs.
           ObjectId lid = Some i \<and> ObjectId cid = Some c
         \<and> out = Response 200 (VObj (to_json (newReply (VOid (next_oid st)) u (field body ''text'') now)))
         \<and> updateOne (\<lambda>d. by_id i d \<and> comments_match c d)
                (positional c (push_field ''replies''
                   (VObj (to_bson (newReply (VOid (next_oid st)) u (field body ''text'') now)))))
                (lessons st) = Some (1, lessons st')
         \<and> lessons st = pre @ d # post \<and> by_id i d
         \<and> field d ''comments'' = Some (VArr (cpre @ VObj fs # cpost))
         \<and> field fs ''_id'' = Some (VOid c) \<and> (\<forall>e \<in> set cpre. \<not> elem_matches c e)
         \<and> (field fs ''replies'' = Some (VArr rs) \<or> field fs ''replies'' = None \<and> rs = [])
         \<and> lessons st' = pre @
              assign ''comments'' (VArr (cpre @
                VObj (assign ''replies'' (VArr (rs @
                  [VObj (to_bson (newReply (VOid (next_oid st)) u (field body ''text'') now))])) fs)
                # cpost)) d # post
         \<and> (\<forall>k. k \<noteq> ''replies'' \<longrightarrow>
               field (assign ''replies'' (VArr (rs @
                  [VObj (to_bson (newReply (VOid (next_oid st)) u (field body ''text'') now))])) fs) k
               = field fs k)
         \<and> (\<forall>k. k \<noteq> ''comments'' \<longrightarrow>
               field (assign ''comments'' (VArr (cpre @
                VObj (assign ''replies'' (VArr (rs @
                  [VObj (to_bson (newReply (VOid (next_oid st)) u (field body ''text'') now))])) fs)
                # cpost)) d) k
               = field d k)"
          by (intro exI [of _ i] exI [of _ c'] exI [of _ u] exI [of _ pre] exI [of _ d]
              exI [of _ post] exI [of _ cpre] exI [of _ fs] exI [of _ cpost] exI [of _ rs] conjI)
        with c show ?thesis by blast
      qed
    qed
  qed
qed

theorem post_reply_frame_witness:
  "post_reply_guarded (\<lambda>t. Inr (Some (VStr ''a@b.c''))) (Some ''Bearer tok'') 9
      ''000000000000000000000000'' ''000000000000000000000002'' [(''text'', VStr ''yes'')]
      \<lparr>lessons = [[(''_id'', VOid 0), (''likes'', VNum 4), (''comments'', VArr
          [VObj [(''_id'', VOid 1), (''likes'', VNum 3), (''replies'', VArr [])],
           VObj [(''_id'', VOid 2), (''likes'', VNum 1), (''replies'', VArr [])]])]],
       contributors = [], next_oid = 3\<rparr>
    = (Response 200 (VObj [(''_id'', VOid 3), (''user'', VStr ''a@b.c''), (''text'', VStr ''yes''),
          (''createdAt'', VDate 9)]),
       \<lparr>lessons = [[(''_id'', VOid 0), (''likes'', VNum 4), (''comments'', VArr
          [VObj [(''_id'', VOid 1), (''likes'', VNum 3), (''replies'', VArr [])],
           VObj [(''_id'', VOid 2), (''likes'', VNum 1), (''replies'', VArr
             [VObj [(''_id'', VOid 3), (''user'', VStr ''a@b.c''), (''text'', VStr ''yes''),
                (''createdAt'', VDate 9)]])]])]],
       contributors = [], next_oid = 4\<rparr>)
   \<and> contributors \<lparr>lessons = [[(''_id'', VOid 0), (''likes'', VNum 4), (''comments'', VArr
          [VObj [(''_id'', VOid 1), (''likes'', VNum 3), (''replies'', VArr [])],
           VObj [(''_id'', VOid 2), (''likes'', VNum 1), (''replies'', VArr
             [VObj [(''_id'', VOid 3), (''user'', VStr ''a@b.c''), (''text'', VStr ''yes''),
                (''createdAt'', VDate 9)]])]])]],
       contributors = [], next_oid = 4\<rparr> = []"
proof -
  have e: "post_reply_guarded (\<lambda>t. Inr (Some (VStr ''a@b.c''))) (Some ''Bearer tok'') 9
      ''000000000000000000000000'' ''000000000000000000000002'' [(''text'', VStr ''yes'')]
      \<lparr>lessons = [[(''_id'', VOid 0), (''likes'', VNum 4), (''comments'', VArr
          [VObj [(''_id'', VOid 1), (''likes'', VNum 3), (''replies'', VArr [])],
           VObj [(''_id'', VOid 2), (''likes'', VNum 1), (''replies'', VArr [])]])]],
       contributors = [], next_oid = 3\<rparr>
    = (Response 200 (VObj [(''_id'', VOid 3), (''user'', VStr ''a@b.c''), (''text'', VStr ''yes''),
          (''createdAt'', VDate 9)]),
       \<lparr>lessons = [[(''_id'', VOid 0), (''likes'', VNum 4), (''comments'', VArr
          [VObj [(''_id'', VOid 1), (''likes'', VNum 3), (''replies'', VArr [])],
           VObj [(''_id'', VOid 2), (''likes'', VNum 1), (''replies'', VArr
             [VObj [(''_id'', VOid 3), (''user'', VStr ''a@b.c''), (''text'', VStr ''yes''),
                (''createdAt'', VDate 9)]])]])]],
       contributors = [], next_oid = 4\<rparr>)"
    by (simp add: post_reply_guarded_def verifyJWT_def bearer_token_example post_reply_def field_def
        ObjectId_zeros ObjectId_two newReply_def by_id_def comments_match_def elem_matches_def
        positional_def push_field_def)
  from post_reply_frame [OF e] have "contributors \<lparr>lessons = [[(''_id'', VOid 0), (''likes'', VNum 4), (''comments'', VArr
          [VObj [(''_id'', VOid 1), (''likes'', VNum 3), (''replies'', VArr [])],
           VObj [(''_id'', VOid 2), (''likes'', VNum 1), (''replies'', VArr
             [VObj [(''_id'', VOid 3), (''user'', VStr ''a@b.c''), (''text'', VStr ''yes''),
                (''createdAt'', VDate 9)]])]])]],
       contributors = [], next_oid = 4\<rparr> = contributors \<lparr>lessons = [[(''_id'', VOid 0), (''likes'', VNum 4), (''comments'', VArr
          [VObj [(''_id'', VOid 1), (''likes'', VNum 3), (''replies'', VArr [])],
           VObj [(''_id'', VOid 2), (''likes'', VNum 1), (''replies'', VArr [])]])]],
       contributors = [], next_oid = 3\<rparr>"
    by (rule conjunct1)
  with e show ?thesis by simp
qed

subsection \<open>C7: lesson update\<close>

text \<open>
  C7, as claimed: fields omitted from the request keep their previous values. They do
  not: a request that provides only \<open>title\<close> overwrites \<open>content\<close> and \<open>image\<close> with null.
\<close>

theorem put_lesson_omitted_fields_counterexample:
  "field [(''title'', VStr ''T'')] ''content'' = None
   \<and> put_lesson 9 ''000000000000000000000000'' [(''title'', VStr ''T'')]
       \<lparr>lessons = [[(''_id'', VOid 0), (''title'', VStr ''A''), (''content'', VStr ''B''),
                    (''image'', VStr ''C'')]],
        contributors = [], next_oid = 1\<rparr>
     = (Response 200 (VObj [(''message'', VStr ''Lesson updated successfully'')]),
        \<lparr>lessons = [[(''_id'', VOid 0), (''title'', VStr ''T''), (''content'', VNull),
                     (''image'', VNull), (''updatedAt'', VDate 9)]],
         contributors = [], next_oid = 1\<rparr>)"
  by (simp add: put_lesson_def ObjectId_zeros field_def by_id_def set_fields_def)

text \<open>
  C7, amended. For a lesson identifier of 24 hexadecimal digits: when no lesson has the
  identifier the answer is 404 and nothing changes; otherwise the answer is 200 and, in
  the first lesson with the identifier, each of \<open>title\<close>, \<open>content\<close> and \<open>image\<close> is set
  to the value the request provides, or to null when the request omits it, and
  \<open>updatedAt\<close> to the current time; every other field of the lesson and every other
  lesson are unchanged.
\<close>

theorem put_lesson_amended:
  assumes "ObjectId lid = Some i"
  shows "(findOne (by_id i) (lessons st) = None \<longrightarrow>
            put_lesson now lid body st =
              (Response 404 (VObj [(''message'', VStr ''Lesson not found'')]), st))
    \<and> (\<forall>d. findOne (by_id i) (lessons st) = Some d \<longrightarrow>
          (\<exists>pre post d'. lessons st = pre @ d # post
             \<and> put_lesson now lid body st =
                 (Response 200 (VObj [(''message'', VStr ''Lesson updated successfully'')]),
                  st\<lparr>lessons := pre @ d' # post\<rparr>)
             \<and> field d' ''title'' = Some (case field body ''title'' of None \<Rightarrow> VNull | Some v \<Rightarrow> v)
             \<and> field d' ''content'' = Some (case field body ''content'' of None \<Rightarrow> VNull | Some v \<Rightarrow> v)
             \<and> field d' ''image'' = Some (case field body ''image'' of None \<Rightarrow> VNull | Some v \<Rightarrow> v)
             \<and> field d' ''updatedAt'' = Some (VDate now)
             \<and> (\<forall>k. k \<notin> {''title'', ''content'', ''image'', ''updatedAt''} \<longrightarrow>
                    field d' k = field d k)))"
proof (intro conjI impI allI)
  assume "findOne (by_id i) (lessons st) = None"
  with assms show "put_lesson now lid body st =
      (Response 404 (VObj [(''message'', VStr ''Lesson not found'')]), st)"
    by (rule put_lesson_miss)
next
  fix d assume "findOne (by_id i) (lessons st) = Some d"
  from put_lesson_hit [OF assms this, of now body] obtain pre post where
    h: "lessons st = pre @ d # post"
      "put_lesson now lid body st =
         (Response 200 (VObj [(''message'', VStr ''Lesson updated successfully'')]),
          st\<lparr>lessons := pre @ assign ''updatedAt'' (VDate now)
       (assign ''image'' (case field body ''image'' of None \<Rightarrow> VNull | Some v \<Rightarrow> v)
         (assign ''content'' (case field body ''content'' of None \<Rightarrow> VNull | Some v \<Rightarrow> v)
           (assign ''title'' (case field body ''title'' of None \<Rightarrow> VNull | Some v \<Rightarrow> v) d))) # post\<rparr>)"
    by blast
  show "\<exists>pre post d'. lessons st = pre @ d # post
             \<and> put_lesson now lid body st =
                 (Response 200 (VObj [(''message'', VStr ''Lesson updated successfully'')]),
                  st\<lparr>lessons := pre @ d' # post\<rparr>)
             \<and> field d' ''title'' = Some (case field body ''title'' of None \<Rightarrow> VNull | Some v \<Rightarrow> v)
             \<and> field d' ''content'' = Some (case field body ''content'' of None \<Rightarrow> VNull | Some v \<Rightarrow> v)
             \<and> field d' ''image'' = Some (case field body ''image'' of None \<Rightarrow> VNull | Some v \<Rightarrow> v)
             \<and> field d' ''updatedAt'' = Some (VDate now)
             \<and> (\<forall>k. k \<notin> {''title'', ''content'', ''image'', ''updatedAt''} \<longrightarrow>
                    field d' k = field d k)"
    using h
    by (intro exI [of _ pre] exI [of _ post]
        exI [of _ "assign ''updatedAt'' (VDate now)
       (assign ''image'' (case field body ''image'' of None \<Rightarrow> VNull | Some v \<Rightarrow> v)
         (assign ''content'' (case field body ''content'' of None \<Rightarrow> VNull | Some v \<Rightarrow> v)
           (assign ''title'' (case field body ''title'' of None \<Rightarrow> VNull | Some v \<Rightarrow> v) d)))"])
       simp
qed

theorem put_lesson_amended_witness:
  "ObjectId ''000000000000000000000000'' = Some 0
   \<and> findOne (by_id 0) (lessons \<lparr>lessons = [], contributors = [], next_oid = 0\<rparr>) = None
   \<and> put_lesson 9 ''000000000000000000000000'' [(''title'', VStr ''T'')]
        \<lparr>lessons = [], contributors = [], next_oid = 0\<rparr>
      = (Response 404 (VObj [(''message'', VStr ''Lesson not found'')]),
         \<lparr>lessons = [], contributors = [], next_oid = 0\<rparr>)
   \<and> findOne (by_id 0) (lessons \<lparr>lessons = [[(''_id'', VOid 0), (''content'', VStr ''B'')]],
         contributors = [], next_oid = 1\<rparr>) = Some [(''_id'', VOid 0), (''content'', VStr ''B'')]
   \<and> (\<exists>d'. fst (put_lesson 9 ''000000000000000000000000'' [(''title'', VStr ''T'')]
          \<lparr>lessons = [[(''_id'', VOid 0), (''content'', VStr ''B'')]], contributors = [], next_oid = 1\<rparr>)
          = Response 200 (VObj [(''message'', VStr ''Lesson updated successfully'')])
        \<and> field d' ''title'' = Some (VStr ''T'') \<and> field d' ''content'' = Some VNull
        \<and> field d' ''_id'' = Some (VOid 0))"
proof -
  let ?st0 = "\<lparr>lessons = [], contributors = [], next_oid = 0\<rparr>"
  let ?d = "[(''_id'', VOid 0), (''content'', VStr ''B'')]"
  let ?st1 = "\<lparr>lessons = [?d], contributors = [], next_oid = 1\<rparr>"
  let ?body = "[(''title'', VStr ''T'')]"
  have n: "findOne (by_id 0) (lessons ?st0) = None"
    by simp
  from put_lesson_amended [OF ObjectId_zeros, of ?st0 9 ?body] n
  have a: "put_lesson 9 ''000000000000000000000000'' ?body ?st0
      = (Response 404 (VObj [(''message'', VStr ''Lesson not found'')]), ?st0)"
    by blast
  have f: "findOne (by_id 0) (lessons ?st1) = Some ?d"
    by (simp add: by_id_def field_def)
  note T = put_lesson_amended [OF ObjectId_zeros, of ?st1 9 ?body]
  have E: "\<exists>pre post d'. lessons ?st1 = pre @ ?d # post
             \<and> put_lesson 9 ''000000000000000000000000'' ?body ?st1 =
                 (Response 200 (VObj [(''message'', VStr ''Lesson updated successfully'')]),
                  ?st1\<lparr>lessons := pre @ d' # post\<rparr>)
             \<and> field d' ''title'' = Some (case field ?body ''title'' of None \<Rightarrow> VNull | Some v \<Rightarrow> v)
             \<and> field d' ''content'' = Some (case field ?body ''content'' of None \<Rightarrow> VNull | Some v \<Rightarrow> v)
             \<and> field d' ''image'' = Some (case field ?body ''image'' of None \<Rightarrow> VNull | Some v \<Rightarrow> v)
             \<and> field d' ''updatedAt'' = Some (VDate 9)
             \<and> (\<forall>k. k \<notin> {''title'', ''content'', ''image'', ''updatedAt''} \<longrightarrow>
                    field d' k = field ?d k)"
    by (rule conjunct2 [OF T, THEN spec, THEN mp, OF f])
  have b: "\<exists>d'. fst (put_lesson 9 ''000000000000000000000000'' ?body ?st1)
          = Response 200 (VObj [(''message'', VStr ''Lesson updated successfully'')])
        \<and> field d' ''title'' = Some (VStr ''T'') \<and> field d' ''content'' = Some VNull
        \<and> field d' ''_id'' = Some (VOid 0)"
    using E
    apply (elim exE conjE)
    subgoal for pre post d'
      apply (drule spec [of _ "''_id''"])
      apply (rule exI [of _ d'])
      apply (simp add: field_def)
      done
    done
  from ObjectId_zeros n a f b show ?thesis
    by (intro conjI)
qed

subsection \<open>C8: checkout session\<close>

text \<open>
  C8. Every checkout request asks the payment provider for a session whose minor-unit
  amount is \<open>Math.round((1500 / 127) * 100) = 1181\<close>, whatever lesson identifier, title
  and email the request carries (and whatever rounding error below 1/4 the quotient
  carries); the session's metadata is the request's lesson identifier; and when the
  provider returns a session, the response is its \<open>url\<close>.
\<close>

theorem create_checkout_session_fixed_amount:
  "unit_amount (checkout_params body) = Math_round ((1500 / 127) * 100)
   \<and> unit_amount (checkout_params body) = 1181
   \<and> (\<forall>x. \<bar>x - (1500 / 127) * 100\<bar> < 1 / 4 \<longrightarrow> Math_round x = 1181)
   \<and> metadata_lessonId (checkout_params body) = field body ''lessonId''
   \<and> (create (checkout_params body) = Some url \<longrightarrow>
        create_checkout_session create body = Response 200 (VObj (to_json [(''url'', url)])))"
proof -
  have "unit_amount (checkout_params body) = amount"
    by (simp add: checkout_params_def)
  moreover have "amount = Math_round ((1500 / 127) * 100)"
    by (simp add: amount_def FIXED_BDT_PRICE_def USD_RATE_def)
  moreover have "\<forall>x. \<bar>x - (1500 / 127) * 100\<bar> < 1 / 4 \<longrightarrow> Math_round x = 1181"
    using Math_round_near by blast
  ultimately show ?thesis
    by (simp add: amount_value create_checkout_session_def checkout_params_def)
qed

theorem create_checkout_session_fixed_amount_witness:
  "unit_amount (checkout_params [(''lessonId'', VStr ''abc''), (''senderEmail'', VStr ''a@b.c'')]) = 1181
   \<and> metadata_lessonId (checkout_params [(''lessonId'', VStr ''abc''), (''senderEmail'', VStr ''a@b.c'')])
       = Some (VStr ''abc'')
   \<and> create_checkout_session (\<lambda>p. Some (Some (VStr ''https://pay/1'')))
       [(''lessonId'', VStr ''abc''), (''senderEmail'', VStr ''a@b.c'')]
       = Response 200 (VObj [(''url'', VStr ''https://pay/1'')])"
  using create_checkout_session_fixed_amount
    [of "[(''lessonId'', VStr ''abc''), (''senderEmail'', VStr ''a@b.c'')]"
        "\<lambda>p. Some (Some (VStr ''https://pay/1''))" "Some (VStr ''https://pay/1'')"]
  by (simp add: field_def)

subsection \<open>C9: counters never start or become negative\<close>

text \<open>
  C9. Claimed: every counter starts from 0 at creation and is never negative. In
  src/index.js the \<open>shares\<close> counter does not start from 0: \<open>POST /lessons\<close> stores the
  \<open>shares\<close> the body brings (the defect of C1), so after creating a lesson with
  \<open>shares: -5\<close> and sharing it once the stored counter is -4.
\<close>

theorem index_shares_counter_negative:
  "snd (post_lessons_index 5 [(''shares'', VNum (- 5))]
        \<lparr>lessons = [], contributors = [], next_oid = 0\<rparr>)
     = \<lparr>lessons = [[(''shares'', VNum (- 5)), (''likes'', VNum 0), (''views'', VNum 0),
                    (''saves'', VNum 0), (''comments'', VArr []), (''createdAt'', VDate 5),
                    (''_id'', VOid 0)]],
        contributors = [], next_oid = 1\<rparr>
   \<and> post_share_index ''000000000000000000000000''
        \<lparr>lessons = [[(''shares'', VNum (- 5)), (''likes'', VNum 0), (''views'', VNum 0),
                    (''saves'', VNum 0), (''comments'', VArr []), (''createdAt'', VDate 5),
                    (''_id'', VOid 0)]],
        contributors = [], next_oid = 1\<rparr>
     = (Response 200 (VObj [(''success'', VBool True), (''message'', VStr ''Lesson shared!'')]),
        \<lparr>lessons = [[(''shares'', VNum (- 4)), (''likes'', VNum 0), (''views'', VNum 0),
                    (''saves'', VNum 0), (''comments'', VArr []), (''createdAt'', VDate 5),
                    (''_id'', VOid 0)]],
        contributors = [], next_oid = 1\<rparr>)"
  by (simp add: post_lessons_index_def lessonData_index_def insertOne_def field_def
      post_share_index_def post_share_def ObjectId_zeros by_id_def inc_field_def)

subsection \<open>C10: contributor creation\<close>

text \<open>
  C10, as claimed: only absent fields are defaulted, and the \<open>lessons\<close> value is persisted
  as given. The handler writes \<open>contributor.name || "Anonymous"\<close>,
  \<open>contributor.lessons || 0\<close> and \<open>contributor.avatar || default\<close>: a field that is
  present but falsy is replaced as well. A body with \<open>name: ""\<close>, \<open>lessons: false\<close> and
  \<open>avatar: null\<close> is stored with the name \<open>"Anonymous"\<close>, the count 0 and the default
  avatar, in both revisions.
\<close>

theorem post_contributors_falsy_counterexample:
  "post_contributors_index 7 [(''name'', VStr []), (''lessons'', VBool False), (''avatar'', VNull)]
      \<lparr>lessons = [], contributors = [], next_oid = 0\<rparr>
    = (Response 200 (insert_ack (VOid 0)),
       \<lparr>lessons = [],
        contributors = [[(''name'', VStr ''Anonymous''), (''lessons'', VNum 0),
           (''avatar'', VStr []), (''createdAt'', VDate 7), (''_id'', VOid 0)]],
        next_oid = 1\<rparr>)
   \<and> post_contributors_p002 7 [(''name'', VStr []), (''lessons'', VBool False), (''avatar'', VNull)]
      \<lparr>lessons = [], contributors = [], next_oid = 0\<rparr>
    = (Response 200 (insert_ack (VOid 0)),
       \<lparr>lessons = [],
        contributors = [[(''name'', VStr ''Anonymous''), (''lessons'', VNum 0),
           (''avatar'', VStr ''/images/default.jpg''), (''createdAt'', VDate 7), (''_id'', VOid 0)]],
        next_oid = 1\<rparr>)"
  by (simp add: post_contributors_index_def post_contributors_p002_def post_contributors_def
      insertOne_def field_def)

text \<open>
  C10, amended. For every request to \<open>POST /contributors\<close> (either revision), whatever the
  lessons collection holds (the outcome does not depend on it and leaves it as it is):
  a body without an \<open>_id\<close> (or with a null one) is answered with the acknowledgement of
  the insertion, and one contributor is appended under a generated identifier; its
  \<open>lessons\<close> is the body's value when that is truthy - any number is stored as given,
  0 included - and 0 when it is absent or falsy; \<open>name\<close> and \<open>avatar\<close> are the body's when
  truthy, and \<open>"Anonymous"\<close> and the default avatar when absent or falsy; \<open>createdAt\<close> is
  the current time; every other field is the body's. A body that brings an \<open>_id\<close> is
  stored in the same way under that \<open>_id\<close>, unless it is an array or already in the
  collection: then the insertion throws, nothing is stored and the handler sends
  no response.
\<close>

theorem post_contributors_given_or_default:
  "post_contributors default_avatar now body (st\<lparr>lessons := ls\<rparr>)
     = (fst (post_contributors default_avatar now body st),
        (snd (post_contributors default_avatar now body st))\<lparr>lessons := ls\<rparr>)
   \<and> (field body ''_id'' = None \<or> field body ''_id'' = Some VNull \<longrightarrow>
        (\<exists>c. post_contributors default_avatar now body st
                = (Response 200 (insert_ack (VOid (next_oid st))),
                   st\<lparr>contributors := contributors st @ [c], next_oid := Suc (next_oid st)\<rparr>)
            \<and> field c ''_id'' = Some (VOid (next_oid st))
            \<and> field c ''name'' = Some (js_or (field body ''name'') (VStr ''Anonymous''))
            \<and> field c ''lessons'' = Some (js_or (field body ''lessons'') (VNum 0))
            \<and> field c ''avatar'' = Some (js_or (field body ''avatar'') (VStr default_avatar))
            \<and> field c ''createdAt'' = Some (VDate now)
            \<and> (\<forall>k. k \<notin> {''_id'', ''name'', ''lessons'', ''avatar'', ''createdAt''}
                    \<longrightarrow> field c k = field body k)
            \<and> (\<forall>n. field body ''lessons'' = Some (VNum n) \<longrightarrow> field c ''lessons'' = Some (VNum n))
            \<and> (\<forall>v. field body ''lessons'' = Some v \<and> truthy (Some v) \<longrightarrow> field c ''lessons'' = Some v)
            \<and> (\<not> truthy (field body ''lessons'') \<longrightarrow> field c ''lessons'' = Some (VNum 0))
            \<and> (\<not> truthy (field body ''name'') \<longrightarrow> field c ''name'' = Some (VStr ''Anonymous''))
            \<and> (\<not> truthy (field body ''avatar'') \<longrightarrow> field c ''avatar'' = Some (VStr default_avatar))))
   \<and> (\<forall>v. field body ''_id'' = Some v \<and> v \<noteq> VNull \<and> (\<forall>xs. v \<noteq> VArr xs)
            \<and> (\<forall>e \<in> set (contributors st). field e ''_id'' \<noteq> Some v) \<longrightarrow>
        (\<exists>c. post_contributors default_avatar now body st
                = (Response 200 (insert_ack v), st\<lparr>contributors := contributors st @ [c]\<rparr>)
            \<and> field c ''_id'' = Some v
            \<and> field c ''name'' = Some (js_or (field body ''name'') (VStr ''Anonymous''))
            \<and> field c ''lessons'' = Some (js_or (field body ''lessons'') (VNum 0))
            \<and> field c ''avatar'' = Some (js_or (field body ''avatar'') (VStr default_avatar))
            \<and> field c ''createdAt'' = Some (VDate now)
            \<and> (\<forall>k. k \<notin> {''_id'', ''name'', ''lessons'', ''avatar'', ''createdAt''}
                    \<longrightarrow> field c k = field body k)))
   \<and> ((\<exists>xs. field body ''_id'' = Some (VArr xs))
        \<or> (\<exists>v. field body ''_id'' = Some v \<and> v \<noteq> VNull
               \<and> (\<exists>e \<in> set (contributors st). field e ''_id'' = Some v))
       \<longrightarrow> post_contributors default_avatar now body st = (Unhandled, st))"
proof -
  let ?c1 = "assign ''name'' (js_or (field body ''name'') (VStr ''Anonymous'')) body"
  let ?c2 = "assign ''lessons'' (js_or (field ?c1 ''lessons'') (VNum 0)) ?c1"
  let ?c3 = "assign ''avatar'' (js_or (field ?c2 ''avatar'') (VStr default_avatar)) ?c2"
  let ?c = "assign ''createdAt'' (VDate now) ?c3"
  have p: "post_contributors default_avatar now body st =
       (case insertOne ?c (contributors st) (next_oid st) of
          None \<Rightarrow> (Unhandled, st)
        | Some (i, cs, n) \<Rightarrow> (Response 200 (insert_ack i), st\<lparr>contributors := cs, next_oid := n\<rparr>))"
    by (simp add: post_contributors_def Let_def)
  have i: "field ?c ''_id'' = field body ''_id''"
    by simp
  have n: "field ?c ''name'' = Some (js_or (field body ''name'') (VStr ''Anonymous''))"
    by simp
  have l: "field ?c ''lessons'' = Some (js_or (field body ''lessons'') (VNum 0))"
    by simp
  have a: "field ?c ''avatar'' = Some (js_or (field body ''avatar'') (VStr default_avatar))"
    by simp
  have t: "field ?c ''createdAt'' = Some (VDate now)"
    by simp
  have o: "\<forall>k. k \<notin> {''_id'', ''name'', ''lessons'', ''avatar'', ''createdAt''}
             \<longrightarrow> field ?c k = field body k"
    by simp
  have ln: "\<forall>n. field body ''lessons'' = Some (VNum n) \<longrightarrow> field ?c ''lessons'' = Some (VNum n)"
    using l by simp
  have lt: "\<forall>v. field body ''lessons'' = Some v \<and> truthy (Some v) \<longrightarrow> field ?c ''lessons'' = Some v"
    using l by simp
  have lf: "\<not> truthy (field body ''lessons'') \<longrightarrow> field ?c ''lessons'' = Some (VNum 0)"
    using l by (cases "field body ''lessons''") simp_all
  have nf: "\<not> truthy (field body ''name'') \<longrightarrow> field ?c ''name'' = Some (VStr ''Anonymous'')"
    using n by (cases "field body ''name''") simp_all
  have af: "\<not> truthy (field body ''avatar'') \<longrightarrow> field ?c ''avatar'' = Some (VStr default_avatar)"
    using a by (cases "field body ''avatar''") simp_all
  show ?thesis
  proof (intro conjI allI impI)
    show "post_contributors default_avatar now body (st\<lparr>lessons := ls\<rparr>)
     = (fst (post_contributors default_avatar now body st),
        (snd (post_contributors default_avatar now body st))\<lparr>lessons := ls\<rparr>)"
      by (rule post_contributors_frame)
  next
    assume h: "field body ''_id'' = None \<or> field body ''_id'' = Some VNull"
    let ?d = "assign ''_id'' (VOid (next_oid st)) ?c"
    from h i have "insertOne ?c (contributors st) (next_oid st)
        = Some (VOid (next_oid st), contributors st @ [?d], Suc (next_oid st))"
      by (intro insertOne_generates) simp
    with p have "post_contributors default_avatar now body st
                = (Response 200 (insert_ack (VOid (next_oid st))),
                   st\<lparr>contributors := contributors st @ [?d], next_oid := Suc (next_oid st)\<rparr>)"
      by simp
    moreover have "field ?d ''_id'' = Some (VOid (next_oid st))"
      by (rule field_assign_same)
    moreover have "\<forall>k. k \<noteq> ''_id'' \<longrightarrow> field ?d k = field ?c k"
      by simp
    ultimately show "\<exists>c. post_contributors default_avatar now body st
                = (Response 200 (insert_ack (VOid (next_oid st))),
                   st\<lparr>contributors := contributors st @ [c], next_oid := Suc (next_oid st)\<rparr>)
            \<and> field c ''_id'' = Some (VOid (next_oid st))
            \<and> field c ''name'' = Some (js_or (field body ''name'') (VStr ''Anonymous''))
            \<and> field c ''lessons'' = Some (js_or (field body ''lessons'') (VNum 0))
            \<and> field c ''avatar'' = Some (js_or (field body ''avatar'') (VStr default_avatar))
            \<and> field c ''createdAt'' = Some (VDate now)
            \<and> (\<forall>k. k \<notin> {''_id'', ''name'', ''lessons'', ''avatar'', ''createdAt''}
                    \<longrightarrow> field c k = field body k)
            \<and> (\<forall>n. field body ''lessons'' = Some (VNum n) \<longrightarrow> field c ''lessons'' = Some (VNum n))
            \<and> (\<forall>v. field body ''lessons'' = Some v \<and> truthy (Some v) \<longrightarrow> field c ''lessons'' = Some v)
            \<and> (\<not> truthy (field body ''lessons'') \<longrightarrow> field c ''lessons'' = Some (VNum 0))
            \<and> (\<not> truthy (field body ''name'') \<longrightarrow> field c ''name'' = Some (VStr ''Anonymous''))
            \<and> (\<not> truthy (field body ''avatar'') \<longrightarrow> field c ''avatar'' = Some (VStr default_avatar))"
      using n l a t o ln lt lf nf af
      by (intro exI [of _ ?d]) (simp del: assign.simps)
  next
    fix v
    assume h: "field body ''_id'' = Some v \<and> v \<noteq> VNull \<and> (\<forall>xs. v \<noteq> VArr xs)
            \<and> (\<forall>e \<in> set (contributors st). field e ''_id'' \<noteq> Some v)"
    with i have "insertOne ?c (contributors st) (next_oid st)
        = Some (v, contributors st @ [?c], next_oid st)"
      by (intro insertOne_keeps) simp_all
    with p have "post_contributors default_avatar now body st
                = (Response 200 (insert_ack v), st\<lparr>contributors := contributors st @ [?c]\<rparr>)"
      by simp
    then show "\<exists>c. post_contributors default_avatar now body st
                = (Response 200 (insert_ack v), st\<lparr>contributors := contributors st @ [c]\<rparr>)
            \<and> field c ''_id'' = Some v
            \<and> field c ''name'' = Some (js_or (field body ''name'') (VStr ''Anonymous''))
            \<and> field c ''lessons'' = Some (js_or (field body ''lessons'') (VNum 0))
            \<and> field c ''avatar'' = Some (js_or (field body ''avatar'') (VStr default_avatar))
            \<and> field c ''createdAt'' = Some (VDate now)
            \<and> (\<forall>k. k \<notin> {''_id'', ''name'', ''lessons'', ''avatar'', ''createdAt''}
                    \<longrightarrow> field c k = field body k)"
      using i n l a t o h
      by (intro exI [of _ ?c]) (simp del: assign.simps)
  next
    assume h: "(\<exists>xs. field body ''_id'' = Some (VArr xs))
        \<or> (\<exists>v. field body ''_id'' = Some v \<and> v \<noteq> VNull
               \<and> (\<exists>e \<in> set (contributors st). field e ''_id'' = Some v))"
    with i have "insertOne ?c (contributors st) (next_oid st) = None"
      by (intro insertOne_rejects) simp
    with p show "post_contributors default_avatar now body st = (Unhandled, st)"
      by simp
  qed
qed

theorem post_contributors_given_or_default_witness:
  "field [(''name'', VStr ''x''), (''lessons'', VNum 42)] ''_id'' = None
   \<and> (\<exists>c. post_contributors ''/images/default.jpg'' 7 [(''name'', VStr ''x''), (''lessons'', VNum 42)]
             \<lparr>lessons = [], contributors = [], next_oid = 0\<rparr>
           = (Response 200 (insert_ack (VOid 0)),
              \<lparr>lessons = [], contributors = [c], next_oid = 1\<rparr>)
         \<and> field c ''name'' = Some (VStr ''x'')
         \<and> field c ''lessons'' = Some (VNum 42)
         \<and> field c ''avatar'' = Some (VStr ''/images/default.jpg''))
   \<and> countDocuments (\<lambda>d. matches_eq (field d ''author'') (VStr ''x'')) [] = 0
   \<and> field [(''_id'', VNum 5), (''lessons'', VStr ''many'')] ''_id'' = Some (VNum 5)
   \<and> (\<exists>c. post_contributors [] 7 [(''_id'', VNum 5), (''lessons'', VStr ''many'')]
             \<lparr>lessons = [], contributors = [], next_oid = 0\<rparr>
           = (Response 200 (insert_ack (VNum 5)),
              \<lparr>lessons = [], contributors = [c], next_oid = 0\<rparr>)
         \<and> field c ''name'' = Some (VStr ''Anonymous'')
         \<and> field c ''lessons'' = Some (VStr ''many''))
   \<and> post_contributors [] 7 [(''_id'', VNum 5), (''lessons'', VStr ''many'')]
        \<lparr>lessons = [], contributors = [[(''_id'', VNum 5)]], next_oid = 0\<rparr>
      = (Unhandled, \<lparr>lessons = [], contributors = [[(''_id'', VNum 5)]], next_oid = 0\<rparr>)"
proof -
  let ?b1 = "[(''name'', VStr ''x''), (''lessons'', VNum 42)]"
  let ?b2 = "[(''_id'', VNum 5), (''lessons'', VStr ''many'')]"
  let ?st = "\<lparr>lessons = [], contributors = [], next_oid = 0\<rparr>"
  let ?st2 = "\<lparr>lessons = [], contributors = [[(''_id'', VNum 5)]], next_oid = 0\<rparr>"
  have h1: "field ?b1 ''_id'' = None"
    by (simp add: field_def)
  then have h1': "field ?b1 ''_id'' = None \<or> field ?b1 ''_id'' = Some VNull"
    by (rule disjI1)
  have h2: "field ?b2 ''_id'' = Some (VNum 5)"
    by (simp add: field_def)
  have h2': "field ?b2 ''_id'' = Some (VNum 5) \<and> VNum 5 \<noteq> VNull \<and> (\<forall>xs. VNum 5 \<noteq> VArr xs)
            \<and> (\<forall>e \<in> set (contributors ?st). field e ''_id'' \<noteq> Some (VNum 5))"
    by (simp add: field_def)
  have h3': "(\<exists>xs. field ?b2 ''_id'' = Some (VArr xs))
        \<or> (\<exists>v. field ?b2 ''_id'' = Some v \<and> v \<noteq> VNull
               \<and> (\<exists>e \<in> set (contributors ?st2). field e ''_id'' = Some v))"
    by (simp add: field_def)
  note T1 = post_contributors_given_or_default [of "''/images/default.jpg''" 7 ?b1 "[]" ?st]
  note T2 = post_contributors_given_or_default [of "[]" 7 ?b2 "[]" ?st]
  note T3 = post_contributors_given_or_default [of "[]" 7 ?b2 "[]" ?st2]
  have a: "\<exists>c. post_contributors ''/images/default.jpg'' 7 ?b1 ?st
           = (Response 200 (insert_ack (VOid 0)),
              \<lparr>lessons = [], contributors = [c], next_oid = 1\<rparr>)
         \<and> field c ''name'' = Some (VStr ''x'')
         \<and> field c ''lessons'' = Some (VNum 42)
         \<and> field c ''avatar'' = Some (VStr ''/images/default.jpg'')"
    using T1 [THEN conjunct2, THEN conjunct1, THEN mp, OF h1']
    apply (elim exE conjE)
    subgoal for c
      apply (rule exI [of _ c])
      apply (simp add: field_def)
      done
    done
  have b: "\<exists>c. post_contributors [] 7 ?b2 ?st
           = (Response 200 (insert_ack (VNum 5)),
              \<lparr>lessons = [], contributors = [c], next_oid = 0\<rparr>)
         \<and> field c ''name'' = Some (VStr ''Anonymous'')
         \<and> field c ''lessons'' = Some (VStr ''many'')"
    using T2 [THEN conjunct2, THEN conjunct2, THEN conjunct1, THEN spec, THEN mp, OF h2']
    apply (elim exE conjE)
    subgoal for c
      apply (rule exI [of _ c])
      apply (simp add: field_def)
      done
    done
  have c: "post_contributors [] 7 ?b2 ?st2 = (Unhandled, ?st2)"
    using T3 [THEN conjunct2, THEN conjunct2, THEN conjunct2, THEN mp, OF h3'] .
  have n: "countDocuments (\<lambda>d. matches_eq (field d ''author'') (VStr ''x'')) [] = 0"
    by (simp add: countDocuments_def)
  from h1 a n h2 b c show ?thesis
    by (intro conjI)
qed

text \<open>
  The upsert of lesson creation (src/unnamed/part_002) then counts on from that value:
  after one lesson by \<open>x\<close>, the contributor holds 43.
\<close>

lemma contributor_count_diverges:
  "post_lessons_p002 8 9 [(''author'', VStr ''x'')]
      \<lparr>lessons = [],
        contributors = [[(''name'', VStr ''x''), (''lessons'', VNum 42),
           (''avatar'', VStr ''/images/default.jpg''), (''createdAt'', VDate 7), (''_id'', VOid 0)]],
        next_oid = 1\<rparr>
    = (Response 200 (insert_ack (VOid 1)),
       \<lparr>lessons = [[(''author'', VStr ''x''), (''likes'', VNum 0), (''views'', VNum 0),
                    (''saves'', VNum 0), (''comments'', VArr []), (''shares'', VNum 0),
                    (''createdAt'', VDate 8), (''authorAvatar'', VStr ''/images/default.jpg''),
                    (''_id'', VOid 1)]],
        contributors = [[(''name'', VStr ''x''), (''lessons'', VNum 43),
           (''avatar'', VStr ''/images/default.jpg''), (''createdAt'', VDate 7), (''_id'', VOid 0)]],
        next_oid = 2\<rparr>)"
  by (simp add: post_lessons_p002_def lessonData_p002_def insertOne_def field_def
      upsert_contributor_def inc_field_def Let_def)

end
